(* ===== verification/Prelude.thy ===== *)
theory Prelude
  imports Complex_Main "HOL-Library.Word"
begin

text \<open>
  Shared vocabulary of the development: the machine integers of the target (an ESP32-C3,
  a 32-bit RISC-V core), the fact collections the component theories fill, and the lemmas
  on words and lists that several components use.

  \<^item> \<open>millis_t\<close> is the \<^verbatim>\<open>unsigned long\<close> that \<^verbatim>\<open>millis()\<close> returns: 32 bits, wrapping after
    about 49.7 days; \<open>cint\<close> is the 32-bit two's complement \<^verbatim>\<open>int\<close>; \<open>int8_t\<close> the type of
    the channel argument of \<^verbatim>\<open>DeviceHandler::setRelais\<close>.
  \<^item> \<open>elapsed now before\<close> is the unsigned difference \<^verbatim>\<open>now - before\<close> that every periodic
    handler of the firmware tests against its interval.
\<close>

unbundle bit_operations_syntax

type_synonym millis_t = "32 word"
type_synonym cint = "32 word"
type_synonym int8_t = "8 word"

named_theorems frame \<open>fields an operation leaves unchanged\<close>
named_theorems handler_defs \<open>definitions of the handlers, for unfolding a step\<close>

subsection \<open>Time on a wrapping clock\<close>

definition elapsed :: "millis_t \<Rightarrow> millis_t \<Rightarrow> nat" where
  "elapsed now before = unat (now - before)"

definition clock :: "nat \<Rightarrow> millis_t" where
  "clock t = of_nat t"

text \<open>
  \<open>clock t\<close> is the reading of the millisecond counter \<open>t\<close> milliseconds after power-on. As
  long as two readings are less than one full turn of the counter apart, the unsigned
  difference is the real time between them, also across the wrap-around.
\<close>

lemma unat_of_nat32: "unat (of_nat n :: 32 word) = n mod 4294967296"
  by (simp add: unat_of_nat)

lemma elapsed_clock:
  assumes "s \<le> t" and "t - s < 4294967296"
  shows "elapsed (clock t) (clock s) = t - s"
proof -
  have "clock t - clock s = (of_nat (t - s) :: 32 word)"
    using assms(1) by (simp add: clock_def of_nat_diff)
  then show ?thesis using assms(2) by (simp add: elapsed_def unat_of_nat32)
qed

lemma elapsed_self [simp]: "elapsed t t = 0"
  by (simp add: elapsed_def)

lemma word32_le_diff: "(numeral n :: 32 word) \<le> a - b \<longleftrightarrow> unat (numeral n :: 32 word) \<le> elapsed a b"
  by (simp add: elapsed_def word_le_nat_alt)

lemma clock_inject:
  assumes "s < 4294967296" and "t < 4294967296"
  shows "clock s \<le> clock t \<longleftrightarrow> s \<le> t"
  using assms by (simp add: clock_def word_le_nat_alt unat_of_nat32)

end
