(* ===== verification/Ieee_Float.thy ===== *)
theory Ieee_Float
  imports Prelude
begin

text \<open>
  The floating-point arithmetic of the firmware. The sources compute in \<^verbatim>\<open>float\<close> and, where
  a \<^verbatim>\<open>double\<close> constant takes part (\<^verbatim>\<open>EMA_ALPHA\<close>, \<^verbatim>\<open>1000.0\<close>), in \<^verbatim>\<open>double\<close>. On the ESP32-C3 both
  are IEEE 754 formats (binary32 and binary64) evaluated with round to nearest, ties to
  even, and every operation rounds its exact result once.

  A value is a NaN (payloads are not observable here), an infinity with its sign, the
  negative zero, or a finite number given exactly as a rational; \<open>FFin 0\<close> is the positive
  zero. \<open>rnd f q\<close> is the rounding of an exact rational to the format \<open>f\<close> with subnormals and
  without an upper bound; \<open>to_fl f q\<close> adds overflow to infinity and the sign of an underflow
  to zero. The locale \<open>fl_format\<close> states what the component theories use of a format
  (every operation is closed, bounded by the bounds of its operands and monotone) and is
  interpreted for binary32 and binary64.
\<close>

subsection \<open>Formats and rounding\<close>

record fmt =
  prec :: nat
  emin :: int
  emax :: int

definition binary32 :: fmt where
  "binary32 = \<lparr>prec = 24, emin = - 126, emax = 127\<rparr>"

definition binary64 :: fmt where
  "binary64 = \<lparr>prec = 53, emin = - 1022, emax = 1023\<rparr>"

function blen :: "int \<Rightarrow> nat" where
  "blen n = (if n \<le> 0 then 0 else Suc (blen (n div 2)))"
  by pat_completeness auto
termination
  by (relation "measure nat") auto

declare blen.simps [simp del]

definition ilog2 :: "rat \<Rightarrow> int" where
  "ilog2 q = (let (n, d) = quotient_of \<bar>q\<bar>; e = int (blen n) - int (blen d)
     in if 2 powi e \<le> \<bar>q\<bar> then e else e - 1)"

definition rne :: "rat \<Rightarrow> int" where
  "rne x = (let n = \<lfloor>x\<rfloor>; r = x - of_int n
     in if r < 1 / 2 then n else if 1 / 2 < r then n + 1 else if even n then n else n + 1)"

definition ulp_exp :: "fmt \<Rightarrow> rat \<Rightarrow> int" where
  "ulp_exp f q = max (ilog2 q) (emin f) - int (prec f - 1)"

definition rnd :: "fmt \<Rightarrow> rat \<Rightarrow> rat" where
  "rnd f q = (if q = 0 then 0
     else let u = 2 powi (ulp_exp f q) in of_int (rne (q / u)) * u)"


text \<open>Overflow goes to infinity; a nonzero number that rounds to zero keeps its sign.\<close>

datatype fl = FNaN | FInf bool | FNegZero | FFin rat

definition fl_zero :: "bool \<Rightarrow> fl" where
  "fl_zero s = (if s then FNegZero else FFin 0)"

definition fl_limit :: "fmt \<Rightarrow> rat" where
  "fl_limit f = 2 powi (emax f + 1)"

definition to_fl :: "fmt \<Rightarrow> rat \<Rightarrow> fl" where
  "to_fl f q = (let r = rnd f q
     in if r = 0 then fl_zero (q < 0)
        else if fl_limit f \<le> \<bar>r\<bar> then FInf (q < 0) else FFin r)"

subsection \<open>Values and operations\<close>

fun fval :: "fl \<Rightarrow> rat" where
  "fval (FFin q) = q"
| "fval _ = 0"

fun fl_finite :: "fl \<Rightarrow> bool" where
  "fl_finite FNaN = False"
| "fl_finite (FInf _) = False"
| "fl_finite _ = True"

fun fl_sign :: "fl \<Rightarrow> bool" where
  "fl_sign FNaN = False"
| "fl_sign (FInf s) = s"
| "fl_sign FNegZero = True"
| "fl_sign (FFin q) = (q < 0)"

fun fl_neg :: "fl \<Rightarrow> fl" where
  "fl_neg FNaN = FNaN"
| "fl_neg (FInf s) = FInf (\<not> s)"
| "fl_neg FNegZero = FFin 0"
| "fl_neg (FFin q) = (if q = 0 then FNegZero else FFin (- q))"

definition fl_add :: "fmt \<Rightarrow> fl \<Rightarrow> fl \<Rightarrow> fl" where
  "fl_add f a b =
     (if a = FNaN \<or> b = FNaN then FNaN
      else case a of
        FInf s \<Rightarrow> (if b = FInf (\<not> s) then FNaN else a)
      | _ \<Rightarrow> (case b of
          FInf _ \<Rightarrow> b
        | _ \<Rightarrow> (if a = FNegZero \<and> b = FNegZero then FNegZero
                else to_fl f (fval a + fval b))))"

definition fl_sub :: "fmt \<Rightarrow> fl \<Rightarrow> fl \<Rightarrow> fl" where
  "fl_sub f a b = fl_add f a (fl_neg b)"

definition fl_mul :: "fmt \<Rightarrow> fl \<Rightarrow> fl \<Rightarrow> fl" where
  "fl_mul f a b =
     (let s = (fl_sign a \<noteq> fl_sign b)
      in if a = FNaN \<or> b = FNaN then FNaN
         else if \<not> fl_finite a \<or> \<not> fl_finite b
           then (if (fl_finite a \<and> fval a = 0) \<or> (fl_finite b \<and> fval b = 0) then FNaN else FInf s)
         else if fval a * fval b = 0 then fl_zero s
         else to_fl f (fval a * fval b))"

definition fl_div :: "fmt \<Rightarrow> fl \<Rightarrow> fl \<Rightarrow> fl" where
  "fl_div f a b =
     (let s = (fl_sign a \<noteq> fl_sign b)
      in if a = FNaN \<or> b = FNaN then FNaN
         else if \<not> fl_finite a then (if fl_finite b then FInf s else FNaN)
         else if \<not> fl_finite b then fl_zero s
         else if fval b = 0 then (if fval a = 0 then FNaN else FInf s)
         else if fval a = 0 then fl_zero s
         else to_fl f (fval a / fval b))"

text \<open>
  Conversion between formats: widening is exact, narrowing (\<^verbatim>\<open>double\<close> to \<^verbatim>\<open>float\<close>) rounds.
\<close>

definition fl_conv :: "fmt \<Rightarrow> fl \<Rightarrow> fl" where
  "fl_conv f a = (case a of FFin q \<Rightarrow> to_fl f q | _ \<Rightarrow> a)"

text \<open>The C comparisons \<^verbatim>\<open><\<close> and \<^verbatim>\<open><=\<close>: false as soon as one side is a NaN.\<close>

fun fl_less :: "fl \<Rightarrow> fl \<Rightarrow> bool" where
  "fl_less FNaN _ = False"
| "fl_less _ FNaN = False"
| "fl_less (FInf s) (FInf t) = (s \<and> \<not> t)"
| "fl_less (FInf s) _ = s"
| "fl_less _ (FInf t) = (\<not> t)"
| "fl_less a b = (fval a < fval b)"

definition fl_le :: "fl \<Rightarrow> fl \<Rightarrow> bool" where
  "fl_le a b = (a \<noteq> FNaN \<and> b \<noteq> FNaN \<and> \<not> fl_less b a)"

text \<open>\<^verbatim>\<open>std::round\<close>: to the nearest integer, halfway cases away from zero.\<close>

definition round_away :: "rat \<Rightarrow> int" where
  "round_away q = (if q < 0 then - \<lfloor>- q + 1 / 2\<rfloor> else \<lfloor>q + 1 / 2\<rfloor>)"

definition fl_round :: "fl \<Rightarrow> fl" where
  "fl_round a = (case a of
     FFin q \<Rightarrow> (if round_away q = 0 then fl_zero (q < 0) else FFin (of_int (round_away q)))
   | _ \<Rightarrow> a)"

text \<open>Well-formedness: a finite value of format \<open>f\<close>. Range: a finite value between two bounds.\<close>

definition is_float :: "fmt \<Rightarrow> fl \<Rightarrow> bool" where
  "is_float f a = (case a of
     FFin q \<Rightarrow> rnd f q = q \<and> \<bar>q\<bar> < fl_limit f
   | _ \<Rightarrow> True)"

definition fl_in :: "rat \<Rightarrow> rat \<Rightarrow> fl \<Rightarrow> bool" where
  "fl_in lo hi a = (fl_finite a \<and> lo \<le> fval a \<and> fval a \<le> hi)"

subsection \<open>Powers of two and the position of the leading bit\<close>

lemma powi_pos [simp]: "(0::rat) < 2 powi e"
  by (simp add: zero_less_power_int)

lemma powi_nonzero [simp]: "(2::rat) powi e \<noteq> 0"
  by simp

lemma powi_Suc: "(2::rat) powi (e + 1) = 2 * 2 powi e"
  by (simp add: power_int_add)

lemma powi_less [simp]: "(2::rat) powi a < 2 powi b \<longleftrightarrow> a < b"
  by (metis linorder_less_linear one_less_numeral_iff order_less_asym
      power_int_strict_increasing semiring_norm(76) order_less_irrefl)

lemma powi_le [simp]: "(2::rat) powi a \<le> 2 powi b \<longleftrightarrow> a \<le> b"
  by (simp add: linorder_not_less [symmetric])

lemma powi_split: "(2::rat) powi a = 2 powi (a - b) * 2 powi b"
  by (simp flip: power_int_add)

lemma powi_mult: "(2::rat) powi a * 2 powi b = 2 powi (a + b)"
  by (simp add: power_int_add)

lemma powi_grid: "b \<le> a \<Longrightarrow> (2::rat) powi a = of_int (2 ^ nat (a - b)) * 2 powi b"
  by (subst powi_split [of a b]) (simp add: power_int_def)

lemma blen_bounds: "0 < n \<Longrightarrow> 0 < blen n \<and> 2 ^ (blen n - 1) \<le> n \<and> n < 2 ^ blen n"
proof (induction n rule: blen.induct)
  case (1 n)
  have unf: "blen n = Suc (blen (n div 2))"
    using "1.prems" by (simp add: blen.simps [of n])
  show ?case
  proof (cases "n = 1")
    case True
    then show ?thesis by (simp add: blen.simps)
  next
    case False
    with "1.prems" "1.IH" have
      pos: "0 < blen (n div 2)" and
      lo: "2 ^ (blen (n div 2) - 1) \<le> n div 2" and
      hi: "n div 2 < 2 ^ blen (n div 2)" by simp_all
    have "2 * 2 ^ (blen (n div 2) - 1) \<le> n" using lo by linarith
    then have "2 ^ blen (n div 2) \<le> n"
      using pos by (metis Suc_diff_1 power_Suc)
    moreover have "n < 2 * 2 ^ blen (n div 2)" using hi by linarith
    ultimately show ?thesis by (simp add: unf)
  qed
qed

lemma blen_bounds_rat:
  assumes "0 < n"
  shows "(2::rat) powi (int (blen n) - 1) \<le> of_int n"
    and "of_int n < (2::rat) powi (int (blen n))"
proof -
  from blen_bounds [OF assms] have b: "0 < blen n" "2 ^ (blen n - 1) \<le> n" "n < 2 ^ blen n"
    by auto
  have "(2::rat) powi (int (blen n) - 1) = of_int (2 ^ (blen n - 1))"
    using b(1) by (simp add: power_int_def nat_diff_distrib)
  with b(2) show "(2::rat) powi (int (blen n) - 1) \<le> of_int n"
    by (metis of_int_le_iff)
  have "(2::rat) powi (int (blen n)) = of_int (2 ^ blen n)"
    by simp
  with b(3) show "of_int n < (2::rat) powi (int (blen n))"
    by (metis of_int_less_iff)
qed

lemma ilog2_bounds:
  assumes "q \<noteq> 0"
  shows "2 powi (ilog2 q) \<le> \<bar>q\<bar>" and "\<bar>q\<bar> < 2 powi (ilog2 q + 1)"
proof -
  obtain n d where nd: "quotient_of \<bar>q\<bar> = (n, d)" by fastforce
  define e where "e = int (blen n) - int (blen d)"
  have d: "0 < d" using nd by (rule quotient_of_denom_pos)
  have q: "\<bar>q\<bar> = of_int n / of_int d" using nd by (rule quotient_of_div)
  have n: "0 < n"
    using assms d q by (metis of_int_0_less_iff zero_less_abs_iff zero_less_divide_iff
        order_less_asym)
  have lo: "2 powi (e - 1) < \<bar>q\<bar>" 
  proof -
    have "2 powi (e - 1) * of_int d < 2 powi (e - 1) * (2::rat) powi (int (blen d))"
      using blen_bounds_rat(2) [OF d] by simp
    also have "\<dots> = 2 powi (int (blen n) - 1)"
      by (simp only: powi_mult e_def) simp
    also have "\<dots> \<le> of_int n" by (rule blen_bounds_rat(1) [OF n])
    finally show ?thesis using d by (simp add: q field_simps)
  qed
  have hi: "\<bar>q\<bar> < 2 powi (e + 1)"
  proof -
    have "of_int n < (2::rat) powi (int (blen n))" by (rule blen_bounds_rat(2) [OF n])
    also have "\<dots> = 2 powi (e + 1) * 2 powi (int (blen d) - 1)"
      by (simp only: powi_mult e_def) simp
    also have "\<dots> \<le> 2 powi (e + 1) * of_int d"
      using blen_bounds_rat(1) [OF d] by (intro mult_left_mono) auto
    finally show ?thesis using d by (simp add: q field_simps)
  qed
  have il: "ilog2 q = (if 2 powi e \<le> \<bar>q\<bar> then e else e - 1)"
    by (simp add: ilog2_def nd e_def Let_def)
  show "2 powi (ilog2 q) \<le> \<bar>q\<bar>" using lo by (simp add: il)
  show "\<bar>q\<bar> < 2 powi (ilog2 q + 1)" using hi by (simp add: il)
qed

lemma ilog2_unique:
  assumes "2 powi e \<le> \<bar>q\<bar>" and "\<bar>q\<bar> < 2 powi (e + 1)"
  shows "ilog2 q = e"
proof -
  have "0 < \<bar>q\<bar>" using assms(1) powi_pos [of e] by (rule order_less_le_trans [rotated])
  then have "q \<noteq> 0" by simp
  note b = ilog2_bounds [OF this]
  have "e < ilog2 q + 1" using assms(1) b(2) by (metis order_le_less_trans powi_less)
  moreover have "ilog2 q < e + 1" using assms(2) b(1) by (metis order_le_less_trans powi_less)
  ultimately show ?thesis by simp
qed

lemma ilog2_mono: "q \<noteq> 0 \<Longrightarrow> \<bar>q\<bar> \<le> \<bar>r\<bar> \<Longrightarrow> ilog2 q \<le> ilog2 r"
proof -
  assume q: "q \<noteq> 0" and le: "\<bar>q\<bar> \<le> \<bar>r\<bar>"
  then have r: "r \<noteq> 0" by auto
  have "2 powi (ilog2 q) < (2::rat) powi (ilog2 r + 1)"
    using ilog2_bounds(1) [OF q] ilog2_bounds(2) [OF r] le by linarith
  then show ?thesis by simp
qed

lemma ilog2_minus [simp]: "ilog2 (- q) = ilog2 q"
  by (simp add: ilog2_def)

subsection \<open>Rounding is monotone, odd and idempotent\<close>

lemma rne_of_int [simp]: "rne (of_int n) = n"
  by (simp add: rne_def)

lemma rne_cases: "rne x = \<lfloor>x\<rfloor> \<or> rne x = \<lfloor>x\<rfloor> + 1"
  by (simp add: rne_def Let_def)

lemma rne_mono: "x \<le> y \<Longrightarrow> rne x \<le> rne y"
proof -
  assume le: "x \<le> y"
  then have fl: "\<lfloor>x\<rfloor> \<le> \<lfloor>y\<rfloor>" by (rule floor_mono)
  show ?thesis
  proof (cases "\<lfloor>x\<rfloor> = \<lfloor>y\<rfloor>")
    case True
    with le show ?thesis by (auto simp: rne_def Let_def)
  next
    case False
    with fl rne_cases [of x] rne_cases [of y] show ?thesis by linarith
  qed
qed

lemma rne_close: "\<bar>of_int (rne x) - x\<bar> \<le> 1 / 2"
proof -
  have "of_int \<lfloor>x\<rfloor> \<le> x" "x < of_int \<lfloor>x\<rfloor> + 1" by linarith+
  then show ?thesis by (auto simp: rne_def Let_def abs_le_iff)
qed

lemma rne_minus: "rne (- x) = - rne x"
proof (cases "x = of_int \<lfloor>x\<rfloor>")
  case True
  then show ?thesis by (metis of_int_minus rne_of_int)
next
  case False
  then have f: "\<lfloor>- x\<rfloor> = - \<lfloor>x\<rfloor> - 1"
    by linarith
  show ?thesis by (auto simp: rne_def Let_def f)
qed


lemma ulp_exp_minus [simp]: "ulp_exp f (- q) = ulp_exp f q"
  by (simp add: ulp_exp_def)

lemma ulp_exp_mono: "q \<noteq> 0 \<Longrightarrow> \<bar>q\<bar> \<le> \<bar>r\<bar> \<Longrightarrow> ulp_exp f q \<le> ulp_exp f r"
  using ilog2_mono [of q r] by (auto simp: ulp_exp_def)

lemma rnd_zero [simp]: "rnd f 0 = 0"
  by (simp add: rnd_def)

lemma rnd_minus: "rnd f (- q) = - rnd f q"
  by (simp add: rnd_def Let_def rne_minus)

lemma rnd_nonzero: "q \<noteq> 0 \<Longrightarrow> rnd f q = of_int (rne (q / 2 powi ulp_exp f q)) * 2 powi ulp_exp f q"
  by (simp add: rnd_def Let_def)

text \<open>A value on the grid of a number bounds its rounding.\<close>

lemma rnd_le_grid:
  assumes "q \<noteq> 0" and "q \<le> of_int k * 2 powi ulp_exp f q"
  shows "rnd f q \<le> of_int k * 2 powi ulp_exp f q"
proof -
  have "q / 2 powi ulp_exp f q \<le> of_int k" using assms(2) by (simp add: field_simps)
  then have "rne (q / 2 powi ulp_exp f q) \<le> k" using rne_mono by fastforce
  then show ?thesis using assms(1) by (simp add: rnd_nonzero)
qed

lemma rnd_ge_grid:
  assumes "q \<noteq> 0" and "of_int k * 2 powi ulp_exp f q \<le> q"
  shows "of_int k * 2 powi ulp_exp f q \<le> rnd f q"
  using rnd_le_grid [of "- q" "- k" f] assms by (simp add: rnd_minus)

lemma rnd_grid:
  assumes "q = of_int k * 2 powi ulp_exp f q"
  shows "rnd f q = q"
proof (cases "q = 0")
  case False
  then show ?thesis using rnd_le_grid [OF False, of k f] rnd_ge_grid [OF False, of k f] assms
    by simp
qed simp

lemma rnd_le_powi:
  assumes "q \<noteq> 0" and "q \<le> 2 powi a" and "ulp_exp f q \<le> a"
  shows "rnd f q \<le> 2 powi a"
  using assms(1,2) rnd_le_grid [of q "2 ^ nat (a - ulp_exp f q)" f]
  by (simp add: powi_grid [OF assms(3)])

lemma rnd_ge_powi:
  assumes "q \<noteq> 0" and "2 powi a \<le> q" and "ulp_exp f q \<le> a"
  shows "2 powi a \<le> rnd f q"
  using assms(1,2) rnd_ge_grid [of q "2 ^ nat (a - ulp_exp f q)" f]
  by (simp add: powi_grid [OF assms(3)])

lemma rnd_nonneg: "0 \<le> q \<Longrightarrow> 0 \<le> rnd f q"
  using rnd_ge_grid [of q 0 f] by (cases "q = 0") auto

lemma ulp_exp_le_ilog2: "emin f \<le> ilog2 q \<Longrightarrow> ulp_exp f q \<le> ilog2 q"
  by (simp add: ulp_exp_def)

lemma rnd_mono_pos:
  assumes "0 < q" and "q \<le> r"
  shows "rnd f q \<le> rnd f r"
proof (cases "ulp_exp f q = ulp_exp f r")
  case True
  have "q / 2 powi ulp_exp f r \<le> r / 2 powi ulp_exp f r"
    using assms(2) by (simp add: divide_right_mono)
  then have "rne (q / 2 powi ulp_exp f r) \<le> rne (r / 2 powi ulp_exp f r)" by (rule rne_mono)
  then show ?thesis using assms True by (simp add: rnd_nonzero)
next
  case False
  have le: "ulp_exp f q \<le> ulp_exp f r" using assms by (intro ulp_exp_mono) auto
  with False have lt: "ilog2 q < ilog2 r" and r: "emin f \<le> ilog2 r"
    by (auto simp: ulp_exp_def max_def split: if_splits)
  have "q < 2 powi (ilog2 q + 1)" using ilog2_bounds(2) [of q] assms by simp
  also have "\<dots> \<le> 2 powi (ilog2 r)" using lt by simp
  finally have "rnd f q \<le> 2 powi (ilog2 r)"
    using assms le ulp_exp_le_ilog2 [OF r] by (intro rnd_le_powi) auto
  also have "\<dots> \<le> rnd f r"
    using assms ilog2_bounds(1) [of r] ulp_exp_le_ilog2 [OF r] by (intro rnd_ge_powi) auto
  finally show ?thesis .
qed

lemma rnd_mono: "q \<le> r \<Longrightarrow> rnd f q \<le> rnd f r"
proof -
  assume le: "q \<le> r"
  consider "0 < q" | "r < 0" | "q \<le> 0" "0 \<le> r" by linarith
  then show ?thesis
  proof cases
    case 1
    then show ?thesis using le by (rule rnd_mono_pos)
  next
    case 2
    then have "rnd f (- r) \<le> rnd f (- q)" using le by (intro rnd_mono_pos) auto
    then show ?thesis by (simp add: rnd_minus)
  next
    case 3
    then have "0 \<le> rnd f (- q)" "0 \<le> rnd f r" by (auto intro: rnd_nonneg)
    then show ?thesis by (simp add: rnd_minus)
  qed
qed

lemma rnd_idem_pos:
  assumes "0 < q" and "1 \<le> prec f"
  shows "rnd f (rnd f q) = rnd f q"
proof -
  let ?r = "rnd f q" and ?e = "ulp_exp f q" and ?m = "max (ilog2 q) (emin f) + 1"
  obtain k where k: "?r = of_int k * 2 powi ?e" using assms(1) rnd_nonzero [of q f] by auto
  have le: "?e \<le> ?m" by (simp add: ulp_exp_def)
  have "q < 2 powi (ilog2 q + 1)" using ilog2_bounds(2) [of q] assms(1) by simp
  also have "\<dots> \<le> 2 powi ?m" by simp
  finally have r_le: "?r \<le> 2 powi ?m" using assms(1) le by (intro rnd_le_powi) auto
  have r_nn: "0 \<le> ?r" using assms(1) by (intro rnd_nonneg) simp
  show ?thesis
  proof (cases "?r = 0 \<or> ?r = 2 powi ?m")
    case True
    then show ?thesis
    proof
      assume r: "?r = 2 powi ?m"
      have il: "ilog2 ?r = ?m" by (rule ilog2_unique) (simp_all add: r)
      have "ulp_exp f ?r \<le> ?m" by (simp only: ulp_exp_def il)
      from r powi_grid [OF this]
      have "?r = of_int (2 ^ nat (?m - ulp_exp f ?r)) * 2 powi ulp_exp f ?r" by (rule trans)
      then show ?thesis by (rule rnd_grid)
    qed simp
  next
    case False
    with r_nn r_le have "?r \<noteq> 0" "\<bar>?r\<bar> < 2 powi ?m" by auto
    with ilog2_bounds(1) [of ?r] have "(2::rat) powi (ilog2 ?r) < 2 powi ?m" by linarith
    then have "ilog2 ?r \<le> max (ilog2 q) (emin f)" by simp
    then have "ulp_exp f ?r \<le> ?e" by (simp add: ulp_exp_def)
    from powi_grid [OF this] have "?r = of_int (k * 2 ^ nat (?e - ulp_exp f ?r)) * 2 powi ulp_exp f ?r"
      using k by simp
    then show ?thesis by (rule rnd_grid)
  qed
qed

lemma rnd_idem: "1 \<le> prec f \<Longrightarrow> rnd f (rnd f q) = rnd f q"
  using rnd_idem_pos [of q f] rnd_idem_pos [of "- q" f]
  by (cases "q = 0"; cases "0 < q") (auto simp: rnd_minus)

lemma rnd_close:
  assumes "q \<noteq> 0"
  shows "\<bar>rnd f q - q\<bar> \<le> 2 powi ulp_exp f q / 2"
proof -
  let ?u = "2 powi ulp_exp f q"
  have "rnd f q - q = (of_int (rne (q / ?u)) - q / ?u) * ?u"
    using assms by (simp add: rnd_nonzero field_simps)
  then have "\<bar>rnd f q - q\<bar> = \<bar>of_int (rne (q / ?u)) - q / ?u\<bar> * ?u"
    by (simp add: abs_mult)
  also have "\<dots> \<le> 1 / 2 * ?u" using rne_close [of "q / ?u"] by (intro mult_right_mono) auto
  finally show ?thesis by simp
qed

text \<open>Rounding errors: half a unit in the last place, relative in the normal range.\<close>

lemma rnd_rel:
  assumes "q \<noteq> 0" and "emin f \<le> ilog2 q" and "1 \<le> prec f"
  shows "\<bar>rnd f q - q\<bar> \<le> \<bar>q\<bar> * 2 powi (- int (prec f))"
proof -
  have e: "ulp_exp f q = ilog2 q + (- int (prec f)) + 1"
    using assms(2,3) by (simp add: ulp_exp_def)
  have "\<bar>rnd f q - q\<bar> \<le> 2 powi ulp_exp f q / 2" using assms(1) by (rule rnd_close)
  also have "\<dots> = 2 powi (ilog2 q) * 2 powi (- int (prec f))"
    unfolding e powi_Suc by (simp add: powi_mult)
  also have "\<dots> \<le> \<bar>q\<bar> * 2 powi (- int (prec f))"
    using ilog2_bounds(1) [OF assms(1)] by (intro mult_right_mono) auto
  finally show ?thesis .
qed

lemma rnd_pos_iff: "0 < rnd f q \<Longrightarrow> 0 < q" "rnd f q < 0 \<Longrightarrow> q < 0"
  using rnd_nonneg [of "- q" f] rnd_nonneg [of q f] by (auto simp: rnd_minus not_less [symmetric])

text \<open>The smallest positive number of a format is a fixed point, so nothing above it vanishes.\<close>

lemma rnd_tiny:
  assumes "2 powi (emin f - int (prec f - 1)) \<le> q"
  shows "2 powi (emin f - int (prec f - 1)) \<le> rnd f q"
proof -
  let ?t = "(2::rat) powi (emin f - int (prec f - 1))"
  have "ilog2 ?t = emin f - int (prec f - 1)" by (rule ilog2_unique) simp_all
  then have "ulp_exp f ?t = emin f - int (prec f - 1)" by (simp add: ulp_exp_def)
  then have "rnd f ?t = ?t" using rnd_grid [of ?t 1 f] by simp
  with rnd_mono [OF assms, of f] show ?thesis by simp
qed

lemma grid_of_fixed:
  assumes "rnd f q = q"
  obtains k where "q = of_int k * 2 powi (emin f - int (prec f - 1))"
proof (cases "q = 0")
  case False
  let ?e = "emin f - int (prec f - 1)"
  have "?e \<le> ulp_exp f q" by (simp add: ulp_exp_def)
  moreover obtain m where "q = of_int m * 2 powi ulp_exp f q"
    using assms rnd_nonzero [OF False, of f] by metis
  ultimately have "q = of_int (m * 2 ^ nat (ulp_exp f q - ?e)) * 2 powi ?e"
    using powi_grid [of ?e "ulp_exp f q"] by simp
  then show thesis by (rule that)
qed (use that [of 0] in simp)

text \<open>The difference of two distinct numbers of a format does not round to zero.\<close>

lemma rnd_diff_pos:
  assumes "rnd f a = a" and "rnd f b = b" and "b < a"
  shows "0 < rnd f (a - b)"
proof -
  let ?u = "(2::rat) powi (emin f - int (prec f - 1))"
  obtain k where k: "a = of_int k * ?u" using assms(1) by (rule grid_of_fixed)
  obtain l where l: "b = of_int l * ?u" using assms(2) by (rule grid_of_fixed)
  have "of_int l * ?u < of_int k * ?u" using assms(3) k l by simp
  then have "l < k" by simp
  then have "1 * ?u \<le> of_int (k - l) * ?u" by (intro mult_right_mono) auto
  then have "?u \<le> a - b" by (simp add: k l algebra_simps)
  then have "?u \<le> rnd f (a - b)" by (rule rnd_tiny)
  then show ?thesis using powi_pos by (rule less_le_trans [rotated])
qed

subsection \<open>What a format promises\<close>

lemma fl_finite_cases:
  assumes "fl_finite a"
  obtains "a = FNegZero" | q where "a = FFin q"
  using assms by (cases a) auto

lemma fval_fl_zero [simp]: "fval (fl_zero s) = 0" "fl_finite (fl_zero s)"
  by (simp_all add: fl_zero_def)

lemma fl_limit_pos [simp]: "0 < fl_limit f"
  by (simp add: fl_limit_def)

lemma is_float_special [simp]:
  "is_float f FNaN" "is_float f (FInf s)" "is_float f FNegZero" "is_float f (fl_zero s)"
  by (simp_all add: is_float_def fl_zero_def)

lemma fval_neg [simp]: "fval (fl_neg a) = - fval a"
  by (cases a) auto

lemma fl_finite_neg [simp]: "fl_finite (fl_neg a) = fl_finite a"
  by (cases a) auto

lemma fl_inD: "fl_in lo hi a \<Longrightarrow> fl_finite a" "fl_in lo hi a \<Longrightarrow> lo \<le> fval a"
  "fl_in lo hi a \<Longrightarrow> fval a \<le> hi"
  by (simp_all add: fl_in_def)

lemma fl_in_mono: "fl_in lo hi a \<Longrightarrow> lo' \<le> lo \<Longrightarrow> hi \<le> hi' \<Longrightarrow> fl_in lo' hi' a"
  by (auto simp: fl_in_def)

lemma fl_less_finite: "fl_finite a \<Longrightarrow> fl_finite b \<Longrightarrow> fl_less a b = (fval a < fval b)"
  by (cases a; cases b) auto

lemma fl_le_finite: "fl_finite a \<Longrightarrow> fl_finite b \<Longrightarrow> fl_le a b = (fval a \<le> fval b)"
  using fl_less_finite [of b a] by (cases a; cases b) (auto simp: fl_le_def)

lemma fl_less_NaN [simp]: "\<not> fl_less FNaN a" "\<not> fl_less a FNaN"
  by (simp, cases a) simp_all

lemma fl_less_Inf [simp]: "\<not> fl_less a (FInf True)" "\<not> fl_less (FInf False) a"
  by (cases a; simp)+

lemma fl_le_NaN [simp]: "\<not> fl_le FNaN a" "\<not> fl_le a FNaN"
  by (simp_all add: fl_le_def)

lemma fl_finite_not_NaN [simp]: "fl_finite a \<Longrightarrow> a \<noteq> FNaN"
  by auto

lemma fl_le_zero: "fl_le (fl_zero s) x = fl_le (FFin 0) x" "fl_le x (fl_zero s) = fl_le x (FFin 0)"
  by (cases x; simp add: fl_zero_def fl_le_def)+

lemma to_fl_0 [simp]: "to_fl f 0 = FFin 0"
  by (simp add: to_fl_def fl_zero_def)

lemma to_fl_eq: "rnd f q = r \<Longrightarrow> r \<noteq> 0 \<Longrightarrow> \<bar>r\<bar> < fl_limit f \<Longrightarrow> to_fl f q = FFin r"
  by (simp add: to_fl_def Let_def)

lemma fl_limit_large: "100000000 < fl_limit binary32" "100000000 < fl_limit binary64"
proof -
  have b: "(100000000::rat) < 2 powi 27" by simp
  also have "\<dots> \<le> 2 powi 128" by (rule powi_le [THEN iffD2]) simp
  finally show "100000000 < fl_limit binary32" by (simp add: fl_limit_def binary32_def)
  note b
  also have "(2::rat) powi 27 \<le> 2 powi 1024" by (rule powi_le [THEN iffD2]) simp
  finally show "100000000 < fl_limit binary64" by (simp add: fl_limit_def binary64_def)
qed

lemma fl_not_less: "a \<noteq> FNaN \<Longrightarrow> b \<noteq> FNaN \<Longrightarrow> (\<not> fl_less a b) = fl_le b a"
  by (auto simp: fl_le_def)

locale fl_format =
  fixes f :: fmt
  assumes prec_pos: "1 \<le> prec f"
    and emin_le_emax: "emin f \<le> emax f"
begin

lemma rnd_fixed_le: "q \<le> r \<Longrightarrow> rnd f r = r \<Longrightarrow> rnd f q \<le> r"
  using rnd_mono [of q r f] by simp

lemma rnd_fixed_ge: "r \<le> q \<Longrightarrow> rnd f r = r \<Longrightarrow> r \<le> rnd f q"
  using rnd_mono [of r q f] by simp

lemma to_fl_fval: "\<bar>rnd f q\<bar> < fl_limit f \<Longrightarrow> fl_finite (to_fl f q) \<and> fval (to_fl f q) = rnd f q"
  by (auto simp: to_fl_def Let_def)

lemma to_fl_in:
  assumes "lo \<le> rnd f q" and "rnd f q \<le> hi" and "- fl_limit f < lo" and "hi < fl_limit f"
  shows "fl_in lo hi (to_fl f q)"
  using assms to_fl_fval [of q] by (auto simp: fl_in_def)

lemma is_float_to_fl: "is_float f (to_fl f q)"
  using prec_pos by (auto simp: is_float_def to_fl_def Let_def fl_zero_def rnd_idem)

lemma is_float_neg: "is_float f a \<Longrightarrow> is_float f (fl_neg a)"
  by (cases a) (auto simp: is_float_def rnd_minus)

lemma is_float_add: "is_float f a \<Longrightarrow> is_float f b \<Longrightarrow> is_float f (fl_add f a b)"
  by (cases a; cases b) (auto simp: fl_add_def is_float_to_fl)

lemma is_float_mul: "is_float f (fl_mul f a b)"
  by (auto simp: fl_mul_def Let_def is_float_to_fl)

lemma is_float_div: "is_float f (fl_div f a b)"
  by (auto simp: fl_div_def Let_def is_float_to_fl)

lemma fl_add_val:
  assumes "fl_finite a" and "fl_finite b" and "\<bar>rnd f (fval a + fval b)\<bar> < fl_limit f"
  shows "fl_finite (fl_add f a b) \<and> fval (fl_add f a b) = rnd f (fval a + fval b)"
  using assms to_fl_fval [OF assms(3)]
  by (cases a; cases b) (auto simp: fl_add_def)

lemma fl_sub_val:
  assumes "fl_finite a" and "fl_finite b" and "\<bar>rnd f (fval a - fval b)\<bar> < fl_limit f"
  shows "fl_finite (fl_sub f a b) \<and> fval (fl_sub f a b) = rnd f (fval a - fval b)"
  using fl_add_val [of a "fl_neg b"] assms by (simp add: fl_sub_def)

lemma fl_mul_val:
  assumes "fl_finite a" and "fl_finite b" and "\<bar>rnd f (fval a * fval b)\<bar> < fl_limit f"
  shows "fl_finite (fl_mul f a b) \<and> fval (fl_mul f a b) = rnd f (fval a * fval b)"
  using assms to_fl_fval [OF assms(3)]
  by (cases "fval a * fval b = 0") (auto simp: fl_mul_def Let_def)

lemma fl_div_val:
  assumes "fl_finite a" and "fl_finite b" and "fval b \<noteq> 0"
    and "\<bar>rnd f (fval a / fval b)\<bar> < fl_limit f"
  shows "fl_finite (fl_div f a b) \<and> fval (fl_div f a b) = rnd f (fval a / fval b)"
  using assms to_fl_fval [OF assms(4)]
  by (cases "fval a = 0") (auto simp: fl_div_def Let_def)

lemma fl_add_in:
  assumes "fl_in a1 a2 a" and "fl_in b1 b2 b"
    and "- fl_limit f < rnd f (a1 + b1)" and "rnd f (a2 + b2) < fl_limit f"
  shows "fl_in (rnd f (a1 + b1)) (rnd f (a2 + b2)) (fl_add f a b)"
proof -
  have lo: "rnd f (a1 + b1) \<le> rnd f (fval a + fval b)"
    and hi: "rnd f (fval a + fval b) \<le> rnd f (a2 + b2)"
    using assms(1,2) by (auto simp: fl_in_def intro: rnd_mono add_mono)
  then have "\<bar>rnd f (fval a + fval b)\<bar> < fl_limit f" using assms(3,4) by linarith
  from fl_add_val [OF _ _ this] show ?thesis
    using assms(1,2) lo hi by (simp add: fl_in_def)
qed

lemma fl_mul_in:
  assumes "fl_in a1 a2 a" and "fl_in b1 b2 b" and "0 \<le> a1" and "0 \<le> b1"
    and "rnd f (a2 * b2) < fl_limit f"
  shows "fl_in (rnd f (a1 * b1)) (rnd f (a2 * b2)) (fl_mul f a b)"
proof -
  have lo: "rnd f (a1 * b1) \<le> rnd f (fval a * fval b)"
    and hi: "rnd f (fval a * fval b) \<le> rnd f (a2 * b2)"
    using assms(1-4) by (auto simp: fl_in_def intro!: rnd_mono mult_mono)
  moreover have "0 \<le> rnd f (a1 * b1)" using assms(3,4) by (intro rnd_nonneg) simp
  ultimately have "\<bar>rnd f (fval a * fval b)\<bar> < fl_limit f" using assms(5) by linarith
  from fl_mul_val [OF _ _ this] show ?thesis
    using assms(1,2) lo hi by (simp add: fl_in_def)
qed

lemma fl_div_in:
  assumes "fl_in a1 a2 a" and "0 \<le> a1" and "fl_finite b" and "0 < fval b"
    and "rnd f (a2 / fval b) < fl_limit f"
  shows "fl_in (rnd f (a1 / fval b)) (rnd f (a2 / fval b)) (fl_div f a b)"
proof -
  have lo: "rnd f (a1 / fval b) \<le> rnd f (fval a / fval b)"
    and hi: "rnd f (fval a / fval b) \<le> rnd f (a2 / fval b)"
    using assms(1,4) by (auto simp: fl_in_def intro!: rnd_mono divide_right_mono)
  moreover have "0 \<le> rnd f (a1 / fval b)" using assms(2,4) by (intro rnd_nonneg) simp
  ultimately have "\<bar>rnd f (fval a / fval b)\<bar> < fl_limit f" using assms(5) by linarith
  from fl_div_val [OF _ _ _ this] show ?thesis
    using assms(1,3,4) lo hi by (simp add: fl_in_def)
qed

lemma to_fl_alt:
  "to_fl f q = (let r = rnd f q
     in if r = 0 then fl_zero (q < 0) else if fl_limit f \<le> r then FInf False
        else if r \<le> - fl_limit f then FInf True else FFin r)"
  using rnd_pos_iff [of f q] fl_limit_pos [of f]
  by (auto simp: to_fl_def Let_def simp del: fl_limit_pos)

lemma to_fl_mono: "q \<le> r \<Longrightarrow> fl_le (to_fl f q) (to_fl f r)"
  using rnd_mono [of q r f] fl_limit_pos [of f]
  by (auto simp: to_fl_alt Let_def fl_le_def fl_zero_def simp del: fl_limit_pos)

lemma to_fl_not_NaN: "to_fl f q \<noteq> FNaN"
  by (auto simp: to_fl_def Let_def fl_zero_def)

lemma to_fl_ge_0: "0 \<le> q \<Longrightarrow> fl_le (FFin 0) (to_fl f q)"
  using to_fl_mono [of 0 q] by (simp add: to_fl_def fl_zero_def)

lemma to_fl_le_0: "q \<le> 0 \<Longrightarrow> fl_le (to_fl f q) (FFin 0)"
  using to_fl_mono [of q 0] by (simp add: to_fl_def fl_zero_def)

lemma fl_div_cmp:
  assumes "fl_finite a" and "fl_finite c" and "fval c \<noteq> 0"
  shows "fl_le (fl_div f a c) y = fl_le (to_fl f (fval a / fval c)) y"
    and "fl_le y (fl_div f a c) = fl_le y (to_fl f (fval a / fval c))"
  using assms by (cases "fval a = 0"; auto simp: fl_div_def Let_def fl_le_zero)+

lemma fl_mul_cmp:
  assumes "fl_finite a" and "fl_finite c"
  shows "fl_le (fl_mul f a c) y = fl_le (to_fl f (fval a * fval c)) y"
    and "fl_le y (fl_mul f a c) = fl_le y (to_fl f (fval a * fval c))"
  using assms by (cases "fval a * fval c = 0"; auto simp: fl_mul_def Let_def fl_le_zero)+

lemma fl_mul_not_NaN:
  assumes "a \<noteq> FNaN" and "fl_finite c" and "0 < fval c"
  shows "fl_mul f a c \<noteq> FNaN"
  using assms by (auto simp: fl_mul_def Let_def to_fl_not_NaN fl_zero_def)

lemma fl_div_not_NaN:
  assumes "fl_finite a" and "fl_finite c" and "fval c \<noteq> 0"
  shows "fl_div f a c \<noteq> FNaN"
  using assms by (auto simp: fl_div_def Let_def to_fl_not_NaN fl_zero_def)

lemma fl_div_pos_mono:
  assumes "fl_finite a" and "fl_finite b" and "fval a \<le> fval b" and "fl_finite c" and "0 < fval c"
  shows "fl_le (fl_div f a c) (fl_div f b c)"
  using assms fl_div_cmp [of b c] fl_div_cmp [of a c]
  by (simp add: to_fl_mono divide_right_mono)

lemma fl_mul_pos_mono:
  assumes "fl_le a b" and "fl_finite c" and "0 < fval c"
  shows "fl_le (fl_mul f a c) (fl_mul f b c)"
proof (cases "fl_finite a \<and> fl_finite b")
  case True
  with assms show ?thesis
    using fl_mul_cmp [of b c] fl_mul_cmp [of a c]
    by (simp add: fl_le_finite to_fl_mono mult_right_mono)
next
  case False
  have c: "\<not> fl_sign c" "c \<noteq> FNaN" using assms(2,3) by (cases c; simp)+
  show ?thesis
    using False assms c fl_mul_not_NaN [of a c] fl_mul_not_NaN [of b c]
    by (cases a; cases b) (auto simp: fl_mul_def Let_def fl_le_def)
qed

lemma fl_conv_in:
  assumes "fl_in lo hi a" and "- fl_limit f < rnd f lo" and "rnd f hi < fl_limit f"
  shows "fl_in (rnd f lo) (rnd f hi) (fl_conv f a)"
proof -
  have "rnd f lo \<le> rnd f (fval a)" "rnd f (fval a) \<le> rnd f hi"
    using assms(1) by (auto simp: fl_in_def intro: rnd_mono)
  then show ?thesis
    using assms to_fl_in [of "rnd f lo" "fval a" "rnd f hi"]
    by (cases a) (auto simp: fl_conv_def fl_in_def)
qed

end

interpretation b32: fl_format binary32
  by unfold_locales (simp_all add: binary32_def)

interpretation b64: fl_format binary64
  by unfold_locales (simp_all add: binary64_def)

end
