(* ===== verification/Platform.thy ===== *)
theory Platform
  imports Ieee_Float
begin

text \<open>
  The boundary between the firmware and the code it is linked with (the Arduino core,
  FreeRTOS, the WiFi, MQTT, OTA, web server and display libraries). That code is not part of
  the repository. A call whose effect leaves the program is an event of the log, with the
  arguments the source passes; the values such calls return (\<^verbatim>\<open>millis()\<close>, \<^verbatim>\<open>WiFi.status()\<close>, pin
  and ADC readings, connection states) are arguments of the handlers that make the call, one
  per call site.

  The constants are those of \<^verbatim>\<open>InternalConfig.h\<close>. \<open>Undefined\<close> marks the points where C++
  gives the source no meaning: the log keeps it, so that a theorem can say that a run never
  reaches such a point, or that it does.
\<close>

subsection \<open>InternalConfig.h\<close>

definition VERSION :: string where "VERSION = ''1.5.0''"
definition BLINK_INTERVAL :: millis_t where "BLINK_INTERVAL = 250"
definition SCAN_INTERVAL :: millis_t where "SCAN_INTERVAL = 1000"
definition DISPLAY_INTERVAL :: millis_t where "DISPLAY_INTERVAL = 1000"
definition MQTT_INTERVAL :: millis_t where "MQTT_INTERVAL = 1000"
definition AUTO_INTERVAL :: millis_t where "AUTO_INTERVAL = 1000"
definition SCREEN_ADDRESS :: nat where "SCREEN_ADDRESS = 61"
definition EMA_ALPHA :: fl where "EMA_ALPHA = to_fl binary64 (3 / 10)"
definition LED_PIN :: nat where "LED_PIN = 2"
definition RELAIS_CH1 :: nat where "RELAIS_CH1 = 0"
definition RELAIS_CH2 :: nat where "RELAIS_CH2 = 1"
definition SENSE :: nat where "SENSE = 3"
definition RESET :: nat where "RESET = 6"
definition PUMP_FILL :: int8_t where "PUMP_FILL = 1"
definition PUMP_EMPTY :: int8_t where "PUMP_EMPTY = 2"
definition UPDATE_SERVER :: string where
  "UPDATE_SERVER = ''https://space.byte-store.de/external/waterlevel/versions.json''"

lemmas config_defs = VERSION_def BLINK_INTERVAL_def SCAN_INTERVAL_def DISPLAY_INTERVAL_def
  MQTT_INTERVAL_def AUTO_INTERVAL_def SCREEN_ADDRESS_def LED_PIN_def RELAIS_CH1_def
  RELAIS_CH2_def SENSE_def RESET_def PUMP_FILL_def PUMP_EMPTY_def UPDATE_SERVER_def

subsection \<open>Events\<close>

text \<open>
  A formatted value: \<open>Text\<close> a string, \<open>Dec\<close> a decimal \<^verbatim>\<open>int\<close>, \<open>Udec\<close> a
  decimal \<^verbatim>\<open>unsigned int\<close>, \<open>Fixed x n\<close> the conversion of a
  \<^verbatim>\<open>float\<close> with \<open>n\<close> decimals (\<^verbatim>\<open>String(x, n)\<close>, \<^verbatim>\<open>print(x, n)\<close>), \<open>Flag\<close> a \<^verbatim>\<open>bool\<close>. The
  conversions themselves belong to the Arduino core.
\<close>

datatype payload = Text string | Dec cint | Udec "32 word" | Fixed fl nat | Flag bool

datatype fault = UninitialisedPin | SignedOverflow | DivisionByZero

datatype pin_mode = INPUT | OUTPUT

datatype wifi_mode = WIFI_MODE_STA | WIFI_MODE_AP | WIFI_MODE_APSTA

datatype display_op =
    ClearDisplay
  | SetCursor nat nat
  | DPrint payload
  | DPrintln payload
  | DrawLine nat nat nat nat nat
  | DrawRect nat nat nat nat nat
  | FillRect nat nat nat nat nat
  | ShowDisplay
  | BeginDisplay nat
  | SetContrast
  | Ssd1306Command "8 word"

datatype wifi_op =
    SetAutoReconnect bool
  | Hostname string
  | WifiMode wifi_mode
  | BeginSta string string
  | WaitForConnectResult nat
  | Reconnect
  | SoftAPConfig "nat list" "nat list" "nat list"
  | SoftAP string string bool
  | SoftAPdisconnect bool

datatype mqtt_op =
    SetWill string nat bool string
  | SetServer string cint
  | SetKeepAlive nat
  | SetClientId string
  | SetCredentials string string
  | OnConnect
  | OnDisconnect
  | MqttConnect
  | Publish string nat bool payload

datatype http_op =
    Send nat string string
  | SendFile string string
  | RequestAuthentication
  | OnRoot
  | OnNotFound
  | AddApiHandler string
  | ServerBegin

datatype ota_op =
    OtaHostname string
  | MdnsEnabled bool
  | RebootOnSuccess bool
  | OtaPassword string
  | OtaCallbacks
  | OtaBegin
  | OtaHandle
  | SetManifestURL string
  | PullHandle
  | ExecHTTPcheck
  | ExecOTA

text \<open>The plugins of the Matter library are numbered as the relays they stand for.\<close>

datatype matter_op =
    PluginBegin nat
  | PluginOnChange nat
  | MatterBegin
  | UpdateAccessory nat

datatype event =
    PowerOn
  | SerialBegin nat
  | SerialDebugOutput bool
  | SerialOut "payload list"
  | DigitalWrite nat bool
  | PinMode nat pin_mode
  | AnalogReadResolution nat
  | AnalogSetPinAttenuation nat
  | DelayMs nat
  | TaskCreate
  | TaskDelete
  | Restart
  | Undefined fault
  | Display display_op
  | Wifi wifi_op
  | Mqtt mqtt_op
  | Http http_op
  | Ota ota_op
  | Matter matter_op

record hw =
  evlog :: "event list"

definition emit :: "event \<Rightarrow> 'z hw_scheme \<Rightarrow> 'z hw_scheme" where
  "emit e s = s\<lparr>evlog := evlog s @ [e]\<rparr>"

definition emits :: "event list \<Rightarrow> 'z hw_scheme \<Rightarrow> 'z hw_scheme" where
  "emits es s = s\<lparr>evlog := evlog s @ es\<rparr>"

text \<open>
  The level of an output pin after a log: the last value written since power-on, low when
  nothing has been written. \<open>undefined_free\<close>: no point of the log is undefined behaviour.
\<close>

fun pin_after :: "nat \<Rightarrow> bool \<Rightarrow> event list \<Rightarrow> bool" where
  "pin_after p b [] = b"
| "pin_after p b (DigitalWrite q v # es) = pin_after p (if q = p then v else b) es"
| "pin_after p b (PowerOn # es) = pin_after p False es"
| "pin_after p b (_ # es) = pin_after p b es"

definition pin_level :: "nat \<Rightarrow> 'z hw_scheme \<Rightarrow> bool" where
  "pin_level p s = pin_after p False (evlog s)"

fun is_undefined :: "event \<Rightarrow> bool" where
  "is_undefined (Undefined _) = True"
| "is_undefined _ = False"

definition undefined_free :: "event list \<Rightarrow> bool" where
  "undefined_free es = (\<not> list_ex is_undefined es)"

lemma pin_after_append: "pin_after p b (xs @ ys) = pin_after p (pin_after p b xs) ys"
  by (induction p b xs rule: pin_after.induct) auto

lemma undefined_free_append [simp]:
  "undefined_free (xs @ ys) = (undefined_free xs \<and> undefined_free ys)"
  by (simp add: undefined_free_def)

lemma undefined_free_simps [simp]:
  "undefined_free []"
  "undefined_free (e # es) = (\<not> is_undefined e \<and> undefined_free es)"
  by (auto simp: undefined_free_def)

lemma evlog_emit [simp]: "evlog (emit e s) = evlog s @ [e]"
  by (simp add: emit_def)

lemma evlog_emits [simp]: "evlog (emits es s) = evlog s @ es"
  by (simp add: emits_def)

lemma pin_level_emit:
  "pin_level p (emit e s) = pin_after p (pin_level p s) [e]"
  by (simp add: pin_level_def pin_after_append)

lemma pin_level_emits:
  "pin_level p (emits es s) = pin_after p (pin_level p s) es"
  by (simp add: pin_level_def pin_after_append)

end
