(* ===== verification/Json_Lib.thy ===== *)
theory Json_Lib
  imports Platform
begin

text \<open>
  ArduinoJson is a library the firmware only calls. A JSON document has an unspecified type
  \<open>'j\<close>, and the operations the sources use form a record of functions that every definition
  touching JSON takes as its argument \<open>J\<close>. What a theorem needs of the library is one of the
  predicates below, each stating behaviour the library documents:

  \<^item> \<open>json_tree\<close>: reading a member after assigning it, the members of a cleared object, the
    test for an object, the keys an iteration visits;
  \<^item> \<open>json_grows\<close>: a member assigned to an empty document turns it into an object;
  \<^item> \<open>json_finite\<close>: nested objects are strictly smaller than the object that holds them;
  \<^item> \<open>json_reads_back\<close>: a serialised document followed by the line end that \<^verbatim>\<open>println\<close>
    writes parses to the document again;
  \<^item> \<open>json_blank\<close>: text without content (a line end, or a part of it) is an error and leaves the null document;
  \<^item> \<open>json_null_reads\<close>: members of the null document are null, and null reads as false and 0.

  \<open>j_parse\<close> returns the error text of a failed \<^verbatim>\<open>deserializeJson\<close>, if any, with the document it
  leaves behind.

  A small instance is used where a theorem is applied to a concrete
  input.
\<close>

record 'j json_lib =
  j_null :: 'j
  j_get :: "'j \<Rightarrow> string \<Rightarrow> 'j"
  j_put :: "'j \<Rightarrow> string \<Rightarrow> 'j \<Rightarrow> 'j"
  j_contains :: "'j \<Rightarrow> string \<Rightarrow> bool"
  j_keys :: "'j \<Rightarrow> string list"
  j_toObject :: "'j \<Rightarrow> 'j"
  j_createNested :: "'j \<Rightarrow> string \<Rightarrow> 'j"
  j_isNull :: "'j \<Rightarrow> bool"
  j_isInt :: "'j \<Rightarrow> bool"
  j_isBool :: "'j \<Rightarrow> bool"
  j_isString :: "'j \<Rightarrow> bool"
  j_isObject :: "'j \<Rightarrow> bool"
  j_asInt :: "'j \<Rightarrow> cint"
  j_asU8 :: "'j \<Rightarrow> 8 word"
  j_asBool :: "'j \<Rightarrow> bool"
  j_asFloat :: "'j \<Rightarrow> fl"
  j_asString :: "'j \<Rightarrow> string"
  j_asCStr :: "'j \<Rightarrow> string option"
  j_ofBool :: "bool \<Rightarrow> 'j"
  j_ofText :: "string \<Rightarrow> 'j"
  j_ofFloat :: "fl \<Rightarrow> 'j"
  j_ofU32 :: "32 word \<Rightarrow> 'j"
  j_ofList :: "'j list \<Rightarrow> 'j"
  j_parse :: "string \<Rightarrow> string option \<times> 'j"
  j_print :: "'j \<Rightarrow> string"
  j_printPretty :: "'j \<Rightarrow> string"

text \<open>\<^verbatim>\<open>doc["a"]["b"]\<close> reads a path; a missing member reads as null.\<close>

fun j_path :: "'j json_lib \<Rightarrow> 'j \<Rightarrow> string list \<Rightarrow> 'j" where
  "j_path J v [] = v"
| "j_path J v (k # ks) = j_path J (j_get J v k) ks"

definition crlf :: string where
  "crlf = [CHR 0x0D, CHR 0x0A]"

subsection \<open>What the library documents\<close>

definition json_tree :: "'j json_lib \<Rightarrow> bool" where
  "json_tree J \<longleftrightarrow>
     (\<forall>t k v. j_isObject J t \<longrightarrow> j_get J (j_put J t k v) k = v) \<and>
     (\<forall>t k k' v. j_isObject J t \<longrightarrow> k \<noteq> k' \<longrightarrow> j_get J (j_put J t k v) k' = j_get J t k') \<and>
     (\<forall>t k v. j_isObject J t \<longrightarrow> j_isObject J (j_put J t k v)) \<and>
     (\<forall>t k v. j_isObject J t \<longrightarrow>
        set (j_keys J (j_put J t k v)) = insert k (set (j_keys J t))) \<and>
     (\<forall>t k. j_isObject J t \<longrightarrow> j_contains J t k = (k \<in> set (j_keys J t))) \<and>
     (\<forall>t k. j_isObject J t \<longrightarrow> k \<notin> set (j_keys J t) \<longrightarrow> j_get J t k = j_null J) \<and>
     \<not> j_isObject J (j_null J) \<and>
     (\<forall>t. j_isObject J (j_toObject J t) \<and> j_keys J (j_toObject J t) = []) \<and>
     (\<forall>t k. j_isObject J t \<longrightarrow>
        j_createNested J t k = j_put J t k (j_toObject J (j_null J)))"

definition json_finite :: "'j json_lib \<Rightarrow> ('j \<Rightarrow> nat) \<Rightarrow> bool" where
  "json_finite J d \<longleftrightarrow>
     (\<forall>t k. j_isObject J t \<longrightarrow> j_isObject J (j_get J t k) \<longrightarrow> d (j_get J t k) < d t)"

definition json_reads_back :: "'j json_lib \<Rightarrow> 'j \<Rightarrow> bool" where
  "json_reads_back J v \<longleftrightarrow> j_parse J (j_print J v @ crlf) = (None, v)"

definition json_blank :: "'j json_lib \<Rightarrow> bool" where
  "json_blank J \<longleftrightarrow>
     (\<forall>n. \<exists>e. j_parse J (take n crlf) = (Some e, j_null J))"

definition json_null_reads :: "'j json_lib \<Rightarrow> bool" where
  "json_null_reads J \<longleftrightarrow> (\<forall>k. j_get J (j_null J) k = j_null J) \<and> \<not> j_asBool J (j_null J) \<and>
     j_asInt J (j_null J) = 0"

lemma json_treeD:
  assumes "json_tree J"
  shows "j_isObject J t \<Longrightarrow> j_get J (j_put J t k v) k = v"
    and "j_isObject J t \<Longrightarrow> k \<noteq> k' \<Longrightarrow> j_get J (j_put J t k v) k' = j_get J t k'"
    and "j_isObject J t \<Longrightarrow> j_isObject J (j_put J t k v)"
    and "j_isObject J t \<Longrightarrow> set (j_keys J (j_put J t k v)) = insert k (set (j_keys J t))"
    and "j_isObject J t \<Longrightarrow> j_contains J t k = (k \<in> set (j_keys J t))"
    and "j_isObject J t \<Longrightarrow> k \<notin> set (j_keys J t) \<Longrightarrow> j_get J t k = j_null J"
    and "\<not> j_isObject J (j_null J)"
    and "j_isObject J (j_toObject J t)"
    and "j_keys J (j_toObject J t) = []"
    and "j_isObject J t \<Longrightarrow> j_createNested J t k = j_put J t k (j_toObject J (j_null J))"
  using assms by (simp_all add: json_tree_def)

subsection \<open>A small instance\<close>

datatype jv = JNull | JBool bool | JInt cint | JFloat fl | JText string
  | JList "jv list" | JObj "(string \<times> jv) list"

fun jv_get :: "jv \<Rightarrow> string \<Rightarrow> jv" where
  "jv_get (JObj m) k = (case map_of m k of None \<Rightarrow> JNull | Some v \<Rightarrow> v)"
| "jv_get _ k = JNull"

fun jv_upd :: "string \<Rightarrow> jv \<Rightarrow> (string \<times> jv) list \<Rightarrow> (string \<times> jv) list" where
  "jv_upd k v [] = [(k, v)]"
| "jv_upd k v ((k', w) # m) = (if k = k' then (k, v) # m else (k', w) # jv_upd k v m)"

fun jv_put :: "jv \<Rightarrow> string \<Rightarrow> jv \<Rightarrow> jv" where
  "jv_put (JObj m) k v = JObj (jv_upd k v m)"
| "jv_put JNull k v = JObj [(k, v)]"
| "jv_put w k v = w"

fun jv_keys :: "jv \<Rightarrow> string list" where
  "jv_keys (JObj m) = map fst m"
| "jv_keys _ = []"

fun jv_int :: "jv \<Rightarrow> cint" where
  "jv_int (JInt n) = n"
| "jv_int _ = 0"

fun jv_text :: "jv \<Rightarrow> string" where
  "jv_text (JText s) = s"
| "jv_text _ = ''null''"

fun jv_float :: "jv \<Rightarrow> fl" where
  "jv_float (JFloat x) = x"
| "jv_float _ = FFin 0"

definition jv_lib :: "string \<Rightarrow> jv \<Rightarrow> jv json_lib" where
  "jv_lib src doc = \<lparr>
     j_null = JNull, j_get = jv_get, j_put = jv_put,
     j_contains = (\<lambda>v k. k \<in> set (jv_keys v)), j_keys = jv_keys,
     j_toObject = (\<lambda>_. JObj []), j_createNested = (\<lambda>v k. jv_put v k (JObj [])),
     j_isNull = (\<lambda>v. v = JNull),
     j_isInt = (\<lambda>v. case v of JInt _ \<Rightarrow> True | _ \<Rightarrow> False),
     j_isBool = (\<lambda>v. case v of JBool _ \<Rightarrow> True | _ \<Rightarrow> False),
     j_isString = (\<lambda>v. case v of JText _ \<Rightarrow> True | _ \<Rightarrow> False),
     j_isObject = (\<lambda>v. case v of JObj _ \<Rightarrow> True | _ \<Rightarrow> False),
     j_asInt = jv_int, j_asU8 = (\<lambda>v. ucast (jv_int v)),
     j_asBool = (\<lambda>v. v = JBool True), j_asFloat = jv_float, j_asString = jv_text,
     j_asCStr = (\<lambda>v. case v of JText s \<Rightarrow> Some s | _ \<Rightarrow> None),
     j_ofBool = JBool, j_ofText = JText, j_ofFloat = JFloat, j_ofU32 = JInt, j_ofList = JList,
     j_parse = (\<lambda>s. if s = src @ crlf \<or> s = src then (None, doc) else (Some ''InvalidInput'', JNull)),
     j_print = (\<lambda>v. if v = doc then src else ''''), j_printPretty = (\<lambda>v. if v = doc then src else '''')\<rparr>"

fun jv_depth :: "jv \<Rightarrow> nat" where
  "jv_depth v = size v"

lemma jv_get_upd: "jv_get (JObj (jv_upd k v m)) k' = (if k = k' then v else jv_get (JObj m) k')"
  by (induction m) auto

lemma jv_keys_upd: "set (map fst (jv_upd k v m)) = insert k (set (map fst m))"
  by (induction k v m rule: jv_upd.induct) (simp_all add: insert_commute)

lemma jv_get_missing: "k \<notin> set (map fst m) \<Longrightarrow> jv_get (JObj m) k = JNull"
  by (simp add: map_of_eq_None_iff [THEN iffD2] image_image)

lemma json_tree_jv: "json_tree (jv_lib src doc)"
  unfolding json_tree_def jv_lib_def
  using jv_get_upd jv_keys_upd jv_get_missing by (auto split: jv.splits)

lemma jv_size_member: "map_of m k = Some v \<Longrightarrow> size v < size (JObj m)"
proof (induction m)
  case (Cons a m)
  then show ?case by (cases a) (auto split: if_splits)
qed simp

lemma json_finite_jv: "json_finite (jv_lib src doc) jv_depth"
  using jv_size_member
  by (fastforce simp: json_finite_def jv_lib_def split: jv.splits option.splits)

subsection \<open>Building a document member by member\<close>

text \<open>A member assigned to an empty document turns it into an object.\<close>

definition json_grows :: "'j json_lib \<Rightarrow> bool" where
  "json_grows J \<longleftrightarrow> (\<forall>k v. j_put J (j_null J) k v = j_put J (j_toObject J (j_null J)) k v)"

definition j_members :: "'j json_lib \<Rightarrow> (string \<times> 'j) list \<Rightarrow> 'j \<Rightarrow> 'j" where
  "j_members J xs doc = fold (\<lambda>(k, v) doc. j_put J doc k v) xs doc"

lemma j_members_get:
  assumes "json_tree J" and "j_isObject J doc"
  shows "j_get J (j_members J xs doc) k =
    (case map_of (rev xs) k of None \<Rightarrow> j_get J doc k | Some v \<Rightarrow> v)"
  using assms(2)
proof (induction xs arbitrary: doc)
  case (Cons x xs)
  obtain k' v where x: "x = (k', v)" by (cases x)
  have "j_isObject J (j_put J doc k' v)" using json_treeD(3) [OF assms(1) Cons.prems] .
  from Cons.IH [OF this] show ?case
    using json_treeD(1,2) [OF assms(1) Cons.prems]
    by (auto simp: j_members_def x map_add_def split: option.splits)
qed (simp add: j_members_def)

lemma j_members_null:
  assumes "json_tree J" and "json_grows J" and "distinct (map fst xs)" and "(k, v) \<in> set xs"
  shows "j_get J (j_members J xs (j_null J)) k = v"
proof -
  obtain x ys where xs: "xs = x # ys" using assms(4) by (cases xs) auto
  have "j_members J xs (j_null J) = j_members J xs (j_toObject J (j_null J))"
    using assms(2) by (simp add: xs j_members_def json_grows_def case_prod_unfold)
  moreover have "map_of (rev xs) k = Some v" using assms(3,4) by (simp add: rev_map [symmetric])
  ultimately show ?thesis using j_members_get [OF assms(1) json_treeD(8) [OF assms(1), of "j_null J"], of xs k] by simp
qed

lemma json_grows_jv: "json_grows (jv_lib src doc)"
  by (simp add: json_grows_def jv_lib_def)

end
