(* ===== verification/File_Handler.thy ===== *)
theory File_Handler
  imports Json_Lib
begin

text \<open>
  \<^verbatim>\<open>src/FileHandler.cpp\<close>: the configuration file on LittleFS and the configuration document in
  memory. The file system is a map from paths to contents; \<open>mounted\<close> says whether
  \<^verbatim>\<open>LittleFS.begin(true)\<close> succeeded, and without it every open fails. With the argument \<^verbatim>\<open>true\<close> the
  call formats a storage that it cannot mount: \<open>mount_result\<close> has its three outcomes. \<open>config\<close> is the static member
  \<^verbatim>\<open>FileHandler::config\<close>.

  \<^verbatim>\<open>mergeJsonObjects\<close> recurses into nested objects, so its model takes the recursion depth it
  may use as fuel and returns \<open>None\<close> when that is not enough; \<open>merge_terminates\<close> shows that
  the nesting depth of the source document is enough.

  The locale \<open>text_store\<close> is the contract of a store of text files: a read after a write. It
  is interpreted for \<open>readFile\<close> and a \<open>saveFile\<close> that stores all it is given, and the facts on copies, on the factory
  reset and on the configuration round trip rest on it.
\<close>

record 'j file_state = hw +
  mounted :: bool
  fs :: "string \<rightharpoonup> string"
  config :: 'j

datatype mount_result = Mounted | Formatted | MountFailed

definition FileHandler_begin ::
  "mount_result \<Rightarrow> ('j, 'z) file_state_scheme \<Rightarrow> ('j, 'z) file_state_scheme" where
  "FileHandler_begin result s =
     (if result = MountFailed
      then emit (SerialOut [Text ''LittleFS failed to mount'']) (s\<lparr>mounted := False\<rparr>)
      else emit (SerialOut [Text ''LittleFS mounted''])
             (s\<lparr>mounted := True, fs := (if result = Formatted then Map.empty else fs s)\<rparr>))"

definition fs_exists :: "('j, 'z) file_state_scheme \<Rightarrow> string \<Rightarrow> bool" where
  "fs_exists s path = (mounted s \<and> fs s path \<noteq> None)"

definition fs_open :: "('j, 'z) file_state_scheme \<Rightarrow> string \<Rightarrow> string option" where
  "fs_open s path = (if mounted s then fs s path else None)"

definition readFile ::
  "string \<Rightarrow> ('j, 'z) file_state_scheme \<Rightarrow> string \<times> ('j, 'z) file_state_scheme" where
  "readFile path s = (case fs_open s path of
     None \<Rightarrow> ('''', emit (SerialOut [Text ''Failed to open file'']) s)
   | Some content \<Rightarrow> (content, s))"

text \<open>
  The outcomes of writing a file on a mounted storage: everything is stored, only the first bytes
  are (the storage is full), or the file cannot be opened for writing. The source looks at none of
  the results of \<^verbatim>\<open>open\<close>, \<^verbatim>\<open>println\<close> and \<^verbatim>\<open>close\<close> in \<^verbatim>\<open>saveFile\<close>.
\<close>

datatype write_result = WriteAll | WriteShort nat | OpenFails

definition written :: "write_result \<Rightarrow> string \<Rightarrow> string" where
  "written r content = (case r of WriteShort n \<Rightarrow> take n content | _ \<Rightarrow> content)"

definition saveFile ::
  "write_result \<Rightarrow> string \<Rightarrow> string \<Rightarrow> ('j, 'z) file_state_scheme \<Rightarrow> ('j, 'z) file_state_scheme" where
  "saveFile r path str s =
     (if mounted s \<and> r \<noteq> OpenFails then s\<lparr>fs := (fs s)(path \<mapsto> written r (str @ crlf))\<rparr> else s)"

definition copyFile ::
  "write_result \<Rightarrow> string \<Rightarrow> string \<Rightarrow> ('j, 'z) file_state_scheme \<Rightarrow> bool \<times> ('j, 'z) file_state_scheme" where
  "copyFile r source destination s =
     (let (content, s1) = readFile source s;
          s2 = saveFile r destination content s1
      in (True, emit (SerialOut [Text ''File successfully created.'']) s2))"

definition FileHandler_reset ::
  "write_result \<Rightarrow> ('j, 'z) file_state_scheme \<Rightarrow> ('j, 'z) file_state_scheme" where
  "FileHandler_reset r s = snd (copyFile r ''/config.json.bak'' ''/config.json'' s)"

definition loadConfig ::
  "'j json_lib \<Rightarrow> write_result \<Rightarrow> ('j, 'z) file_state_scheme \<Rightarrow> 'j \<times> ('j, 'z) file_state_scheme" where
  "loadConfig J r s =
     (let s1 = (if \<not> fs_exists s ''/config.json''
                then snd (copyFile r ''/config.json.bak'' ''/config.json'' s) else s);
          (content, s2) = readFile ''/config.json'' s1;
          s3 = s2\<lparr>config := snd (j_parse J content)\<rparr>
      in (config s3, s3))"

definition getConfig :: "('j, 'z) file_state_scheme \<Rightarrow> 'j" where
  "getConfig s = config s"

definition saveConfig ::
  "'j \<Rightarrow> ('j, 'z) file_state_scheme \<Rightarrow> ('j, 'z) file_state_scheme" where
  "saveConfig object s = s\<lparr>config := object\<rparr>"

text \<open>
  \<^verbatim>\<open>target[k] = target.to<JsonObject>().createNestedObject(k)\<close>: \<^verbatim>\<open>to<JsonObject>()\<close> replaces the
  whole target by an empty object, the nested object is created in it, and the assignment
  stores that nested object under its own key.
\<close>

definition mergeAddObject :: "'j json_lib \<Rightarrow> 'j \<Rightarrow> string \<Rightarrow> 'j" where
  "mergeAddObject J target k =
     (let t = j_createNested J (j_toObject J target) k in j_put J t k (j_get J t k))"

primrec mergeLoop ::
  "('j \<Rightarrow> 'j \<Rightarrow> 'j option) \<Rightarrow> 'j json_lib \<Rightarrow> 'j \<Rightarrow> string list \<Rightarrow> 'j \<Rightarrow> 'j option" where
  "mergeLoop rec J source [] target = Some target"
| "mergeLoop rec J source (k # ks) target =
     (if j_isObject J (j_get J source k)
      then (let t = (if \<not> j_isObject J (j_get J target k)
                     then mergeAddObject J target k else target)
            in case rec (j_get J t k) (j_get J source k) of
                 None \<Rightarrow> None
               | Some m \<Rightarrow> mergeLoop rec J source ks (j_put J t k m))
      else (let t = (if \<not> j_contains J target k
                     then j_put J target k (j_get J source k) else target)
            in mergeLoop rec J source ks t))"

fun mergeJsonObjects :: "'j json_lib \<Rightarrow> nat \<Rightarrow> 'j \<Rightarrow> 'j \<Rightarrow> 'j option" where
  "mergeJsonObjects J 0 target source = None"
| "mergeJsonObjects J (Suc fuel) target source =
     (if \<not> j_isObject J source then Some target
      else mergeLoop (mergeJsonObjects J fuel) J source (j_keys J source) target)"

definition mergeConfigFromBackup ::
  "'j json_lib \<Rightarrow> nat \<Rightarrow> write_result \<Rightarrow> string \<Rightarrow> string \<Rightarrow> ('j, 'z) file_state_scheme \<Rightarrow>
     (bool \<times> ('j, 'z) file_state_scheme) option" where
  "mergeConfigFromBackup J fuel r configPath backupPath s =
     (case fs_open s backupPath of
        None \<Rightarrow> Some (False, emit (SerialOut [Text ''F404'']) s)
      | Some backup \<Rightarrow>
          (case j_parse J backup of
             (Some e, _) \<Rightarrow> Some (False, emit (SerialOut [Text ''B500'', Text e]) s)
           | (None, backupDoc) \<Rightarrow>
               (let (configDoc, s1) =
                      (case fs_open s configPath of
                         None \<Rightarrow> (j_null J, s)
                       | Some c \<Rightarrow>
                           (case j_parse J c of
                              (Some e, _) \<Rightarrow>
                                (j_null J, emit (SerialOut [Text ''P500 '', Text e]) s)
                            | (None, d) \<Rightarrow> (d, s)))
                in case mergeJsonObjects J fuel configDoc backupDoc of
                     None \<Rightarrow> None
                   | Some merged \<Rightarrow>
                       (if \<not> mounted s1 \<or> r = OpenFails
                        then Some (False, emit (SerialOut [Text ''W500'']) s1)
                        else Some (True, emit (SerialOut [Text ''WOK''])
                               (s1\<lparr>fs := (fs s1)(configPath \<mapsto> written r (j_printPretty J merged))\<rparr>))))))"

text \<open>The sections of the source (its nested objects) all exist in the target.\<close>

fun sections_present :: "'j json_lib \<Rightarrow> nat \<Rightarrow> 'j \<Rightarrow> 'j \<Rightarrow> bool" where
  "sections_present J 0 target source = True"
| "sections_present J (Suc n) target source =
     (j_isObject J target \<and>
      (j_isObject J source \<longrightarrow>
        list_all (\<lambda>k. j_isObject J (j_get J source k) \<longrightarrow>
                      j_isObject J (j_get J target k) \<and>
                      sections_present J n (j_get J target k) (j_get J source k))
                 (j_keys J source)))"

text \<open>
  The specification of a merge, key by key: a section is merged recursively, an existing key
  keeps its value, a missing key takes the value of the source.
\<close>

definition merged_at ::
  "('j \<Rightarrow> 'j \<Rightarrow> 'j option) \<Rightarrow> 'j json_lib \<Rightarrow> 'j \<Rightarrow> 'j \<Rightarrow> string \<Rightarrow> 'j \<Rightarrow> bool" where
  "merged_at rec J source target k v =
     (if j_isObject J (j_get J source k)
      then rec (j_get J target k) (j_get J source k) = Some v
      else if k \<in> set (j_keys J target) then v = j_get J target k else v = j_get J source k)"

subsection \<open>A store of text files\<close>

locale text_store =
  fixes rd :: "string \<Rightarrow> 's \<Rightarrow> string"
    and wr :: "string \<Rightarrow> string \<Rightarrow> 's \<Rightarrow> 's"
    and ok :: "'s \<Rightarrow> bool"
  assumes rd_wr: "ok s \<Longrightarrow> rd p (wr p c s) = c @ crlf"
    and rd_wr_other: "p \<noteq> q \<Longrightarrow> rd p (wr q c s) = rd p s"
    and ok_wr: "ok (wr p c s) = ok s"
begin

lemma copy_content: "ok s \<Longrightarrow> rd q (wr q (rd p s) s) = rd p s @ crlf"
  by (rule rd_wr)

lemma copy_keeps_source: "p \<noteq> q \<Longrightarrow> rd p (wr q (rd p s) s) = rd p s"
  by (rule rd_wr_other)

lemma copy_again:
  assumes "ok s" and "p \<noteq> q"
  shows "rd q (wr q (rd p (wr q c s)) (wr q c s)) = rd p s @ crlf"
  using assms by (simp add: rd_wr rd_wr_other ok_wr)

lemma rd_writes_other:
  "list_all (\<lambda>(q, c). p \<noteq> q) ws \<Longrightarrow> rd p (fold (\<lambda>(q, c). wr q c) ws s) = rd p s"
  by (induction ws arbitrary: s) (auto simp: rd_wr_other)

lemma ok_writes: "ok (fold (\<lambda>(q, c). wr q c) ws s) = ok s"
  by (induction ws arbitrary: s) (simp_all add: ok_wr case_prod_unfold)

lemma rd_last_write:
  assumes "ok s" and "list_all (\<lambda>(q, c). p \<noteq> q) ws"
  shows "rd p (fold (\<lambda>(q, c). wr q c) ((p, c) # ws) s) = c @ crlf"
  using assms by (simp add: rd_writes_other rd_wr)

end

interpretation files: text_store
  "\<lambda>p s. fst (readFile p s)" "saveFile WriteAll" "\<lambda>s :: ('j, 'z) file_state_scheme. mounted s"
  by unfold_locales (auto simp: readFile_def saveFile_def written_def fs_open_def split: option.splits)

lemma readFile_frame [frame, simp]:
  "fs (snd (readFile p s)) = fs s" "mounted (snd (readFile p s)) = mounted s"
  "config (snd (readFile p s)) = config s"
  by (auto simp: readFile_def emit_def split: option.splits)

lemma readFile_snd_cong: "fst (readFile p (snd (readFile q s))) = fst (readFile p s)"
  by (auto simp: readFile_def fs_open_def emit_def split: option.splits)

lemma fs_emit [simp]: "fs (emit e s) = fs s" "mounted (emit e s) = mounted s"
  "config (emit e s) = config s"
  by (simp_all add: emit_def)

lemma saveFile_frame [frame, simp]:
  "mounted (saveFile r p c s) = mounted s" "config (saveFile r p c s) = config s"
  "evlog (saveFile r p c s) = evlog s"
  by (simp_all add: saveFile_def)

lemma written_simps [simp]:
  "written WriteAll c = c" "written (WriteShort n) c = take n c" "written OpenFails c = c"
  by (simp_all add: written_def)

lemma saveFile_fs: "mounted s \<Longrightarrow> fs (saveFile WriteAll p c s) = (fs s)(p \<mapsto> c @ crlf)"
  by (simp add: saveFile_def)

lemma copyFile_fs:
  "mounted s \<Longrightarrow> fs (snd (copyFile WriteAll p q s)) = (fs s)(q \<mapsto> fst (readFile p s) @ crlf)"
  by (simp add: copyFile_def Let_def case_prod_unfold saveFile_fs)

lemma copyFile_frame [frame, simp]:
  "mounted (snd (copyFile r p q s)) = mounted s" "config (snd (copyFile r p q s)) = config s"
  by (simp_all add: copyFile_def Let_def case_prod_unfold)

subsection \<open>Merging\<close>

lemma mergeLoop_total:
  assumes "\<And>t k. k \<in> set ks \<Longrightarrow> j_isObject J (j_get J source k) \<Longrightarrow>
             rec t (j_get J source k) \<noteq> None"
  shows "\<exists>r. mergeLoop rec J source ks target = Some r"
  using assms
proof (induction ks arbitrary: target)
  case (Cons k ks)
  show ?case
  proof (cases "j_isObject J (j_get J source k)")
    case True
    let ?t = "if \<not> j_isObject J (j_get J target k) then mergeAddObject J target k else target"
    obtain m where "rec (j_get J ?t k) (j_get J source k) = Some m"
      using Cons.prems [of k "j_get J ?t k"] True by auto
    then show ?thesis using Cons True by (simp add: Let_def)
  qed (use Cons in \<open>simp add: Let_def\<close>)
qed simp

lemma merge_enough_fuel:
  assumes "json_finite J d" and "d source < fuel"
  shows "mergeJsonObjects J fuel target source \<noteq> None"
  using assms(2)
proof (induction fuel arbitrary: target source)
  case (Suc fuel)
  have "mergeJsonObjects J fuel t (j_get J source k) \<noteq> None"
    if "j_isObject J source" and "j_isObject J (j_get J source k)" for t k
  proof (rule Suc.IH)
    have "d (j_get J source k) < d source" using assms(1) that by (auto simp: json_finite_def)
    with Suc.prems show "d (j_get J source k) < fuel" by simp
  qed
  with mergeLoop_total [of "j_keys J source" J source "mergeJsonObjects J fuel" target]
  show ?case by auto
qed simp

text \<open>
  One iteration, where the section exists: the key is merged and the rest of the target is
  kept. The loop over distinct keys follows by induction.
\<close>

lemma mergeLoop_step:
  assumes "json_tree J" and "j_isObject J target"
    and "j_isObject J (j_get J source k) \<Longrightarrow> j_isObject J (j_get J target k)"
    and "mergeLoop rec J source (k # ks) target = Some r"
  obtains t where "mergeLoop rec J source ks t = Some r" and "j_isObject J t"
    and "set (j_keys J t) = insert k (set (j_keys J target))"
    and "\<forall>k'. k' \<noteq> k \<longrightarrow> j_get J t k' = j_get J target k'"
    and "merged_at rec J source target k (j_get J t k)"
proof (cases "j_isObject J (j_get J source k)")
  case True
  with assms(3,4) obtain m where "rec (j_get J target k) (j_get J source k) = Some m"
    and "mergeLoop rec J source ks (j_put J target k m) = Some r"
    by (auto simp: Let_def split: option.splits)
  then show thesis using that True assms(2) json_treeD [OF assms(1)]
    by (simp add: merged_at_def)
next
  case False
  let ?t = "if \<not> j_contains J target k then j_put J target k (j_get J source k) else target"
  have "mergeLoop rec J source ks ?t = Some r" using assms(4) False by (simp add: Let_def)
  then show thesis using that False assms(2) json_treeD [OF assms(1)]
    by (cases "k \<in> set (j_keys J target)") (auto simp: insert_absorb merged_at_def)
qed

lemma mergeLoop_pointwise:
  assumes "json_tree J" and "distinct ks" and "j_isObject J target"
    and "\<And>k. k \<in> set ks \<Longrightarrow> j_isObject J (j_get J source k) \<Longrightarrow> j_isObject J (j_get J target k)"
    and "mergeLoop rec J source ks target = Some r"
  shows "j_isObject J r \<and> set (j_keys J r) = set (j_keys J target) \<union> set ks \<and>
    (\<forall>k. k \<notin> set ks \<longrightarrow> j_get J r k = j_get J target k) \<and>
    (\<forall>k \<in> set ks. merged_at rec J source target k (j_get J r k))"
  using assms(2-5)
proof (induction ks arbitrary: target)
  case (Cons k ks)
  obtain t where t: "mergeLoop rec J source ks t = Some r" and obj: "j_isObject J t"
    and keys: "set (j_keys J t) = insert k (set (j_keys J target))"
    and other: "\<forall>k'. k' \<noteq> k \<longrightarrow> j_get J t k' = j_get J target k'"
    and here: "merged_at rec J source target k (j_get J t k)"
    using mergeLoop_step [OF assms(1) Cons.prems(2) _ Cons.prems(4)] Cons.prems(3) by auto
  have sec: "j_isObject J (j_get J t k')"
    if "k' \<in> set ks" "j_isObject J (j_get J source k')" for k'
    using that Cons.prems(1,3) other by force
  have k: "k \<notin> set ks" and dist: "distinct ks" using Cons.prems(1) by auto
  note ih = Cons.IH [OF dist obj sec t]
  have "merged_at rec J source target k' (j_get J r k')" if "k' \<in> set (k # ks)" for k'
    using that ih here k other keys by (cases "k' = k") (auto simp: merged_at_def)
  then show ?case using ih keys other by auto
qed simp

lemma mergeAddObject_drops:
  assumes "json_tree J"
  shows "j_isObject J (mergeAddObject J target k)"
    and "set (j_keys J (mergeAddObject J target k)) = {k}"
  using json_treeD [OF assms] by (simp_all add: mergeAddObject_def Let_def)

lemma mergeLoop_keys:
  assumes "json_tree J" and "j_isObject J target" and "mergeLoop rec J source ks target = Some r"
  shows "set (j_keys J r) \<subseteq> set (j_keys J target) \<union> set ks"
  using assms(2,3)
proof (induction ks arbitrary: target)
  case (Cons k ks)
  note tree = json_treeD [OF assms(1)]
  obtain t where "mergeLoop rec J source ks t = Some r" and "j_isObject J t"
    and sub: "set (j_keys J t) \<subseteq> insert k (set (j_keys J target))"
  proof (cases "j_isObject J (j_get J source k)")
    case True
    let ?t = "if \<not> j_isObject J (j_get J target k) then mergeAddObject J target k else target"
    from True Cons.prems(2) obtain m where m: "mergeLoop rec J source ks (j_put J ?t k m) = Some r"
      by (auto simp: Let_def split: option.splits)
    have "j_isObject J ?t" "set (j_keys J ?t) \<subseteq> insert k (set (j_keys J target))"
      using Cons.prems(1) mergeAddObject_drops [OF assms(1), of target k] by auto
    then show thesis using that [OF m] tree(3,4) [of ?t k m] by simp
  next
    case False
    let ?t = "if \<not> j_contains J target k then j_put J target k (j_get J source k) else target"
    have "mergeLoop rec J source ks ?t = Some r" using Cons.prems(2) False by (simp add: Let_def)
    then show thesis
      by (rule that) (use Cons.prems(1) tree in auto)
  qed
  with Cons.IH [of t] have "set (j_keys J r) \<subseteq> set (j_keys J t) \<union> set ks" by simp
  with sub show ?case by auto
qed simp

text \<open>As soon as one section is missing, only keys of the source survive.\<close>

lemma mergeLoop_drops:
  assumes "json_tree J" and "distinct ks" and "j_isObject J target"
    and "k \<in> set ks" and "j_isObject J (j_get J source k)" and "\<not> j_isObject J (j_get J target k)"
    and "mergeLoop rec J source ks target = Some r"
  shows "set (j_keys J r) \<subseteq> set ks"
  using assms(2-4,6,7)
proof (induction ks arbitrary: target)
  case (Cons k0 ks)
  show ?case
  proof (cases "j_isObject J (j_get J source k0) \<and> \<not> j_isObject J (j_get J target k0)")
    case True
    let ?t = "mergeAddObject J target k0"
    note t = mergeAddObject_drops [OF assms(1), of target k0]
    from True Cons.prems(5) obtain m where m: "mergeLoop rec J source ks (j_put J ?t k0 m) = Some r"
      by (auto simp: Let_def split: option.splits)
    have "j_isObject J (j_put J ?t k0 m)" "set (j_keys J (j_put J ?t k0 m)) = {k0}"
      using t json_treeD(3,4) [OF assms(1), of ?t k0 m] by simp_all
    with mergeLoop_keys [OF assms(1) _ m] show ?thesis by simp
  next
    case False
    with Cons.prems assms(5) have k: "k \<in> set ks" "k \<noteq> k0" by auto
    have sec: "j_isObject J (j_get J source k0) \<Longrightarrow> j_isObject J (j_get J target k0)"
      using False by blast
    obtain t where "mergeLoop rec J source ks t = Some r" "j_isObject J t"
      "set (j_keys J t) = insert k0 (set (j_keys J target))"
      "\<forall>k'. k' \<noteq> k0 \<longrightarrow> j_get J t k' = j_get J target k'"
      "merged_at rec J source target k0 (j_get J t k0)"
      by (rule mergeLoop_step [OF assms(1) Cons.prems(2) sec Cons.prems(5)])
    with Cons.IH [of t] Cons.prems(1,4) k show ?thesis by auto
  qed
qed simp

subsection \<open>Properties\<close>

text \<open>Documents for concrete inputs.\<close>

definition demo_backup :: jv where
  "demo_backup = JObj [(''mqtt'', JObj [(''port'', JInt 9), (''host'', JText ''h'')])]"

definition demo_target :: jv where
  "demo_target = JObj [(''mqtt'', JObj [(''port'', JInt 1)]), (''x'', JInt 7)]"

definition demo_merged :: jv where
  "demo_merged = JObj [(''mqtt'', JObj [(''port'', JInt 1), (''host'', JText ''h'')]), (''x'', JInt 7)]"

definition demo_lib :: "jv json_lib" where
  "demo_lib = jv_lib ''{}'' demo_backup"

lemmas demo_defs = demo_backup_def demo_target_def demo_merged_def demo_lib_def

text \<open>
  A configuration that was serialised and stored with \<^verbatim>\<open>saveFile("/config.json", ...)\<close> is the
  configuration that the next \<^verbatim>\<open>loadConfig\<close> brings back into memory, whatever the file system
  held before.
\<close>
lemma config_roundtrip:
  assumes "mounted s" and "json_reads_back J v"
  shows "fst (loadConfig J r (saveFile WriteAll ''/config.json'' (j_print J v) s)) = v"
proof -
  have "fs_exists (saveFile WriteAll ''/config.json'' (j_print J v) s) ''/config.json''"
    using assms(1) by (simp add: fs_exists_def saveFile_fs)
  then show ?thesis
    using assms(2) files.rd_wr [OF assms(1), of "''/config.json''" "j_print J v"]
    by (simp add: loadConfig_def Let_def case_prod_unfold json_reads_back_def)
qed

text \<open>
  A factory reset followed by loading the configuration gives the configuration of a first
  boot on the same storage, written in full (no \<^verbatim>\<open>config.json\<close>, only the backup), also when the storage is not
  mounted; the document in memory is not touched by the reset itself.
\<close>
lemma reset_is_first_boot:
  "fst (loadConfig J r (FileHandler_reset WriteAll s)) =
     fst (loadConfig J WriteAll (s\<lparr>fs := (fs s)(''/config.json'' := None)\<rparr>)) \<and>
   config (FileHandler_reset WriteAll s) = config s"
proof (cases "mounted s")
  case True
  then show ?thesis
    by (simp add: loadConfig_def FileHandler_reset_def fs_exists_def Let_def case_prod_unfold
        readFile_def fs_open_def copyFile_fs split: option.splits)
next
  case False
  then show ?thesis
    by (simp add: loadConfig_def FileHandler_reset_def fs_exists_def Let_def case_prod_unfold
        readFile_def fs_open_def copyFile_def saveFile_def)
qed

text \<open>
  \<^verbatim>\<open>copyFile\<close> whose write succeeds stores the source's content and a line end, leaves every other file alone, and
  reports success in every case: a missing source gives a file that holds only the line end.
\<close>
lemma copyFile_effect:
  assumes "mounted s"
  shows "fst (copyFile WriteAll p q s) \<and>
    fs (snd (copyFile WriteAll p q s)) =
      (fs s)(q \<mapsto> (case fs s p of None \<Rightarrow> '''' | Some c \<Rightarrow> c) @ crlf)"
proof
  show "fst (copyFile WriteAll p q s)"
    by (simp add: copyFile_def Let_def case_prod_unfold)
  show "fs (snd (copyFile WriteAll p q s)) =
      (fs s)(q \<mapsto> (case fs s p of None \<Rightarrow> '''' | Some c \<Rightarrow> c) @ crlf)"
    using assms by (simp add: copyFile_fs readFile_def fs_open_def split: option.splits)
qed

text \<open>
  C36: \<^verbatim>\<open>mergeJsonObjects\<close> always returns: on documents of finite nesting, a recursion depth above
  the depth of the source is enough, for every target.
\<close>
theorem merge_terminates:
  assumes "json_finite J d" and "d source < fuel"
  shows "\<exists>r. mergeJsonObjects J fuel target source = Some r"
  using merge_enough_fuel [OF assms, of target] by simp

theorem merge_terminates_witness:
  "\<exists>r. mergeJsonObjects (jv_lib '''' JNull) 20 JNull
     (JObj [(''wifi'', JObj [(''ap'', JObj [])])]) = Some r"
  by (rule merge_terminates [OF json_finite_jv]) simp

text \<open>
  C37: Where the target already has every section of the source, the merge does what its
  comment says: the result has the keys of both, keys only the target has keep their value,
  and each key of the source is merged recursively, kept or added.
\<close>
theorem merge_adds_missing_keys:
  assumes "json_tree J" and "j_isObject J source" and "distinct (j_keys J source)"
    and "sections_present J (Suc fuel) target source"
    and "mergeJsonObjects J (Suc fuel) target source = Some r"
  shows "set (j_keys J r) = set (j_keys J target) \<union> set (j_keys J source) \<and>
    (\<forall>k. k \<notin> set (j_keys J source) \<longrightarrow> j_get J r k = j_get J target k) \<and>
    (\<forall>k \<in> set (j_keys J source).
      merged_at (mergeJsonObjects J fuel) J source target k (j_get J r k))"
proof -
  have "mergeLoop (mergeJsonObjects J fuel) J source (j_keys J source) target = Some r"
    using assms(2,5) by simp
  from mergeLoop_pointwise [OF assms(1,3) _ _ this] assms(2,4)
  show ?thesis by (auto simp: list_all_iff)
qed

theorem merge_adds_missing_keys_witness:
  "set (j_keys demo_lib demo_merged) = {''mqtt'', ''x''} \<and> j_get demo_lib demo_merged ''x'' = JInt 7 \<and>
   mergeJsonObjects demo_lib 5 (j_get demo_lib demo_target ''mqtt'') (j_get demo_lib demo_backup ''mqtt'') =
     Some (j_get demo_lib demo_merged ''mqtt'')"
proof -
  have tree: "json_tree demo_lib" by (simp add: demo_lib_def json_tree_jv)
  have obj: "j_isObject demo_lib demo_backup" "distinct (j_keys demo_lib demo_backup)"
    by (simp_all add: demo_defs jv_lib_def)
  have sec: "sections_present demo_lib (Suc 5) demo_target demo_backup"
    by (simp add: demo_defs jv_lib_def numeral_eq_Suc)
  have run: "mergeJsonObjects demo_lib (Suc 5) demo_target demo_backup = Some demo_merged"
    by (simp add: demo_defs jv_lib_def numeral_eq_Suc)
  have keys: "j_keys demo_lib demo_backup = [''mqtt'']" "j_keys demo_lib demo_target = [''mqtt'', ''x'']"
    "j_isObject demo_lib (j_get demo_lib demo_backup ''mqtt'')" "j_get demo_lib demo_target ''x'' = JInt 7"
    by (simp_all add: demo_defs jv_lib_def)
  show ?thesis
    using merge_adds_missing_keys [OF tree obj sec run] by (simp add: keys merged_at_def)
qed

text \<open>
  C38: As soon as the target lacks one section of the source, the merge loses every key that
  only the target had: \<^verbatim>\<open>target.to<JsonObject>()\<close> empties the target before the section is added.
\<close>
theorem merge_loses_target_keys:
  assumes "json_tree J" and "j_isObject J source" and "distinct (j_keys J source)"
    and "j_isObject J target" and "k \<in> set (j_keys J source)"
    and "j_isObject J (j_get J source k)" and "\<not> j_isObject J (j_get J target k)"
    and "mergeJsonObjects J (Suc fuel) target source = Some r"
    and "k' \<notin> set (j_keys J source)"
  shows "k' \<notin> set (j_keys J r)"
proof -
  have "mergeLoop (mergeJsonObjects J fuel) J source (j_keys J source) target = Some r"
    using assms(2,8) by simp
  with mergeLoop_drops [OF assms(1,3,4,5,6,7)] have "set (j_keys J r) \<subseteq> set (j_keys J source)" .
  with assms(9) show ?thesis by blast
qed

theorem merge_loses_target_keys_witness:
  "''x'' \<notin> set (j_keys demo_lib (the (mergeJsonObjects demo_lib (Suc 5) (JObj [(''x'', JInt 7)]) demo_backup)))"
proof (rule merge_loses_target_keys)
  show "json_tree demo_lib" by (simp add: demo_lib_def json_tree_jv)
  show "mergeJsonObjects demo_lib (Suc 5) (JObj [(''x'', JInt 7)]) demo_backup =
      Some (the (mergeJsonObjects demo_lib (Suc 5) (JObj [(''x'', JInt 7)]) demo_backup))"
    by (simp add: demo_defs jv_lib_def numeral_eq_Suc mergeAddObject_def)
  show "''mqtt'' \<in> set (j_keys demo_lib demo_backup)" by (simp add: demo_defs jv_lib_def)
qed (simp_all add: demo_defs jv_lib_def)

text \<open>
  \<^verbatim>\<open>mergeConfigFromBackup\<close> changes at most the configuration file, and nothing at all unless
  it returns true.
\<close>
lemma mergeConfig_writes_only_config:
  assumes "mergeConfigFromBackup J fuel r configPath backupPath s = Some (res, s')"
  shows "(\<forall>p. p \<noteq> configPath \<longrightarrow> fs s' p = fs s p) \<and> (\<not> res \<longrightarrow> fs s' = fs s)"
  using assms
  by (auto simp: mergeConfigFromBackup_def Let_def
      split: option.splits prod.splits if_splits)

end
