(* ===== verification/Periodic.thy ===== *)
theory Periodic
  imports Platform
begin

text \<open>
  The pattern six handlers of the firmware share (LED, sensor scan, display, automation,
  WiFi reconnects, MQTT publishing):

  \<^verbatim>\<open>
    unsigned long currentMillis = millis();
    if (currentMillis - stamp >= INTERVAL) { stamp = currentMillis; ... }
  \<close>

  The locale \<open>stamped\<close> is its contract: a handler keeps its time stamp before its interval has
  passed, and stores the reading when it runs; \<open>periodic\<close> adds that a call that comes too early
  changes nothing at all. The client facts are about whole runs of the main loop, in which
  anything that leaves the handler's own time stamp alone may happen between two calls: runs
  are never closer than the interval, and a call that comes at least an interval after the
  last run does run, also across the wrap-around of the counter.
\<close>

text \<open>
  A run: each entry is the reading of one call and the state change up to the next call.
  \<open>fire_times\<close> lists the readings at which the handler ran.
\<close>

primrec fire_times ::
  "(millis_t \<Rightarrow> 's \<Rightarrow> bool) \<Rightarrow> (millis_t \<Rightarrow> 's \<Rightarrow> 's) \<Rightarrow> (millis_t \<times> ('s \<Rightarrow> 's)) list \<Rightarrow>
     's \<Rightarrow> millis_t list" where
  "fire_times due tick [] s = []"
| "fire_times due tick (x # xs) s =
     (if due (fst x) s then [fst x] else []) @ fire_times due tick xs (snd x (tick (fst x) s))"

fun spaced :: "millis_t \<Rightarrow> millis_t list \<Rightarrow> bool" where
  "spaced d (a # b # ts) = (d \<le> b - a \<and> spaced d (b # ts))"
| "spaced d _ = True"

definition due :: "('s \<Rightarrow> millis_t) \<Rightarrow> ('s \<Rightarrow> bool) \<Rightarrow> millis_t \<Rightarrow> millis_t \<Rightarrow> 's \<Rightarrow> bool" where
  "due stamp active interval now s = (active s \<and> interval \<le> now - stamp s)"

locale stamped =
  fixes stamp :: "'s \<Rightarrow> millis_t"
    and active :: "'s \<Rightarrow> bool"
    and interval :: millis_t
    and tick :: "millis_t \<Rightarrow> 's \<Rightarrow> 's"
  assumes keep: "\<not> due stamp active interval now s \<Longrightarrow> stamp (tick now s) = stamp s"
    and fire: "due stamp active interval now s \<Longrightarrow> stamp (tick now s) = now"
begin

lemma runs_spaced:
  assumes "\<And>x s. x \<in> set xs \<Longrightarrow> stamp (snd x s) = stamp s"
  shows "spaced interval (stamp s # fire_times (due stamp active interval) tick xs s)"
  using assms
proof (induction xs arbitrary: s)
  case (Cons x xs)
  have step: "stamp (snd x (tick (fst x) s)) = stamp (tick (fst x) s)"
    using Cons.prems by simp
  have ih: "spaced interval (stamp (tick (fst x) s) #
      fire_times (due stamp active interval) tick xs (snd x (tick (fst x) s)))"
    using Cons.IH [of "snd x (tick (fst x) s)"] Cons.prems step by simp
  show ?case
  proof (cases "due stamp active interval (fst x) s")
    case True
    then have "interval \<le> fst x - stamp s" by (simp add: due_def)
    with True ih fire [OF True] show ?thesis by simp
  next
    case False
    with ih keep [OF False] show ?thesis by simp
  qed
qed simp

lemma due_after_interval:
  assumes "active s" and "stamp s = clock t0" and "t0 + unat interval \<le> t" and "t - t0 < 4294967296"
  shows "stamp (tick (clock t) s) = clock t"
proof (rule fire)
  have "elapsed (clock t) (clock t0) = t - t0" using assms(3,4) by (intro elapsed_clock) auto
  then show "due stamp active interval (clock t) s"
    using assms by (simp add: due_def elapsed_def word_le_nat_alt)
qed

end

locale periodic =
  fixes stamp :: "'s \<Rightarrow> millis_t"
    and active :: "'s \<Rightarrow> bool"
    and interval :: millis_t
    and tick :: "millis_t \<Rightarrow> 's \<Rightarrow> 's"
  assumes idle: "\<not> due stamp active interval now s \<Longrightarrow> tick now s = s"
    and runs: "due stamp active interval now s \<Longrightarrow> stamp (tick now s) = now"
begin

lemma quiet_before_interval:
  assumes "stamp s = clock t0" and "t0 \<le> t" and "t < t0 + unat interval"
  shows "tick (clock t) s = s"
proof (rule idle)
  have "unat interval < 4294967296" using unsigned_less [of interval, where ?'a = nat] by simp
  then have "elapsed (clock t) (clock t0) = t - t0" using assms(2,3) by (intro elapsed_clock) auto
  then show "\<not> due stamp active interval (clock t) s"
    using assms by (auto simp: due_def elapsed_def word_le_nat_alt)
qed

end

sublocale periodic \<subseteq> stamped stamp active interval tick
  by unfold_locales (simp_all add: idle runs)

end
