(* ===== verification/Device_Handler.thy ===== *)
theory Device_Handler
  imports File_Handler Periodic
begin

text \<open>
  \<^verbatim>\<open>src/DeviceHandler.cpp\<close>: relays and their switch-off timers, the system LED, the sensor with
  its EMA filter, the cached measurements and the display. The globals of the file are the
  fields of \<open>device_state\<close>; \<open>adcTasks\<close> holds the FreeRTOS tasks created by \<^verbatim>\<open>scanSensors\<close> that
  have not finished, each with the number of samples it still has to take and its partial
  sum.

  Each \<^verbatim>\<open>millis()\<close> call is an argument (\<open>now\<close>), as are the sensor readings, the CPU
  temperature and the results of \<^verbatim>\<open>display.begin\<close> and \<^verbatim>\<open>WiFi.status\<close>. A channel argument is an
  \<open>int8_t\<close> in \<open>setRelais\<close> and an \<^verbatim>\<open>int\<close> in \<open>setRelaisDuration\<close>, \<open>getState\<close> and
  \<open>getDuration\<close>, as in the source.
\<close>

record 'j device_state = "'j file_state" +
  previousMillis :: millis_t
  scanMillis :: millis_t
  displayMillis :: millis_t
  ch1 :: millis_t
  ch2 :: millis_t
  relay1 :: bool
  relay2 :: bool
  ledState :: bool
  latestVoltage :: fl
  systemLed :: bool
  maxV :: fl
  minV :: fl
  tankVolume :: fl
  scanCurrent :: fl
  scanTemperature :: fl
  scanWaterLevel :: fl
  scanWaterVolume :: fl
  displayEnabled :: bool
  adcTasks :: "(nat \<times> 32 word) list"

subsection \<open>Relays\<close>

text \<open>
  The local variable \<^verbatim>\<open>pin\<close> is not initialised. \<open>stray\<close> is the indeterminate value it holds, cut to
  the eight bits of the argument of \<^verbatim>\<open>digitalWrite\<close>: with a channel other than 1 and 2 that value is
  the number of the pin that is written, after the marker of undefined behaviour. Callers that pass
  a constant channel never read it.
\<close>

definition setRelais ::
  "8 word \<Rightarrow> int8_t \<Rightarrow> bool \<Rightarrow> ('j, 'z) device_state_scheme \<Rightarrow> ('j, 'z) device_state_scheme" where
  "setRelais stray relais state s =
     (let (pin, s1) =
        (if relais = 1 then (RELAIS_CH1, s\<lparr>ch1 := - 1, relay1 := state\<rparr>)
         else if relais = 2 then (RELAIS_CH2, s\<lparr>ch2 := - 1, relay2 := state\<rparr>)
         else (unat stray, emit (Undefined UninitialisedPin) s))
      in emit (SerialOut [Text ''Relais '', Dec (scast relais), Text '' set to '', Flag state])
           (emit (DigitalWrite pin state) s1))"

abbreviation unread :: "8 word" where
  "unread \<equiv> 255"

text \<open>
  \<^verbatim>\<open>duration * 1000\<close> is a product of two \<^verbatim>\<open>int\<close> values. When it does not fit, the value that is added
  to the clock is the argument \<open>overflowed\<close>, after the marker of undefined behaviour.
\<close>

definition fits_ms :: "cint \<Rightarrow> bool" where
  "fits_ms duration \<longleftrightarrow> - 2147483648 \<le> sint duration * 1000 \<and> sint duration * 1000 \<le> 2147483647"

definition product_ms :: "cint \<Rightarrow> cint \<Rightarrow> cint" where
  "product_ms overflowed duration = (if fits_ms duration then duration * 1000 else overflowed)"

definition setRelaisDuration ::
  "cint \<Rightarrow> cint \<Rightarrow> cint \<Rightarrow> millis_t \<Rightarrow> ('j, 'z) device_state_scheme \<Rightarrow> ('j, 'z) device_state_scheme" where
  "setRelaisDuration overflowed channel duration now s =
     (let mark = (\<lambda>s. if fits_ms duration then s else emit (Undefined SignedOverflow) s);
          ms = product_ms overflowed duration
      in if channel = 1 then mark (s\<lparr>ch1 := now + ms\<rparr>)
         else if channel = 2 then mark (s\<lparr>ch2 := now + ms\<rparr>)
         else s)"

definition handleRelais ::
  "millis_t \<Rightarrow> ('j, 'z) device_state_scheme \<Rightarrow> ('j, 'z) device_state_scheme" where
  "handleRelais now s =
     (let s1 = (if ch1 s \<noteq> - 1 \<and> ch1 s \<le> now then setRelais unread 1 False s else s)
      in if ch2 s1 \<noteq> - 1 \<and> ch2 s1 \<le> now then setRelais unread 2 False s1 else s1)"

definition getState :: "cint \<Rightarrow> ('j, 'z) device_state_scheme \<Rightarrow> bool" where
  "getState i s = (if i = 1 then relay1 s else if i = 2 then relay2 s else False)"

text \<open>
  \<^verbatim>\<open>getDuration\<close> reads the clock twice. The deadline is stored in an \<^verbatim>\<open>int\<close>; in
  \<^verbatim>\<open>duration - millis()\<close> it is converted back to \<^verbatim>\<open>unsigned long\<close>, so \<^verbatim>\<open>> 0\<close> is a test for
  inequality.
\<close>

definition getDuration ::
  "cint \<Rightarrow> millis_t \<Rightarrow> millis_t \<Rightarrow> ('j, 'z) device_state_scheme \<Rightarrow> cint" where
  "getDuration i now1 now2 s =
     (let d0 = 0;
          d1 = (if i = 1 then (if ch1 s \<le> 0 then 0 else ch1 s) else d0);
          duration = (if i = 2 then (if ch2 s \<le> 0 then 0 else ch2 s) else d1)
      in if 0 < sint duration \<and> 0 < duration - now1 then duration - now2 else 0)"

subsection \<open>LED\<close>

definition handleBlink ::
  "millis_t \<Rightarrow> ('j, 'z) device_state_scheme \<Rightarrow> ('j, 'z) device_state_scheme" where
  "handleBlink now s =
     (if BLINK_INTERVAL \<le> now - previousMillis s
      then emit (DigitalWrite LED_PIN (\<not> ledState s))
             (s\<lparr>previousMillis := now, ledState := \<not> ledState s\<rparr>)
      else s)"

subsection \<open>Sensor\<close>

abbreviation f32 :: "rat \<Rightarrow> fl" where
  "f32 q \<equiv> to_fl binary32 q"

abbreviation f64 :: "rat \<Rightarrow> fl" where
  "f64 q \<equiv> to_fl binary64 q"

primrec sample_sum :: "nat \<Rightarrow> (nat \<Rightarrow> 32 word) \<Rightarrow> 32 word" where
  "sample_sum 0 mv = 0"
| "sample_sum (Suc n) mv = sample_sum n mv + mv n"

text \<open>The part of \<^verbatim>\<open>readVoltage\<close> after the sampling loop: average, EMA filter in \<^verbatim>\<open>double\<close>.\<close>

definition average_of :: "nat \<Rightarrow> 32 word \<Rightarrow> fl" where
  "average_of samples acc =
     fl_div binary32 (fl_div binary32 (f32 (of_nat (unat acc))) (f32 (of_nat samples))) (f32 1000)"

definition ema :: "fl \<Rightarrow> fl \<Rightarrow> fl" where
  "ema old average =
     fl_conv binary32
       (fl_add binary64 (fl_mul binary64 old (fl_sub binary64 (f64 1) EMA_ALPHA))
          (fl_mul binary64 average EMA_ALPHA))"

definition finishReading ::
  "nat \<Rightarrow> 32 word \<Rightarrow> ('j, 'z) device_state_scheme \<Rightarrow> ('j, 'z) device_state_scheme" where
  "finishReading samples acc s =
     s\<lparr>latestVoltage := ema (latestVoltage s) (average_of samples acc)\<rparr>"

definition readVoltage ::
  "nat \<Rightarrow> (nat \<Rightarrow> 32 word) \<Rightarrow> ('j, 'z) device_state_scheme \<Rightarrow> fl \<times> ('j, 'z) device_state_scheme" where
  "readVoltage samples mv s =
     (let s1 = finishReading samples (sample_sum samples mv) (emits (replicate samples (DelayMs 10)) s)
      in (latestVoltage s1, s1))"

definition getADCValue ::
  "(nat \<Rightarrow> 32 word) \<Rightarrow> ('j, 'z) device_state_scheme \<Rightarrow> fl \<times> ('j, 'z) device_state_scheme" where
  "getADCValue mv s = readVoltage 64 mv s"

definition adcTaskFunction ::
  "(nat \<Rightarrow> 32 word) \<Rightarrow> ('j, 'z) device_state_scheme \<Rightarrow> ('j, 'z) device_state_scheme" where
  "adcTaskFunction mv s = emit TaskDelete (snd (getADCValue mv s))"

text \<open>
  The same task one action at a time, as the scheduler runs it beside the main loop: it takes
  a sample, or, with no sample left, filters the average into \<open>latestVoltage\<close> and ends.
\<close>

definition adcTaskStep ::
  "nat \<Rightarrow> 32 word \<Rightarrow> ('j, 'z) device_state_scheme \<Rightarrow> ('j, 'z) device_state_scheme" where
  "adcTaskStep k mv s =
     (if k < length (adcTasks s)
      then (case adcTasks s ! k of
              (Suc n, acc) \<Rightarrow> emit (DelayMs 10) (s\<lparr>adcTasks := (adcTasks s)[k := (n, acc + mv)]\<rparr>)
            | (0, acc) \<Rightarrow> emit TaskDelete
                (finishReading 64 acc (s\<lparr>adcTasks := take k (adcTasks s) @ drop (Suc k) (adcTasks s)\<rparr>)))
      else s)"

definition getCurrent ::
  "bool \<Rightarrow> (nat \<Rightarrow> 32 word) \<Rightarrow> ('j, 'z) device_state_scheme \<Rightarrow> fl \<times> ('j, 'z) device_state_scheme" where
  "getCurrent newReading mv s =
     (let (v, s1) = (if newReading then getADCValue mv s else (latestVoltage s, s))
      in (fl_conv binary32 (fl_mul binary64 (fl_div binary32 v (f32 120)) (f64 1000)), s1))"

definition getCPUTemperature :: "fl \<Rightarrow> fl" where
  "getCPUTemperature temperatureRead = temperatureRead"

definition getLevel :: "('j, 'z) device_state_scheme \<Rightarrow> fl" where
  "getLevel s =
     (let percent = fl_mul binary32
            (fl_div binary32 (fl_sub binary32 (latestVoltage s) (minV s))
               (fl_sub binary32 (maxV s) (minV s))) (f32 100);
          p1 = (if fl_less percent (f32 0) then f32 0 else percent)
      in if fl_less (f32 100) p1 then f32 100 else p1)"

definition getVolume :: "('j, 'z) device_state_scheme \<Rightarrow> fl" where
  "getVolume s = fl_mul binary32 (tankVolume s) (fl_div binary32 (getLevel s) (f32 100))"

definition roundToTwoDecimals :: "fl \<Rightarrow> fl" where
  "roundToTwoDecimals value = fl_div binary32 (fl_round (fl_mul binary32 value (f32 100))) (f32 100)"

definition getVolumeCached :: "('j, 'z) device_state_scheme \<Rightarrow> fl" where
  "getVolumeCached s = scanWaterVolume s"

definition getCPUTemperatureCached :: "('j, 'z) device_state_scheme \<Rightarrow> fl" where
  "getCPUTemperatureCached s = scanTemperature s"

definition getLevelCached :: "('j, 'z) device_state_scheme \<Rightarrow> fl" where
  "getLevelCached s = scanWaterLevel s"

definition getCurrentCached :: "('j, 'z) device_state_scheme \<Rightarrow> fl" where
  "getCurrentCached s = scanCurrent s"

definition getADCValueCached :: "('j, 'z) device_state_scheme \<Rightarrow> fl" where
  "getADCValueCached s = latestVoltage s"

definition scanSensors ::
  "bool \<Rightarrow> fl \<Rightarrow> ('j, 'z) device_state_scheme \<Rightarrow> ('j, 'z) device_state_scheme" where
  "scanSensors taskOk temp s =
     (let s1 = emit TaskCreate (if taskOk then s\<lparr>adcTasks := adcTasks s @ [(64, 0)]\<rparr> else s);
          s2 = s1\<lparr>scanCurrent := roundToTwoDecimals (fst (getCurrent False (\<lambda>_. 0) s1))\<rparr>;
          s3 = s2\<lparr>scanTemperature := roundToTwoDecimals (getCPUTemperature temp)\<rparr>;
          s4 = s3\<lparr>scanWaterLevel := roundToTwoDecimals (getLevel s3)\<rparr>
      in s4\<lparr>scanWaterVolume := roundToTwoDecimals (getVolume s4)\<rparr>)"

definition handleScan ::
  "bool \<Rightarrow> fl \<Rightarrow> millis_t \<Rightarrow> ('j, 'z) device_state_scheme \<Rightarrow> ('j, 'z) device_state_scheme" where
  "handleScan taskOk temp now s =
     (if SCAN_INTERVAL \<le> now - scanMillis s then scanSensors taskOk temp (s\<lparr>scanMillis := now\<rparr>) else s)"

subsection \<open>Display\<close>

definition updateDisplay ::
  "bool \<Rightarrow> ('j, 'z) device_state_scheme \<Rightarrow> ('j, 'z) device_state_scheme" where
  "updateDisplay wifiUp s =
     emits (map Display
       [ClearDisplay, SetCursor 0 0,
        DPrint (Text ''BYTE''), DPrint (Text ''LEVEL''),
        DrawLine 0 9 128 9 1,
        SetCursor 0 18,
        DPrint (Text ''WiFi: ''), DPrintln (Text (if wifiUp then ''OK'' else ''AP'')),
        DPrint (Text ''Level: ''), DPrint (Fixed (getLevelCached s) 1), DPrintln (Text ''%''),
        DPrint (Text ''Volume: ''), DPrintln (Fixed (getVolumeCached s) 2), DPrintln (Text ''L''),
        DPrint (Text ''ADC: ''), DPrint (Fixed (roundToTwoDecimals (getADCValueCached s)) 2),
        DPrintln (Text ''V''),
        DPrintln (Text ''Current: ''), DPrintln (Fixed (roundToTwoDecimals (getCurrentCached s)) 2),
        DPrintln (Text ''mA''),
        DrawRect 95 18 30 40 1, FillRect 97 20 26 36 1,
        ShowDisplay]) s"

definition handleDisplay ::
  "bool \<Rightarrow> millis_t \<Rightarrow> ('j, 'z) device_state_scheme \<Rightarrow> ('j, 'z) device_state_scheme" where
  "handleDisplay wifiUp now s =
     (if displayEnabled s
      then if DISPLAY_INTERVAL \<le> now - displayMillis s
           then updateDisplay wifiUp (s\<lparr>displayMillis := now\<rparr>) else s
      else s)"

definition setBrightness ::
  "8 word \<Rightarrow> ('j, 'z) device_state_scheme \<Rightarrow> ('j, 'z) device_state_scheme" where
  "setBrightness brightness s =
     emits [Display SetContrast, Display (Ssd1306Command brightness)] s"

definition setupDisplay ::
  "'j json_lib \<Rightarrow> bool \<Rightarrow> ('j, 'z) device_state_scheme \<Rightarrow> ('j, 'z) device_state_scheme" where
  "setupDisplay J displayOk s =
     (let s1 = emit (Display (BeginDisplay SCREEN_ADDRESS)) s
      in if \<not> displayOk then emit (SerialOut [Text ''SSD1306 allocation failed'']) s1
         else (setBrightness (j_asU8 J (j_path J (getConfig s1) [''hardware'', ''level''])) s1)
                \<lparr>displayEnabled := True\<rparr>)"

subsection \<open>Setup and loop\<close>

definition DeviceHandler_setup ::
  "'j json_lib \<Rightarrow> bool \<Rightarrow> write_result \<Rightarrow> bool \<Rightarrow> ('j, 'z) device_state_scheme \<Rightarrow> ('j, 'z) device_state_scheme" where
  "DeviceHandler_setup J resetPin r displayOk s =
     (let s1 = emits [AnalogReadResolution 12, AnalogSetPinAttenuation SENSE, PinMode SENSE INPUT,
            PinMode LED_PIN OUTPUT, PinMode RELAIS_CH1 OUTPUT, PinMode RELAIS_CH2 OUTPUT,
            PinMode RESET OUTPUT] s;
          s2 = (if resetPin then FileHandler_reset r (emit (SerialOut [Text ''Reset'']) s1) else s1);
          s3 = s2\<lparr>systemLed := j_asBool J (j_path J (getConfig s2) [''hardware'', ''led'']),
                  maxV := j_asFloat J (j_path J (getConfig s2) [''calibration'', ''max'']),
                  minV := j_asFloat J (j_path J (getConfig s2) [''calibration'', ''min'']),
                  tankVolume := j_asFloat J (j_path J (getConfig s2) [''calibration'', ''volume''])\<rparr>
      in if j_asBool J (j_path J (getConfig s3) [''hardware'', ''oled''])
         then setupDisplay J displayOk s3 else s3)"

text \<open>What the calls of one pass of \<^verbatim>\<open>DeviceHandler::loop\<close> return.\<close>

record dev_in =
  now_blink :: millis_t
  now_relais :: millis_t
  now_scan :: millis_t
  now_display :: millis_t
  task_ok :: bool
  cpu_temp :: fl
  wifi_up :: bool

definition DeviceHandler_loop ::
  "dev_in \<Rightarrow> ('j, 'z) device_state_scheme \<Rightarrow> ('j, 'z) device_state_scheme" where
  "DeviceHandler_loop i s =
     (let s1 = handleBlink (now_blink i) s;
          s2 = handleRelais (now_relais i) s1;
          s3 = handleScan (task_ok i) (cpu_temp i) (now_scan i) s2
      in handleDisplay (wifi_up i) (now_display i) s3)"

subsection \<open>Frames\<close>

lemma device_emit [simp]:
  "previousMillis (emit e s) = previousMillis s" "scanMillis (emit e s) = scanMillis s"
  "displayMillis (emit e s) = displayMillis s" "ch1 (emit e s) = ch1 s" "ch2 (emit e s) = ch2 s"
  "relay1 (emit e s) = relay1 s" "relay2 (emit e s) = relay2 s" "ledState (emit e s) = ledState s"
  "latestVoltage (emit e s) = latestVoltage s" "systemLed (emit e s) = systemLed s"
  "maxV (emit e s) = maxV s" "minV (emit e s) = minV s" "tankVolume (emit e s) = tankVolume s"
  "scanCurrent (emit e s) = scanCurrent s" "scanTemperature (emit e s) = scanTemperature s"
  "scanWaterLevel (emit e s) = scanWaterLevel s" "scanWaterVolume (emit e s) = scanWaterVolume s"
  "displayEnabled (emit e s) = displayEnabled s" "adcTasks (emit e s) = adcTasks s"
  by (simp_all add: emit_def)

lemma device_emits [simp]:
  "previousMillis (emits es s) = previousMillis s" "scanMillis (emits es s) = scanMillis s"
  "displayMillis (emits es s) = displayMillis s" "ch1 (emits es s) = ch1 s" "ch2 (emits es s) = ch2 s"
  "relay1 (emits es s) = relay1 s" "relay2 (emits es s) = relay2 s" "ledState (emits es s) = ledState s"
  "latestVoltage (emits es s) = latestVoltage s" "systemLed (emits es s) = systemLed s"
  "maxV (emits es s) = maxV s" "minV (emits es s) = minV s" "tankVolume (emits es s) = tankVolume s"
  "scanCurrent (emits es s) = scanCurrent s" "scanTemperature (emits es s) = scanTemperature s"
  "scanWaterLevel (emits es s) = scanWaterLevel s" "scanWaterVolume (emits es s) = scanWaterVolume s"
  "displayEnabled (emits es s) = displayEnabled s" "adcTasks (emits es s) = adcTasks s"
  "fs (emits es s) = fs s" "mounted (emits es s) = mounted s" "config (emits es s) = config s"
  by (simp_all add: emits_def)

lemma setRelais_frame [frame, simp]:
  "previousMillis (setRelais x c b s) = previousMillis s" "scanMillis (setRelais x c b s) = scanMillis s"
  "displayMillis (setRelais x c b s) = displayMillis s"
  "latestVoltage (setRelais x c b s) = latestVoltage s"
  "maxV (setRelais x c b s) = maxV s" "minV (setRelais x c b s) = minV s"
  "tankVolume (setRelais x c b s) = tankVolume s" "scanCurrent (setRelais x c b s) = scanCurrent s"
  "scanTemperature (setRelais x c b s) = scanTemperature s"
  "scanWaterLevel (setRelais x c b s) = scanWaterLevel s"
  "scanWaterVolume (setRelais x c b s) = scanWaterVolume s"
  "displayEnabled (setRelais x c b s) = displayEnabled s" "adcTasks (setRelais x c b s) = adcTasks s"
  "ledState (setRelais x c b s) = ledState s" "systemLed (setRelais x c b s) = systemLed s"
  "fs (setRelais x c b s) = fs s" "mounted (setRelais x c b s) = mounted s"
  "config (setRelais x c b s) = config s"
  by (simp_all add: setRelais_def)

lemma setRelais_regs:
  "relay1 (setRelais x c b s) = (if c = 1 then b else relay1 s)"
  "relay2 (setRelais x c b s) = (if c = 2 then b else relay2 s)"
  "ch1 (setRelais x c b s) = (if c = 1 then - 1 else ch1 s)"
  "ch2 (setRelais x c b s) = (if c = 2 then - 1 else ch2 s)"
  by (simp_all add: setRelais_def)

lemma setRelais_log:
  "evlog (setRelais x c b s) = evlog s @
     (if c = 1 \<or> c = 2 then [] else [Undefined UninitialisedPin]) @
     [DigitalWrite (if c = 1 then RELAIS_CH1 else if c = 2 then RELAIS_CH2 else unat x) b,
      SerialOut [Text ''Relais '', Dec (scast c), Text '' set to '', Flag b]]"
  by (simp add: setRelais_def)

lemma setRelais_pin:
  "c = 1 \<or> c = 2 \<Longrightarrow> pin_level RELAIS_CH1 (setRelais x c b s) = (if c = 1 then b else pin_level RELAIS_CH1 s)"
  "c = 1 \<or> c = 2 \<Longrightarrow> pin_level RELAIS_CH2 (setRelais x c b s) = (if c = 2 then b else pin_level RELAIS_CH2 s)"
  "c \<noteq> 1 \<Longrightarrow> c \<noteq> 2 \<Longrightarrow> pin_level p (setRelais x c b s) = (if unat x = p then b else pin_level p s)"
  by (auto simp: pin_level_def setRelais_log pin_after_append config_defs)

lemma handleBlink_pin:
  "pin_level RELAIS_CH1 (handleBlink now s) = pin_level RELAIS_CH1 s"
  "pin_level RELAIS_CH2 (handleBlink now s) = pin_level RELAIS_CH2 s"
  by (simp_all add: handleBlink_def pin_level_def pin_after_append config_defs)

lemma handleBlink_frame [frame, simp]:
  "scanMillis (handleBlink now s) = scanMillis s" "displayMillis (handleBlink now s) = displayMillis s"
  "ch1 (handleBlink now s) = ch1 s" "ch2 (handleBlink now s) = ch2 s"
  "relay1 (handleBlink now s) = relay1 s" "relay2 (handleBlink now s) = relay2 s"
  "latestVoltage (handleBlink now s) = latestVoltage s" "maxV (handleBlink now s) = maxV s"
  "minV (handleBlink now s) = minV s" "tankVolume (handleBlink now s) = tankVolume s"
  "scanWaterLevel (handleBlink now s) = scanWaterLevel s" "adcTasks (handleBlink now s) = adcTasks s"
  "scanWaterVolume (handleBlink now s) = scanWaterVolume s" "config (handleBlink now s) = config s"
  "fs (handleBlink now s) = fs s" "mounted (handleBlink now s) = mounted s"
  by (simp_all add: handleBlink_def)

subsection \<open>The relay bank and the periodic handlers\<close>

text \<open>
  The contract of a bank of two relays towards the code that switches them: the state
  reported for a channel, and the level of its pin, are the last values set, and a channel
  does not disturb the other one. The pins are promised only for the channels 1 and 2.
\<close>

locale relay_bank =
  fixes setr :: "int8_t \<Rightarrow> bool \<Rightarrow> 's \<Rightarrow> 's"
    and getr :: "cint \<Rightarrow> 's \<Rightarrow> bool"
    and pin :: "cint \<Rightarrow> 's \<Rightarrow> bool"
  assumes get1: "getr 1 (setr c b s) = (if c = 1 then b else getr 1 s)"
    and get2: "getr 2 (setr c b s) = (if c = 2 then b else getr 2 s)"
    and pin1: "c = 1 \<or> c = 2 \<Longrightarrow> pin 1 (setr c b s) = (if c = 1 then b else pin 1 s)"
    and pin2: "c = 1 \<or> c = 2 \<Longrightarrow> pin 2 (setr c b s) = (if c = 2 then b else pin 2 s)"
begin

definition in_sync :: "'s \<Rightarrow> bool" where
  "in_sync s \<longleftrightarrow> getr 1 s = pin 1 s \<and> getr 2 s = pin 2 s"

lemma in_sync_set: "c = 1 \<or> c = 2 \<Longrightarrow> in_sync s \<Longrightarrow> in_sync (setr c b s)"
  by (auto simp: in_sync_def get1 get2 pin1 pin2)

lemma all_off: "\<not> getr 1 (setr 1 False (setr 2 False s))" "\<not> getr 2 (setr 1 False (setr 2 False s))"
  by (simp_all add: get1 get2)

lemma last_command_wins:
  assumes "list_all (\<lambda>(c', b'). c' \<noteq> c) cs" and "c = 1 \<or> c = 2"
  shows "getr (if c = 1 then 1 else 2) (fold (\<lambda>(c, b). setr c b) ((c, b) # cs) s) = b"
proof -
  have "getr (if c = 1 then 1 else 2) (fold (\<lambda>(c, b). setr c b) cs t) =
      getr (if c = 1 then 1 else 2) t" for t
    using assms by (induction cs arbitrary: t) (auto simp: get1 get2)
  then show ?thesis using assms(2) by (auto simp: get1 get2)
qed

end

interpretation relays: relay_bank "setRelais x" getState
  "\<lambda>i s :: ('j, 'z) device_state_scheme. pin_level (if i = 1 then RELAIS_CH1 else RELAIS_CH2) s"
  by unfold_locales (simp_all add: getState_def setRelais_regs setRelais_pin)

interpretation blink: periodic previousMillis "\<lambda>_. True" BLINK_INTERVAL
  "handleBlink :: millis_t \<Rightarrow> ('j, 'z) device_state_scheme \<Rightarrow> ('j, 'z) device_state_scheme"
  by unfold_locales (simp_all add: due_def handleBlink_def)

lemma scanSensors_scanMillis [simp]: "scanMillis (scanSensors ok temp s) = scanMillis s"
  by (simp add: scanSensors_def Let_def)

interpretation scan: periodic scanMillis "\<lambda>_. True" SCAN_INTERVAL
  "handleScan ok temp :: millis_t \<Rightarrow> ('j, 'z) device_state_scheme \<Rightarrow> ('j, 'z) device_state_scheme"
  by unfold_locales (simp_all add: due_def handleScan_def)

interpretation display: periodic displayMillis displayEnabled DISPLAY_INTERVAL
  "handleDisplay up :: millis_t \<Rightarrow> ('j, 'z) device_state_scheme \<Rightarrow> ('j, 'z) device_state_scheme"
  by unfold_locales (auto simp: due_def handleDisplay_def updateDisplay_def)

end
