(* ===== verification/Sensor.thy ===== *)
theory Sensor
  imports Device_Handler
begin

text \<open>
  What the measurement chain of \<^verbatim>\<open>src/DeviceHandler.cpp\<close> guarantees: the level in percent and the
  volume stay in their ranges or are NaN, the level follows the voltage, the EMA filter stays
  within the range of its inputs, rounding to two decimals is stable, and the asynchronous ADC
  task computes the same filtered voltage as an undisturbed call.
\<close>

subsection \<open>Constants\<close>

lemma rnd_consts: "rnd binary32 100 = 100" "rnd binary32 1000 = 1000" "rnd binary32 120 = 120"
  "rnd binary32 64 = 64" "rnd binary32 1 = 1" "rnd binary64 1 = 1" "rnd binary64 1000 = 1000"
  by code_simp+

lemmas limits = fl_limit_large

lemma f32_consts: "f32 0 = FFin 0" "f32 100 = FFin 100" "f32 1000 = FFin 1000" "f32 120 = FFin 120"
  "f32 64 = FFin 64" "f64 1 = FFin 1" "f64 1000 = FFin 1000"
  using limits by (auto intro!: to_fl_eq simp: rnd_consts)

subsection \<open>Level\<close>

definition percent_of :: "('j, 'z) device_state_scheme \<Rightarrow> fl" where
  "percent_of s = fl_mul binary32
     (fl_div binary32 (fl_sub binary32 (latestVoltage s) (minV s))
        (fl_sub binary32 (maxV s) (minV s))) (FFin 100)"

definition clamp_percent :: "fl \<Rightarrow> fl" where
  "clamp_percent p = (let p1 = (if fl_less p (FFin 0) then FFin 0 else p)
     in if fl_less (FFin 100) p1 then FFin 100 else p1)"

lemma getLevel_clamp: "getLevel s = clamp_percent (percent_of s)"
  by (simp add: getLevel_def clamp_percent_def percent_of_def f32_consts Let_def)

lemma clamp_percent_range: "p \<noteq> FNaN \<Longrightarrow> fl_in 0 100 (clamp_percent p)"
  by (cases p) (auto simp: clamp_percent_def Let_def fl_in_def)

lemma clamp_percent_NaN [simp]: "clamp_percent FNaN = FNaN"
  by (simp add: clamp_percent_def)

lemma clamp_percent_mono: "fl_le p q \<Longrightarrow> fl_le (clamp_percent p) (clamp_percent q)"
  by (cases p; cases q) (auto simp: clamp_percent_def Let_def fl_le_def)

text \<open>A usable calibration: finite voltages with \<^verbatim>\<open>minV < maxV\<close>.\<close>

definition calibrated :: "('j, 'z) device_state_scheme \<Rightarrow> bool" where
  "calibrated s \<longleftrightarrow> is_float binary32 (minV s) \<and> is_float binary32 (maxV s) \<and>
     fl_in (- 1000000) 1000000 (minV s) \<and> fl_in (- 1000000) 1000000 (maxV s) \<and>
     fl_less (minV s) (maxV s)"

lemma rnd_small: "\<bar>q\<bar> \<le> 10000000 \<Longrightarrow> \<bar>rnd binary32 q\<bar> < fl_limit binary32"
proof -
  assume q: "\<bar>q\<bar> \<le> 10000000"
  have fix1: "rnd binary32 10000000 = 10000000" by code_simp
  have "rnd binary32 q \<le> 10000000" using q fix1 by (intro b32.rnd_fixed_le) auto
  moreover have "- 10000000 \<le> rnd binary32 q"
    using q fix1 rnd_minus [of binary32 10000000] by (intro b32.rnd_fixed_ge) auto
  ultimately show ?thesis using limits(1) by linarith
qed

lemma span_positive:
  assumes "calibrated s"
  shows "fl_finite (fl_sub binary32 (maxV s) (minV s))"
    and "0 < fval (fl_sub binary32 (maxV s) (minV s))"
proof -
  have fin: "fl_finite (maxV s)" "fl_finite (minV s)"
    and b: "\<bar>fval (maxV s) - fval (minV s)\<bar> \<le> 10000000"
    and lt: "fval (minV s) < fval (maxV s)"
    using assms by (auto simp: calibrated_def fl_in_def fl_less_finite)
  have fixed: "rnd binary32 (fval a) = fval a" if "is_float binary32 a" for a
    using that by (cases a) (auto simp: is_float_def)
  note v = b32.fl_sub_val [OF fin rnd_small [OF b]]
  then show "fl_finite (fl_sub binary32 (maxV s) (minV s))" by simp
  have "0 < rnd binary32 (fval (maxV s) - fval (minV s))"
    using assms lt by (intro rnd_diff_pos fixed) (auto simp: calibrated_def)
  with v show "0 < fval (fl_sub binary32 (maxV s) (minV s))" by simp
qed

lemma numerator:
  assumes "calibrated s" and "fl_in (- 1000000) 1000000 (latestVoltage s)"
  shows "fl_finite (fl_sub binary32 (latestVoltage s) (minV s)) \<and>
    fval (fl_sub binary32 (latestVoltage s) (minV s)) =
      rnd binary32 (fval (latestVoltage s) - fval (minV s))"
  using assms by (intro b32.fl_sub_val rnd_small) (auto simp: calibrated_def fl_in_def)

lemma percent_not_NaN:
  assumes "calibrated s" and "fl_in (- 1000000) 1000000 (latestVoltage s)"
  shows "percent_of s \<noteq> FNaN"
  unfolding percent_of_def
  using span_positive [OF assms(1)] numerator [OF assms]
  by (intro b32.fl_mul_not_NaN b32.fl_div_not_NaN) auto

lemma getLevel_in: "getLevel s \<noteq> FNaN \<Longrightarrow> fl_in 0 100 (getLevel s)"
  using clamp_percent_range [of "percent_of s"]
  by (cases "percent_of s = FNaN") (simp_all add: getLevel_clamp)

text \<open>
  Whatever the voltage and the calibration are, also with \<^verbatim>\<open>minV = maxV\<close>, infinities or NaN
  from a broken configuration, \<^verbatim>\<open>getLevel\<close> returns a percentage between 0 and 100 or NaN.
\<close>
lemma level_range: "getLevel s = FNaN \<or> fl_in 0 100 (getLevel s)"
  using getLevel_in by blast

text \<open>
  C22: With a usable calibration and any finite voltage the level is a number between 0 and
  100, and it follows the sensor: a higher voltage never gives a lower level.
\<close>
theorem level_monotone:
  assumes "calibrated s" and "fl_in (- 1000000) 1000000 (latestVoltage s)"
    and "fl_in (- 1000000) 1000000 v" and "fl_le (latestVoltage s) v"
  shows "fl_in 0 100 (getLevel s) \<and> fl_le (getLevel s) (getLevel (s\<lparr>latestVoltage := v\<rparr>))"
proof -
  let ?t = "s\<lparr>latestVoltage := v\<rparr>"
  have t: "calibrated ?t" "fl_in (- 1000000) 1000000 (latestVoltage ?t)"
    using assms by (simp_all add: calibrated_def)
  have le: "fval (latestVoltage s) \<le> fval v"
    using assms by (simp add: fl_le_finite fl_in_def)
  have "fl_le (percent_of s) (percent_of ?t)"
    unfolding percent_of_def
    using span_positive [OF assms(1)] numerator [OF assms(1,2)] numerator [OF t] le
    by (auto intro!: b32.fl_mul_pos_mono b32.fl_div_pos_mono rnd_mono)
  then show ?thesis
    using clamp_percent_mono clamp_percent_range percent_not_NaN [OF assms(1,2)]
    by (simp add: getLevel_clamp)
qed

subsection \<open>Concrete device\<close>

text \<open>
  A device calibrated as the shipped configuration says (0.00 V to 2.40 V, 1000 l), for
  concrete inputs.
\<close>

definition demo_device :: "jv device_state" where
  "demo_device = \<lparr>evlog = [], mounted = True, fs = Map.empty, config = JNull,
     previousMillis = 0, scanMillis = 0, displayMillis = 0, ch1 = - 1, ch2 = - 1,
     relay1 = False, relay2 = False, ledState = False, latestVoltage = FFin (3 / 2),
     systemLed = True, maxV = f32 (12 / 5), minV = FFin 0, tankVolume = FFin 1000,
     scanCurrent = FFin 0, scanTemperature = FFin 0, scanWaterLevel = FFin 0,
     scanWaterVolume = FFin 0, displayEnabled = False, adcTasks = []\<rparr>"

lemma demo_maxV: "f32 (12 / 5) = FFin (5033165 / 2097152)"
  by code_simp

lemma demo_calibrated: "calibrated demo_device"
proof -
  have "rnd binary32 (5033165 / 2097152) = 5033165 / 2097152" by code_simp
  then show ?thesis
    using limits(1) by (simp add: calibrated_def demo_device_def demo_maxV is_float_def fl_in_def)
qed

theorem level_monotone_witness:
  "fl_in 0 100 (getLevel demo_device) \<and>
   fl_le (getLevel demo_device) (getLevel (demo_device\<lparr>latestVoltage := FFin 2\<rparr>))"
  by (rule level_monotone [OF demo_calibrated])
    (simp_all add: demo_device_def fl_in_def fl_le_def)

subsection \<open>Volume\<close>

text \<open>
  With a finite, non-negative tank volume the computed volume lies between 0 and the tank
  volume, or is NaN where the level is.
\<close>
lemma volume_range:
  assumes "is_float binary32 (tankVolume s)" and "fl_finite (tankVolume s)"
    and "0 \<le> fval (tankVolume s)"
  shows "getVolume s = FNaN \<or> fl_in 0 (fval (tankVolume s)) (getVolume s)"
proof (cases "getLevel s = FNaN")
  case True
  then show ?thesis by (simp add: getVolume_def fl_div_def fl_mul_def)
next
  case False
  let ?q = "fl_div binary32 (getLevel s) (FFin 100)" and ?T = "fval (tankVolume s)"
  note one = rnd_consts(5)
  have "fl_in (rnd binary32 (0 / fval (FFin 100))) (rnd binary32 (100 / fval (FFin 100))) ?q"
    using getLevel_in [OF False] one limits(1) by (intro b32.fl_div_in) auto
  then have q: "fl_in 0 1 ?q" by (simp add: one)
  have T: "rnd binary32 ?T = ?T" "?T < fl_limit binary32"
    using assms by (cases "tankVolume s"; auto simp: is_float_def)+
  have "fl_in (rnd binary32 (0 * 0)) (rnd binary32 (?T * 1)) (fl_mul binary32 (tankVolume s) ?q)"
    using q T assms by (intro b32.fl_mul_in) (auto simp: fl_in_def)
  then show ?thesis by (simp add: getVolume_def f32_consts T)
qed

subsection \<open>The filter\<close>

text \<open>
  \<^verbatim>\<open>V_MAX\<close> is 3.3 V as a \<^verbatim>\<open>float\<close>. The two weights of the filter are the \<^verbatim>\<open>double\<close> nearest to 0.3
  and its rounded complement; they do not sum to 1 exactly, and the final rounding to \<^verbatim>\<open>float\<close>
  absorbs the difference.
\<close>

definition V_MAX :: rat where
  "V_MAX = 13841203 / 4194304"

definition ALPHA :: rat where
  "ALPHA = 5404319552844595 / 18014398509481984"

definition BETA :: rat where
  "BETA = 3152519739159347 / 4503599627370496"

lemma V_MAX_less: "V_MAX < 4"
  by (simp add: V_MAX_def)

lemma weights: "EMA_ALPHA = FFin ALPHA" "fl_sub binary64 (f64 1) EMA_ALPHA = FFin BETA"
proof -
  have r: "rnd binary64 (3 / 10) = ALPHA" "rnd binary64 (1 - ALPHA) = BETA" by code_simp+
  show a: "EMA_ALPHA = FFin ALPHA"
    unfolding EMA_ALPHA_def using limits(2) by (intro to_fl_eq r) (simp_all add: ALPHA_def)
  have "to_fl binary64 (1 - ALPHA) = FFin BETA"
    using limits(2) by (intro to_fl_eq r) (simp_all add: BETA_def)
  then show "fl_sub binary64 (f64 1) EMA_ALPHA = FFin BETA"
    by (simp add: fl_sub_def fl_add_def a f32_consts ALPHA_def)
qed

lemma ema_consts:
  "rnd binary64 (rnd binary64 (V_MAX * BETA) + rnd binary64 (V_MAX * ALPHA)) < 4"
  "rnd binary64 (V_MAX * BETA) < 4" "rnd binary64 (V_MAX * ALPHA) < 4"
  "rnd binary32 (rnd binary64 (rnd binary64 (V_MAX * BETA) + rnd binary64 (V_MAX * ALPHA))) = V_MAX"
  by code_simp+

lemma ema_range:
  assumes "fl_in 0 V_MAX old" and "fl_in 0 V_MAX average"
  shows "fl_in 0 V_MAX (ema old average)"
proof -
  let ?b = "rnd binary64 (V_MAX * BETA)" and ?a = "rnd binary64 (V_MAX * ALPHA)"
  have pos: "0 \<le> BETA" "0 \<le> ALPHA" by (simp_all add: BETA_def ALPHA_def)
  have "fl_in (rnd binary64 (0 * 0)) ?b (fl_mul binary64 old (FFin BETA))"
    using assms(1) pos ema_consts limits(2) by (intro b64.fl_mul_in) (auto simp: fl_in_def)
  then have b: "fl_in 0 ?b (fl_mul binary64 old (FFin BETA))" by simp
  have "fl_in (rnd binary64 (0 * 0)) ?a (fl_mul binary64 average (FFin ALPHA))"
    using assms(2) pos ema_consts limits(2) by (intro b64.fl_mul_in) (auto simp: fl_in_def)
  then have a: "fl_in 0 ?a (fl_mul binary64 average (FFin ALPHA))" by simp
  have "fl_in (rnd binary64 (0 + 0)) (rnd binary64 (?b + ?a))
      (fl_add binary64 (fl_mul binary64 old (FFin BETA)) (fl_mul binary64 average (FFin ALPHA)))"
    using a b ema_consts limits(2) by (intro b64.fl_add_in) auto
  then have "fl_in (rnd binary32 0) (rnd binary32 (rnd binary64 (?b + ?a))) (ema old average)"
    unfolding ema_def weights(2) unfolding weights(1) using ema_consts limits(1) V_MAX_less
    by (intro b32.fl_conv_in) auto
  then show ?thesis by (simp add: ema_consts)
qed

lemma sample_sum_bound:
  assumes "\<And>i. unat (mv i) \<le> 3300" and "n \<le> 64"
  shows "unat (sample_sum n mv) \<le> n * 3300"
  using assms(2)
proof (induction n)
  case (Suc n)
  then have "unat (sample_sum n mv) \<le> n * 3300" by simp
  then have "unat (sample_sum n mv) + unat (mv n) \<le> Suc n * 3300" using assms(1) [of n] by simp
  moreover have "Suc n * 3300 < 4294967296" using Suc.prems by simp
  ultimately have "unat (sample_sum n mv + mv n) = unat (sample_sum n mv) + unat (mv n)"
    by (intro unat_add_lem [THEN iffD1]) simp
  with \<open>unat (sample_sum n mv) + unat (mv n) \<le> Suc n * 3300\<close> show ?case by simp
qed simp

lemma average_range:
  assumes "unat acc \<le> 211200"
  shows "fl_in 0 V_MAX (average_of 64 acc)"
proof -
  let ?n = "rat_of_nat (unat acc)"
  have c: "rnd binary32 211200 = 211200" "rnd binary32 3300 = 3300"
    "rnd binary32 (33 / 10) = V_MAX" by code_simp+
  have "?n \<le> rat_of_nat 211200" using assms by (simp only: of_nat_le_iff)
  then have n: "0 \<le> ?n" "?n \<le> 211200" by (simp_all only: of_nat_0_le_iff of_nat_numeral)
  have "fl_in 0 211200 (f32 ?n)"
    using n c limits(1) by (intro b32.to_fl_in) (auto intro: rnd_nonneg b32.rnd_fixed_le)
  then have "fl_in (rnd binary32 (0 / fval (FFin 64))) (rnd binary32 (211200 / fval (FFin 64)))
      (fl_div binary32 (f32 ?n) (FFin 64))"
    using c limits(1) by (intro b32.fl_div_in) auto
  then have "fl_in 0 3300 (fl_div binary32 (f32 ?n) (FFin 64))" by (simp add: c)
  then have "fl_in (rnd binary32 (0 / fval (FFin 1000))) (rnd binary32 (3300 / fval (FFin 1000)))
      (fl_div binary32 (fl_div binary32 (f32 ?n) (FFin 64)) (FFin 1000))"
    using c limits(1) by (intro b32.fl_div_in) (auto simp: V_MAX_def)
  then show ?thesis by (simp add: average_of_def f32_consts c)
qed

text \<open>
  As long as the ADC driver reports at most 3300 mV, the filtered voltage never leaves
  [0 V, 3.3 V]: the 32-bit sum of 64 samples does not overflow, and neither the rounding of the
  filter weights nor the mixed \<^verbatim>\<open>float\<close>/\<^verbatim>\<open>double\<close> arithmetic pushes it out of the range.
\<close>
lemma voltage_range:
  assumes "fl_in 0 V_MAX (latestVoltage s)" and "\<forall>i. unat (mv i) \<le> 3300"
  shows "fl_in 0 V_MAX (fst (getADCValue mv s)) \<and> latestVoltage (snd (getADCValue mv s)) = fst (getADCValue mv s)"
proof -
  have "unat (sample_sum 64 mv) \<le> 64 * 3300" using assms(2) by (intro sample_sum_bound) auto
  then have "fl_in 0 V_MAX (average_of 64 (sample_sum 64 mv))" by (intro average_range) simp
  with assms(1) show ?thesis
    by (simp add: getADCValue_def readVoltage_def finishReading_def Let_def ema_range)
qed

subsection \<open>The ADC task\<close>

lemma adcTask_samples:
  assumes "adcTasks s = (64, 0) # ts" and "n \<le> 64"
  shows "fold (\<lambda>i. adcTaskStep 0 (mv i)) [0..<n] s =
    s\<lparr>adcTasks := (64 - n, sample_sum n mv) # ts, evlog := evlog s @ replicate n (DelayMs 10)\<rparr>"
  using assms(2)
proof (induction n)
  case 0
  show ?case by (simp flip: assms(1))
next
  case (Suc n)
  then have ih: "fold (\<lambda>i. adcTaskStep 0 (mv i)) [0..<n] s =
    s\<lparr>adcTasks := (64 - n, sample_sum n mv) # ts, evlog := evlog s @ replicate n (DelayMs 10)\<rparr>"
    by simp
  have n: "64 - n = Suc (64 - Suc n)" using Suc.prems by simp
  have "fold (\<lambda>i. adcTaskStep 0 (mv i)) [0..<Suc n] s =
      adcTaskStep 0 (mv n) (fold (\<lambda>i. adcTaskStep 0 (mv i)) [0..<n] s)" by simp
  also have "\<dots> = s\<lparr>adcTasks := (64 - Suc n, sample_sum (Suc n) mv) # ts,
      evlog := evlog s @ replicate (Suc n) (DelayMs 10)\<rparr>"
    unfolding ih n by (simp add: adcTaskStep_def emit_def replicate_append_same)
  finally show ?case .
qed

text \<open>
  The ADC task that \<^verbatim>\<open>scanSensors\<close> starts, run by the scheduler one sample at a time, ends in
  exactly the state an undisturbed call of \<^verbatim>\<open>adcTaskFunction\<close> would give: 64 samples are
  summed, filtered once into \<^verbatim>\<open>latestVoltage\<close>, and the task is gone.
\<close>
lemma adc_task_is_readVoltage:
  assumes "adcTasks s = (64, 0) # ts"
  shows "fold (\<lambda>i. adcTaskStep 0 (mv i)) [0..<65] s = (adcTaskFunction mv s)\<lparr>adcTasks := ts\<rparr>"
proof -
  have "[0..<65] = [0..<64] @ [64::nat]" using upt_Suc_append [of 0 64] by simp
  then show ?thesis
    using adcTask_samples [OF assms, of 64 mv]
    by (simp add: adcTaskStep_def adcTaskFunction_def getADCValue_def readVoltage_def
        finishReading_def emit_def emits_def Let_def)
qed

subsection \<open>Rounding to two decimals\<close>

lemma round_away_mono: "q \<le> r \<Longrightarrow> 0 \<le> q \<Longrightarrow> round_away q \<le> round_away r"
  by (auto simp: round_away_def intro!: floor_mono)

lemma round_away_of_int [simp]: "0 \<le> n \<Longrightarrow> round_away (of_int n) = n"
  by (simp add: round_away_def floor_eq_iff)

lemma fl_round_in:
  assumes "fl_in (of_int a) (of_int b) x" and "0 \<le> a"
  shows "fl_in (of_int a) (of_int b) (fl_round x)"
proof (cases x)
  case (FFin q)
  with assms have q: "of_int a \<le> q" "q \<le> of_int b" "0 \<le> rat_of_int a"
    by (auto simp: fl_in_def)
  then have "0 \<le> q" "0 \<le> b" by linarith+
  then have "a \<le> round_away q" "round_away q \<le> b"
    using round_away_mono [OF q(1)] round_away_mono [OF q(2)] round_away_of_int [of a]
      round_away_of_int [of b] assms(2) q(3) by linarith+
  then show ?thesis using FFin assms(2) by (auto simp: fl_round_def fl_in_def)
qed (use assms in \<open>auto simp: fl_round_def fl_in_def\<close>)

lemma scaled_range:
  assumes "fl_in 0 10000 x"
  shows "fl_in 0 1000000 (fl_mul binary32 x (FFin 100))"
proof -
  have c: "rnd binary32 1000000 = 1000000" by code_simp
  have "fl_in (rnd binary32 (0 * 100)) (rnd binary32 (10000 * 100)) (fl_mul binary32 x (FFin 100))"
    using assms c limits(1) by (intro b32.fl_mul_in) (auto simp: fl_in_def)
  then show ?thesis by (simp add: c)
qed

lemma round2_range:
  assumes "fl_in 0 100 x"
  shows "fl_in 0 100 (roundToTwoDecimals x)"
proof -
  have c: "rnd binary32 10000 = 10000" by code_simp
  have "fl_in (rnd binary32 (0 * 100)) (rnd binary32 (100 * 100)) (fl_mul binary32 x (FFin 100))"
    using assms c limits(1) by (intro b32.fl_mul_in) (auto simp: fl_in_def)
  then have "fl_in (of_int 0) (of_int 10000) (fl_mul binary32 x (FFin 100))" by (simp add: c)
  then have "fl_in (of_int 0) (of_int 10000) (fl_round (fl_mul binary32 x (FFin 100)))"
    by (rule fl_round_in) simp
  then have "fl_in (rnd binary32 (0 / fval (FFin 100))) (rnd binary32 (10000 / fval (FFin 100)))
      (roundToTwoDecimals x)"
    unfolding roundToTwoDecimals_def f32_consts using rnd_consts(1) limits(1)
    by (intro b32.fl_div_in) auto
  then show ?thesis by (simp add: rnd_consts)
qed

lemma rnd32_close:
  assumes "1 / 128 \<le> q"
  shows "\<bar>rnd binary32 q - q\<bar> \<le> q / 16777216"
proof -
  have "ilog2 (2 powi (- 7)) = - 7" by (rule ilog2_unique) simp_all
  moreover have "ilog2 (2 powi (- 7)) \<le> ilog2 q"
    using assms by (intro ilog2_mono) (simp_all add: power_int_minus)
  ultimately have "emin binary32 \<le> ilog2 q" by (simp add: binary32_def)
  then have "\<bar>rnd binary32 q - q\<bar> \<le> \<bar>q\<bar> * 2 powi (- int (prec binary32))"
    using assms by (intro rnd_rel) (auto simp: binary32_def)
  also have "\<dots> = q / 16777216" using assms by (simp add: binary32_def power_int_minus)
  finally show ?thesis .
qed

text \<open>A number of cents up to a million survives the way to a \<^verbatim>\<open>float\<close> and back.\<close>

lemma cents_stable:
  assumes "1 \<le> n" and "n \<le> 1000000"
  shows "round_away (rnd binary32 (rnd binary32 (of_int n / 100) * 100)) = n"
proof -
  let ?n = "rat_of_int n" and ?y = "rnd binary32 (of_int n / 100)"
  let ?z = "rnd binary32 (?y * 100)"
  have n: "1 \<le> ?n" "?n \<le> 1000000" using assms by simp_all
  have "\<bar>?y - ?n / 100\<bar> \<le> ?n / 100 / 16777216" using n by (intro rnd32_close) simp
  then have y: "\<bar>?y * 100 - ?n\<bar> \<le> ?n / 16777216" unfolding abs_le_iff by linarith
  then have y1: "1 / 128 \<le> ?y * 100" using n unfolding abs_le_iff by linarith
  have "\<bar>?z - ?y * 100\<bar> \<le> ?y * 100 / 16777216" using y1 by (rule rnd32_close)
  then have "?n - 1 / 2 < ?z" "?z < ?n + 1 / 2" "0 \<le> ?z"
    using y n unfolding abs_le_iff by linarith+
  then show ?thesis by (simp add: round_away_def floor_eq_iff)
qed

lemma floor_half [simp]: "\<lfloor>1 / 2 :: rat\<rfloor> = 0"
  by (simp add: floor_eq_iff)

lemma round2_zero: "roundToTwoDecimals (fl_zero s) = fl_zero s"
  by (simp add: roundToTwoDecimals_def f32_consts fl_div_def fl_mul_def fl_round_def
      fl_zero_def round_away_def)

text \<open>
  \<^verbatim>\<open>roundToTwoDecimals\<close> is stable: rounding a value that was already rounded changes nothing,
  for every value up to 10000 (percent, milliamperes and litres of the device). The display
  rounds the cached current a second time.
\<close>
lemma round2_stable:
  assumes "fl_in 0 10000 x"
  shows "roundToTwoDecimals (roundToTwoDecimals x) = roundToTwoDecimals x"
proof -
  let ?m = "fl_mul binary32 x (FFin 100)"
  have "fl_in (of_int 0) (of_int 1000000) (fl_round ?m)"
    using scaled_range [OF assms] fl_round_in [of 0 1000000 ?m] by simp
  then consider s where "fl_round ?m = fl_zero s"
    | n where "fl_round ?m = FFin (of_int n)" "1 \<le> n" "n \<le> 1000000"
    by (cases ?m) (auto simp: fl_round_def fl_in_def fl_zero_def split: if_splits)
  then show ?thesis
  proof cases
    case (1 s)
    then have "roundToTwoDecimals x = fl_zero s"
      by (simp add: roundToTwoDecimals_def f32_consts fl_div_def fl_zero_def)
    then show ?thesis by (simp add: round2_zero)
  next
    case (2 n)
    let ?y = "rnd binary32 (of_int n / 100)"
    have c: "rnd binary32 10000 = 10000" by code_simp
    have n: "1 / 128 \<le> rat_of_int n / 100" "rat_of_int n / 100 \<le> 10000" using 2 by simp_all
    have y: "0 < ?y" "?y \<le> 10000"
      using rnd32_close [OF n(1)] n c unfolding abs_le_iff
      by (linarith, intro b32.rnd_fixed_le) auto
    have r: "roundToTwoDecimals x = FFin ?y"
      using 2 y limits(1)
      by (auto simp: roundToTwoDecimals_def f32_consts fl_div_def Let_def intro!: to_fl_eq)
    have z: "0 < rnd binary32 (?y * 100)" "\<bar>rnd binary32 (?y * 100)\<bar> < fl_limit binary32"
    proof -
      show "0 < rnd binary32 (?y * 100)"
        using cents_stable [OF 2(2,3)] 2(2) rnd_nonneg [of "?y * 100" binary32] y(1)
        by (cases "rnd binary32 (?y * 100) = 0") (auto simp: round_away_def)
      show "\<bar>rnd binary32 (?y * 100)\<bar> < fl_limit binary32" using y by (intro rnd_small) simp
    qed
    then have "fl_mul binary32 (FFin ?y) (FFin 100) = FFin (rnd binary32 (?y * 100))"
      using y by (auto simp: fl_mul_def Let_def intro!: to_fl_eq)
    then show ?thesis
      using 2 cents_stable [OF 2(2,3)] r
      by (simp add: roundToTwoDecimals_def f32_consts fl_round_def)
  qed
qed

end
