(* ===== verification/Relay_Timer.thy ===== *)
theory Relay_Timer
  imports Sensor
begin

text \<open>
  The switch-off timers of the two relays (\<^verbatim>\<open>setRelaisDuration\<close>, \<^verbatim>\<open>handleRelais\<close> and
  \<^verbatim>\<open>getDuration\<close> of \<^verbatim>\<open>src/DeviceHandler.cpp\<close>). A deadline is an absolute reading of the
  millisecond counter and \<^verbatim>\<open>handleRelais\<close> compares it with \<^verbatim>\<open>>=\<close>: within one turn of the counter
  the timer is exact, across the wrap-around it is not. Both sides are stated here, over runs
  of \<^verbatim>\<open>handleRelais\<close> calls, one per pass of the main loop.
\<close>

subsection \<open>One call\<close>

text \<open>The deadline register, the relay and the pin of a channel.\<close>

definition deadline :: "cint \<Rightarrow> ('j, 'z) device_state_scheme \<Rightarrow> millis_t" where
  "deadline c s = (if c = 1 then ch1 s else ch2 s)"

definition relay_pin :: "cint \<Rightarrow> ('j, 'z) device_state_scheme \<Rightarrow> bool" where
  "relay_pin c s = pin_level (if c = 1 then RELAIS_CH1 else RELAIS_CH2) s"

definition expired :: "cint \<Rightarrow> millis_t \<Rightarrow> ('j, 'z) device_state_scheme \<Rightarrow> bool" where
  "expired c now s = (deadline c s \<noteq> - 1 \<and> deadline c s \<le> now)"

abbreviation channel_ok :: "cint \<Rightarrow> bool" where
  "channel_ok c \<equiv> c = 1 \<or> c = 2"

lemma handleRelais_channel:
  assumes "channel_ok c"
  shows "getState c (handleRelais now s) = (if expired c now s then False else getState c s)"
    and "deadline c (handleRelais now s) = (if expired c now s then - 1 else deadline c s)"
    and "relay_pin c (handleRelais now s) = (if expired c now s then False else relay_pin c s)"
  using assms
  by (auto simp: handleRelais_def getState_def deadline_def expired_def relay_pin_def Let_def
      setRelais_regs setRelais_pin)

lemma setRelaisDuration_frame [frame, simp]:
  "relay1 (setRelaisDuration v c d now s) = relay1 s" "relay2 (setRelaisDuration v c d now s) = relay2 s"
  "pin_level p (setRelaisDuration v c d now s) = pin_level p s"
  "latestVoltage (setRelaisDuration v c d now s) = latestVoltage s"
  "scanWaterLevel (setRelaisDuration v c d now s) = scanWaterLevel s"
  "scanWaterVolume (setRelaisDuration v c d now s) = scanWaterVolume s"
  "adcTasks (setRelaisDuration v c d now s) = adcTasks s"
  "fs (setRelaisDuration v c d now s) = fs s" "config (setRelaisDuration v c d now s) = config s"
  "mounted (setRelaisDuration v c d now s) = mounted s"
  by (simp_all add: setRelaisDuration_def Let_def pin_level_def pin_after_append)

lemma setRelaisDuration_deadline:
  "ch1 (setRelaisDuration v c d now s) = (if c = 1 then now + product_ms v d else ch1 s)"
  "ch2 (setRelaisDuration v c d now s) = (if c = 2 then now + product_ms v d else ch2 s)"
  by (simp_all add: setRelaisDuration_def Let_def)

text \<open>
  The command of the web API: switch the channel on for some seconds. The durations considered
  here fit, so that the value an overflow would give is not read.
\<close>

definition switch_on_for ::
  "cint \<Rightarrow> cint \<Rightarrow> millis_t \<Rightarrow> ('j, 'z) device_state_scheme \<Rightarrow> ('j, 'z) device_state_scheme" where
  "switch_on_for c d now s = setRelaisDuration 0 c d now (setRelais unread (ucast c) True s)"

lemma switch_on_for_channel:
  assumes "channel_ok c" and "fits_ms d"
  shows "getState c (switch_on_for c d now s)"
    and "deadline c (switch_on_for c d now s) = now + d * 1000"
    and "relay_pin c (switch_on_for c d now s)"
proof -
  have "(ucast c :: int8_t) = (if c = 1 then 1 else 2)" using assms by auto
  then show "getState c (switch_on_for c d now s)"
    and "deadline c (switch_on_for c d now s) = now + d * 1000"
    and "relay_pin c (switch_on_for c d now s)"
    using assms
    by (auto simp: switch_on_for_def getState_def deadline_def relay_pin_def setRelais_regs
        setRelais_pin setRelaisDuration_deadline product_ms_def)
qed

lemma clock_not_max: "t < 4294967295 \<Longrightarrow> clock t \<noteq> - 1"
proof
  assume "t < 4294967295" and "clock t = - 1"
  then have "unat (clock t) = unat (- 1 :: 32 word)" by simp
  with \<open>t < 4294967295\<close> show False
    by (simp add: clock_def unat_of_nat32 unsigned_minus_1_eq_mask mask_eq_exp_minus_1)
qed

lemma clock_turn: "clock (t + 4294967296) = clock t"
  unfolding clock_def by (simp only: word_unat_eq_iff unat_of_nat32 mod_add_self2)

lemma deadline_clock:
  "deadline c s = clock t + of_nat d * 1000 \<Longrightarrow> deadline c s = clock (t + d * 1000)"
  by (simp add: clock_def)

lemma sint_uint32:
  "sint (w :: 32 word) = (if uint w < 2147483648 then uint w else uint w - 4294967296)"
proof -
  let ?u = "uint w"
  have s: "sint w = (?u + 2147483648) mod 4294967296 - 2147483648"
    by (simp add: sint_uint signed_take_bit_eq_take_bit_shift take_bit_eq_mod)
  have u: "0 \<le> ?u" "?u < 4294967296" using uint_lt2p [of w] by simp_all
  show ?thesis
  proof (cases "?u < 2147483648")
    case True
    then show ?thesis using s u by (simp add: mod_pos_pos_trivial)
  next
    case False
    have "(?u + 2147483648) mod 4294967296 = (?u - 2147483648) mod 4294967296"
      using mod_add_self2 [of "?u - 2147483648" 4294967296] by (simp add: add.commute)
    also have "\<dots> = ?u - 2147483648" using False u by (intro mod_pos_pos_trivial) simp_all
    finally show ?thesis using s False by simp
  qed
qed

lemma clock_sint: "t < 2147483648 \<Longrightarrow> sint (clock t) = int t"
proof -
  assume t: "t < 2147483648"
  then have "unat (clock t) = t" unfolding clock_def unat_of_nat32 by (intro mod_less) linarith
  then have "uint (clock t) = int t" by (simp only: uint_nat)
  with t show ?thesis by (simp add: sint_uint32)
qed

lemma fits_ms_of_nat: "d \<le> 2147483 \<Longrightarrow> fits_ms (of_nat d)"
proof -
  assume d: "d \<le> 2147483"
  then have "sint (clock d) = int d" by (intro clock_sint) simp
  then have "sint (of_nat d :: cint) = int d" by (simp only: clock_def)
  with d show ?thesis unfolding fits_ms_def by linarith
qed

subsection \<open>Runs\<close>

definition relais_run ::
  "nat list \<Rightarrow> ('j, 'z) device_state_scheme \<Rightarrow> ('j, 'z) device_state_scheme" where
  "relais_run ts s = fold (\<lambda>t. handleRelais (clock t)) ts s"

lemma relais_run_off:
  assumes "channel_ok c" and "\<not> getState c s" and "\<not> relay_pin c s"
  shows "\<not> getState c (relais_run ts s) \<and> \<not> relay_pin c (relais_run ts s)"
  using assms(2,3)
  by (induction ts arbitrary: s) (auto simp: relais_run_def handleRelais_channel [OF assms(1)])

lemma relais_run_timer:
  assumes "channel_ok c" and "deadline c s = clock D" and "D < 4294967295"
    and "getState c s" and "relay_pin c s" and "\<forall>t \<in> set ts. t < 4294967296"
  shows "getState c (relais_run ts s) = (\<forall>t \<in> set ts. t < D) \<and>
    relay_pin c (relais_run ts s) = (\<forall>t \<in> set ts. t < D)"
  using assms(2-6)
proof (induction ts arbitrary: s)
  case Nil
  then show ?case by (simp add: relais_run_def)
next
  case (Cons t ts)
  let ?s = "handleRelais (clock t) s"
  have step: "relais_run (t # ts) s = relais_run ts ?s" by (simp add: relais_run_def)
  have "clock D \<noteq> - 1"
    using Cons.prems(2) by (rule clock_not_max)
  moreover have "clock D \<le> clock t \<longleftrightarrow> D \<le> t"
    using Cons.prems(2,5) by (intro clock_inject) auto
  ultimately have e: "expired c (clock t) s \<longleftrightarrow> D \<le> t"
    using Cons.prems(1) by (simp add: expired_def)
  note h = handleRelais_channel [OF assms(1), of "clock t" s]
  show ?case
  proof (cases "D \<le> t")
    case True
    then have "\<not> getState c ?s" "\<not> relay_pin c ?s" using h e by simp_all
    then show ?thesis using relais_run_off [OF assms(1)] True step by auto
  next
    case False
    then show ?thesis using Cons.IH [of ?s] Cons.prems h e step by auto
  qed
qed

subsection \<open>Properties\<close>

text \<open>
  A relay that is switched on for \<open>d\<close> seconds is on, register and pin, until its
  deadline, and off from the first \<^verbatim>\<open>handleRelais\<close> call at or after it: over any run of calls
  the relay is on exactly if every call came before the deadline. This holds as long as the
  millisecond counter does not wrap and the deadline is not the marker \<^verbatim>\<open>-1\<close>.
\<close>
lemma timer_exact:
  assumes "channel_ok c" and "d \<le> 2147483" and "t + d * 1000 < 4294967295"
    and "\<forall>t' \<in> set ts. t' < 4294967296"
  shows "getState c (relais_run ts (switch_on_for c (of_nat d) (clock t) s)) =
      (\<forall>t' \<in> set ts. t' < t + d * 1000) \<and>
    relay_pin c (relais_run ts (switch_on_for c (of_nat d) (clock t) s)) =
      (\<forall>t' \<in> set ts. t' < t + d * 1000)"
  using switch_on_for_channel [OF assms(1) fits_ms_of_nat [OF assms(2)], of "clock t" s] assms
  by (intro relais_run_timer deadline_clock) auto

text \<open>
  C39: The timer is not safe against the wrap-around of the millisecond counter (after 49.7
  days): when the deadline lies beyond it, the next \<^verbatim>\<open>handleRelais\<close> call switches the relay off
  at once, however long the requested time is.
\<close>
theorem timer_wrap_switches_off_early:
  assumes "channel_ok c" and "t < 4294967296" and "4294967296 \<le> t + d * 1000"
    and "d * 1000 < 2147483648" and "t \<le> t'" and "t' < 4294967296"
  shows "\<not> getState c (handleRelais (clock t') (switch_on_for c (of_nat d) (clock t) s))"
proof -
  let ?s = "switch_on_for c (of_nat d) (clock t) s" and ?D = "t + d * 1000 - 4294967296"
  have "clock (t + d * 1000) = clock ?D"
    using clock_turn [of ?D] assms(3) by simp
  then have D: "deadline c ?s = clock ?D"
    using deadline_clock [OF switch_on_for_channel(2) [OF assms(1) fits_ms_of_nat], of d t s] assms(4) by simp
  have "?D \<le> t'" "?D < 4294967295" using assms by linarith+
  then have "expired c (clock t') ?s"
    unfolding expired_def D using clock_not_max [of ?D] clock_inject [of ?D t'] assms(6) by simp
  then show ?thesis by (simp add: handleRelais_channel(1) [OF assms(1)])
qed

theorem timer_wrap_switches_off_early_witness:
  "\<not> getState 2 (handleRelais (clock 4294967001)
      (switch_on_for 2 (of_nat 3600) (clock 4294967000) demo_device))"
  by (rule timer_wrap_switches_off_early) simp_all

text \<open>
  The remaining time that \<^verbatim>\<open>getDuration\<close> reports while a timer runs is exactly the number of
  milliseconds to the deadline, for deadlines in the first 24.8 days of operation; between the
  deadline and the next \<^verbatim>\<open>handleRelais\<close> call it is negative.
\<close>
lemma getDuration_remaining:
  assumes "channel_ok c" and "0 < t + d * 1000" and "t + d * 1000 < 2147483648"
    and "n < 2147483648"
  shows "sint (getDuration c (clock n) (clock n) (switch_on_for c (of_nat d) (clock t) s)) =
    int (t + d * 1000) - int n"
proof -
  let ?s = "switch_on_for c (of_nat d) (clock t) s" and ?D = "t + d * 1000"
  have D: "deadline c ?s = clock ?D"
    using assms(3) by (intro deadline_clock switch_on_for_channel(2) [OF assms(1)] fits_ms_of_nat) simp
  have pos: "clock ?D \<noteq> 0" "0 < sint (clock ?D)"
    using clock_sint [of ?D] assms(2,3) by auto
  then have g: "getDuration c (clock n) (clock n) ?s = clock ?D - clock n"
    using assms(1) D
    by (auto simp: getDuration_def deadline_def Let_def word_gt_0)
  have "sint (clock ?D - clock n) = sint (clock ?D) - sint (clock n)"
    using assms clock_sint [of ?D] clock_sint [of n]
    by (subst sint_word_ariths) (simp add: signed_take_bit_int_eq_self)
  with g show ?thesis using clock_sint assms(3,4) by simp
qed

text \<open>
  \<^verbatim>\<open>getDuration\<close> is 0 for a channel without a timer, for a channel that does not exist, and
  for every deadline in the upper half of the counter: the deadline is read through an \<^verbatim>\<open>int\<close>.
\<close>
lemma getDuration_zero:
  "\<not> channel_ok c \<or> deadline c s = - 1 \<or> 2147483648 \<le> unat (deadline c s) \<or> deadline c s = 0
    \<Longrightarrow> getDuration c now1 now2 s = 0"
proof -
  assume a: "\<not> channel_ok c \<or> deadline c s = - 1 \<or> 2147483648 \<le> unat (deadline c s) \<or> deadline c s = 0"
  have "\<not> 0 < sint d" if "2147483648 \<le> unat d" for d :: cint
  proof -
    have "2147483648 \<le> uint d" using that unfolding uint_nat by linarith
    moreover have "uint d < 4294967296" using uint_lt2p [of d] by simp
    ultimately show ?thesis by (simp add: sint_uint32)
  qed
  then show ?thesis
    using a by (auto simp: getDuration_def deadline_def Let_def split: if_splits)
qed

end
