(* ===== verification/Relay_Race.thy ===== *)
theory Relay_Race
  imports Relay_Timer
begin

text \<open>
  The relays below the level of whole calls. Requests are handled in the task of the web
  server, the timers in the task of the main loop, and the scheduler may switch between the
  two inside \<^verbatim>\<open>DeviceHandler::setRelais\<close>: the sources take no lock. Here \<^verbatim>\<open>setRelais\<close> and
  \<^verbatim>\<open>handleRelais\<close> are programs of single memory and pin accesses (\<open>micro\<close>), a configuration is
  the remaining programs of all tasks with the shared state, and \<open>par_step\<close> lets one task do its
  next access. As in \<open>setRelais\<close> and \<open>setRelaisDuration\<close>, the indeterminate pin of an invalid channel and the product
  of an overflow are arguments.

  Run alone, the programs are the functions of \<open>Device_Handler\<close>. A channel that only one task
  switches keeps register and pin together under every interleaving; two tasks on the same
  channel can leave them apart for good.
\<close>

datatype micro =
    ClearTimer int8_t
  | SetReg int8_t bool
  | WritePin "8 word" int8_t bool
  | Report int8_t bool
  | Arm cint cint cint millis_t
  | CheckTimer cint millis_t

definition setRelais_prog :: "8 word \<Rightarrow> int8_t \<Rightarrow> bool \<Rightarrow> micro list" where
  "setRelais_prog x c b = [ClearTimer c, SetReg c b, WritePin x c b, Report c b]"

definition handleRelais_prog :: "millis_t \<Rightarrow> micro list" where
  "handleRelais_prog now = [CheckTimer 1 now, CheckTimer 2 now]"

text \<open>
  One access: the new state, and the accesses it calls for (a timer found expired calls
  \<^verbatim>\<open>setRelais\<close>).
\<close>

fun exec ::
  "micro \<Rightarrow> ('j, 'z) device_state_scheme \<Rightarrow> micro list \<times> ('j, 'z) device_state_scheme" where
  "exec (ClearTimer c) s =
     ([], if c = 1 then s\<lparr>ch1 := - 1\<rparr> else if c = 2 then s\<lparr>ch2 := - 1\<rparr> else s)"
| "exec (SetReg c b) s =
     ([], if c = 1 then s\<lparr>relay1 := b\<rparr> else if c = 2 then s\<lparr>relay2 := b\<rparr> else s)"
| "exec (WritePin x c b) s =
     ([], if c = 1 then emit (DigitalWrite RELAIS_CH1 b) s
          else if c = 2 then emit (DigitalWrite RELAIS_CH2 b) s
          else emit (DigitalWrite (unat x) b) (emit (Undefined UninitialisedPin) s))"
| "exec (Report c b) s =
     ([], emit (SerialOut [Text ''Relais '', Dec (scast c), Text '' set to '', Flag b]) s)"
| "exec (Arm v c d now) s = ([], setRelaisDuration v c d now s)"
| "exec (CheckTimer c now) s = (if expired c now s then setRelais_prog unread (ucast c) False else [], s)"

fun cost :: "micro \<Rightarrow> nat" where
  "cost (CheckTimer c now) = 5"
| "cost _ = 1"

text \<open>A program without interference.\<close>

function alone :: "micro list \<Rightarrow> ('j, 'z) device_state_scheme \<Rightarrow> ('j, 'z) device_state_scheme" where
  "alone [] s = s"
| "alone (m # ms) s = alone (fst (exec m s) @ ms) (snd (exec m s))"
  by pat_completeness auto
termination
proof (relation "measure (\<lambda>(ms, s). sum_list (map cost ms))")
  fix m ms and s :: "('j, 'z) device_state_scheme"
  have "sum_list (map cost (fst (exec m s))) < cost m"
    by (cases m) (auto simp: setRelais_prog_def)
  then show "((fst (exec m s) @ ms, snd (exec m s)), m # ms, s) \<in> measure (\<lambda>(ms, s). sum_list (map cost ms))"
    by simp
qed simp

inductive par_step ::
  "micro list list \<times> ('j, 'z) device_state_scheme \<Rightarrow>
   micro list list \<times> ('j, 'z) device_state_scheme \<Rightarrow> bool" where
  access: "i < length Ts \<Longrightarrow> Ts ! i = m # ms \<Longrightarrow> exec m s = (ms', s') \<Longrightarrow>
    par_step (Ts, s) (Ts[i := ms' @ ms], s')"

inductive_cases par_stepE: "par_step (Ts, s) (Ts', s')"

definition finished :: "micro list list \<Rightarrow> bool" where
  "finished Ts = list_all (\<lambda>ms. ms = []) Ts"

subsection \<open>One task\<close>

lemma run_prefix:
  assumes "i < length Ts" and "Ts ! i = ms @ rest"
  shows "par_step\<^sup>*\<^sup>* (Ts, s) (Ts[i := rest], alone ms s)"
  using assms
proof (induction ms s arbitrary: Ts rule: alone.induct)
  case (1 s)
  then show ?case by (metis alone.simps(1) append_Nil list_update_id rtranclp.rtrancl_refl)
next
  case (2 m ms s)
  let ?Ts = "Ts[i := (fst (exec m s) @ ms) @ rest]"
  have "par_step (Ts, s) (?Ts, snd (exec m s))"
    using par_step.access [of i Ts m "ms @ rest" s "fst (exec m s)" "snd (exec m s)"] "2.prems" by simp
  moreover have "par_step\<^sup>*\<^sup>* (?Ts, snd (exec m s)) (?Ts[i := rest], alone (m # ms) s)"
    using "2.IH" [of ?Ts] "2.prems" by simp
  ultimately show ?case by (simp add: converse_rtranclp_into_rtranclp)
qed

lemma alone_append: "alone (xs @ ys) s = alone ys (alone xs s)"
  by (induction xs s rule: alone.induct) simp_all

lemma alone_setRelais: "alone (setRelais_prog x c b) s = setRelais x c b s"
  by (simp add: setRelais_prog_def setRelais_def)

lemma alone_check:
  "channel_ok c \<Longrightarrow> alone [CheckTimer c now] s = (if expired c now s then setRelais unread (ucast c) False s else s)"
  by (simp flip: alone_setRelais)

lemma alone_handleRelais: "alone (handleRelais_prog now) s = handleRelais now s"
proof -
  have "alone (handleRelais_prog now) s = alone [CheckTimer 2 now] (alone [CheckTimer 1 now] s)"
    by (simp add: handleRelais_prog_def flip: alone_append)
  then show ?thesis
    by (simp add: alone_setRelais handleRelais_def expired_def deadline_def Let_def)
qed

text \<open>The calls of a task, and the accesses of a sequence of calls.\<close>

datatype call = SetRelais "8 word" int8_t bool | SetDuration cint cint cint millis_t | HandleRelais millis_t

fun code :: "call \<Rightarrow> micro list" where
  "code (SetRelais x c b) = setRelais_prog x c b"
| "code (SetDuration v c d now) = [Arm v c d now]"
| "code (HandleRelais now) = handleRelais_prog now"

fun run_call :: "call \<Rightarrow> ('j, 'z) device_state_scheme \<Rightarrow> ('j, 'z) device_state_scheme" where
  "run_call (SetRelais x c b) s = setRelais x c b s"
| "run_call (SetDuration v c d now) s = setRelaisDuration v c d now s"
| "run_call (HandleRelais now) s = handleRelais now s"

definition task :: "call list \<Rightarrow> micro list" where
  "task cs = concat (map code cs)"

lemma task_simps [simp]: "task [] = []" "task (c # cs) = code c @ task cs"
  by (simp_all add: task_def)

lemma alone_code: "alone (code c) s = run_call c s"
  by (cases c) (simp_all add: alone_setRelais alone_handleRelais)

subsection \<open>One task per channel\<close>

fun touches :: "int8_t \<Rightarrow> micro \<Rightarrow> bool" where
  "touches k (SetReg j b) = (j = k)"
| "touches k (WritePin x j b) = (j = k \<or> j \<noteq> 1 \<and> j \<noteq> 2)"
| "touches k (CheckTimer c now) = (ucast c = k \<or> (ucast c :: int8_t) \<noteq> 1 \<and> (ucast c :: int8_t) \<noteq> 2)"
| "touches k _ = False"

fun switches :: "int8_t \<Rightarrow> call \<Rightarrow> bool" where
  "switches k (SetRelais x j b) = (j = k)"
| "switches k (SetDuration v c d now) = False"
| "switches k (HandleRelais now) = (k = 1 \<or> k = 2)"

text \<open>The calls that do not write an indeterminate pin.\<close>

fun names_relay :: "call \<Rightarrow> bool" where
  "names_relay (SetRelais x j b) = (j = 1 \<or> j = 2)"
| "names_relay _ = True"

fun paired :: "int8_t \<Rightarrow> micro list \<Rightarrow> bool" where
  "paired k [] = True"
| "paired k (SetReg j b # ms) =
     (if j = k then (case ms of WritePin x j' b' # ms' \<Rightarrow> j' = k \<and> b' = b \<and> paired k ms' | _ \<Rightarrow> False)
      else paired k ms)"
| "paired k (WritePin x j b # ms) = (j \<noteq> k \<and> (j = 1 \<or> j = 2) \<and> paired k ms)"
| "paired k (CheckTimer c now # ms) =
     (((ucast c :: int8_t) = 1 \<or> (ucast c :: int8_t) = 2) \<and> paired k ms)"
| "paired k (_ # ms) = paired k ms"

definition in_sync :: "cint \<Rightarrow> ('j, 'z) device_state_scheme \<Rightarrow> bool" where
  "in_sync c s = (getState c s = relay_pin c s)"

definition midway :: "cint \<Rightarrow> micro list \<Rightarrow> ('j, 'z) device_state_scheme \<Rightarrow> bool" where
  "midway c ms s = (case ms of WritePin x j b # ms' \<Rightarrow> j = ucast c \<and> getState c s = b \<and> paired j ms' | _ \<Rightarrow> False)"

definition owner_ok :: "cint \<Rightarrow> micro list \<Rightarrow> ('j, 'z) device_state_scheme \<Rightarrow> bool" where
  "owner_ok c ms s = (in_sync c s \<and> paired (ucast c) ms \<or> midway c ms s)"

lemma paired_setRelais [simp]:
  "j = 1 \<or> j = 2 \<Longrightarrow> paired k (setRelais_prog x j b @ ms) = paired k ms"
  by (simp add: setRelais_prog_def)

lemma paired_task: "list_all names_relay cs \<Longrightarrow> paired k (task cs)"
proof (induction cs)
  case (Cons c cs)
  then show ?case by (cases c) (simp_all add: handleRelais_prog_def)
qed simp

lemma untouched_setRelais:
  "j \<noteq> k \<Longrightarrow> j = 1 \<or> j = 2 \<Longrightarrow> list_all (\<lambda>m. \<not> touches k m) (setRelais_prog x j b)"
  by (auto simp add: setRelais_prog_def)

lemma untouched_task:
  assumes "k = 1 \<or> k = 2" and "list_all (\<lambda>c. \<not> switches k c) cs" and "list_all names_relay cs"
  shows "list_all (\<lambda>m. \<not> touches k m) (task cs)"
  using assms(2,3)
proof (induction cs)
  case (Cons c cs)
  then show ?case using assms(1) by (cases c) (auto simp: untouched_setRelais)
qed simp

lemma pin_level_regs [simp]:
  "pin_level p (s\<lparr>ch1 := t\<rparr>) = pin_level p s" "pin_level p (s\<lparr>ch2 := t\<rparr>) = pin_level p s"
  "pin_level p (s\<lparr>relay1 := b\<rparr>) = pin_level p s" "pin_level p (s\<lparr>relay2 := b\<rparr>) = pin_level p s"
  by (simp_all add: pin_level_def)

lemma exec_frame:
  assumes "channel_ok c" and "\<not> touches (ucast c) m"
  shows "getState c (snd (exec m s)) = getState c s" "relay_pin c (snd (exec m s)) = relay_pin c s"
    "list_all (\<lambda>m. \<not> touches (ucast c) m) (fst (exec m s))"
proof -
  show "getState c (snd (exec m s)) = getState c s"
    using assms by (cases m) (auto simp: getState_def)
  show "relay_pin c (snd (exec m s)) = relay_pin c s"
    using assms by (cases m) (auto simp: relay_pin_def pin_level_emit RELAIS_CH1_def RELAIS_CH2_def)
  show "list_all (\<lambda>m. \<not> touches (ucast c) m) (fst (exec m s))"
    using assms by (cases m) (auto simp: untouched_setRelais)
qed

lemma exec_owner:
  assumes c: "channel_ok c" and ok: "owner_ok c (m # ms) s"
  shows "owner_ok c (fst (exec m s) @ ms) (snd (exec m s))"
proof (cases "touches (ucast c) m")
  case False
  then have "in_sync c s" "paired (ucast c) (m # ms)"
    using ok by (auto simp: owner_ok_def midway_def split: micro.splits)
  moreover from this False have "paired (ucast c) (fst (exec m s) @ ms)"
    by (cases m) auto
  ultimately show ?thesis
    using exec_frame [OF c False, of s] by (simp add: owner_ok_def in_sync_def)
next
  case True
  then show ?thesis
  proof (cases m)
    case (SetReg j b)
    then obtain x ms' where "ms = WritePin x j b # ms'" "paired j ms'" "j = ucast c"
      using True ok by (auto simp: owner_ok_def midway_def split: list.splits micro.splits)
    then show ?thesis using SetReg c by (auto simp: owner_ok_def midway_def getState_def)
  next
    case (WritePin x j b)
    then show ?thesis using True ok c
      by (auto simp: owner_ok_def midway_def in_sync_def getState_def relay_pin_def pin_level_emit
          RELAIS_CH1_def RELAIS_CH2_def)
  next
    case (CheckTimer c' now)
    then show ?thesis using ok by (auto simp: owner_ok_def midway_def)
  qed simp_all
qed

definition one_owner ::
  "cint \<Rightarrow> nat \<Rightarrow> micro list list \<times> ('j, 'z) device_state_scheme \<Rightarrow> bool" where
  "one_owner c i = (\<lambda>(Ts, s). i < length Ts \<and> owner_ok c (Ts ! i) s \<and>
     (\<forall>j < length Ts. j \<noteq> i \<longrightarrow> list_all (\<lambda>m. \<not> touches (ucast c) m) (Ts ! j)))"

lemma one_owner_step:
  assumes c: "channel_ok c" and inv: "one_owner c i (Ts, s)" and step: "par_step (Ts, s) (Ts', s')"
  shows "one_owner c i (Ts', s')"
proof -
  obtain k m ms ms' where 1: "Ts' = Ts[k := ms' @ ms]" "k < length Ts" "Ts ! k = m # ms"
      "exec m s = (ms', s')"
    using step by (rule par_stepE)
  note own = exec_owner [OF c, of m ms s, unfolded 1(4) fst_conv snd_conv]
  note frm = exec_frame [OF c, of m s, unfolded 1(4) fst_conv snd_conv]
  show ?thesis
  proof (cases "k = i")
    case True
    then have "owner_ok c (ms' @ ms) s'" using 1(3) inv own by (auto simp: one_owner_def)
    then show ?thesis using 1(1,2) inv True by (auto simp: one_owner_def)
  next
    case False
    then have q: "\<not> touches (ucast c) m" "list_all (\<lambda>m. \<not> touches (ucast c) m) ms"
      using 1(2,3) inv by (auto simp: one_owner_def)
    have "owner_ok c (Ts ! i) s'"
      using inv frm(1,2) [OF q(1)] 
      by (simp add: one_owner_def owner_ok_def in_sync_def midway_def cong: list.case_cong micro.case_cong)
    then show ?thesis using 1(1,2) inv False q(2) frm(3) [OF q(1)]
      by (auto simp: one_owner_def nth_list_update)
  qed
qed

lemma one_owner_run:
  assumes "par_step\<^sup>*\<^sup>* (Ts, s) (Ts', s')" and "channel_ok c" and "one_owner c i (Ts, s)"
  shows "one_owner c i (Ts', s')"
  using assms(1,3)
  by (induction rule: rtranclp_induct2) (auto intro: one_owner_step [OF assms(2)])

lemma par_steps_trans:
  "par_step\<^sup>*\<^sup>* x y \<Longrightarrow> par_step\<^sup>*\<^sup>* y z \<Longrightarrow> par_step\<^sup>*\<^sup>* x z"
  by (rule rtranclp_trans)

text \<open>
  Two tasks: the first stops after a part of its program, the second runs to its end, the first
  goes on.
\<close>
lemma preempted:
  "par_step\<^sup>*\<^sup>* ([xs @ ys, zs], s) ([[], []], alone ys (alone zs (alone xs s)))"
proof -
  have "par_step\<^sup>*\<^sup>* ([xs @ ys, zs], s) ([ys, zs], alone xs s)"
    using run_prefix [of 0 "[xs @ ys, zs]" xs ys s] by simp
  moreover have "par_step\<^sup>*\<^sup>* ([ys, zs], alone xs s) ([ys, []], alone zs (alone xs s))"
    using run_prefix [of 1 "[ys, zs]" zs "[]" "alone xs s"] by simp
  moreover have "par_step\<^sup>*\<^sup>* ([ys, []], alone zs (alone xs s)) ([[], []], alone ys (alone zs (alone xs s)))"
    using run_prefix [of 0 "[ys, []]" ys "[]" "alone zs (alone xs s)"] by simp
  ultimately show ?thesis by (blast intro: par_steps_trans)
qed

subsection \<open>Properties\<close>

text \<open>
  The single accesses, done by one task without interference, are the handlers: any sequence
  of \<^verbatim>\<open>setRelais\<close>, \<^verbatim>\<open>setRelaisDuration\<close> and \<^verbatim>\<open>handleRelais\<close> calls has the effect, events included,
  of the functions that model them as a whole.
\<close>
lemma accesses_are_calls:
  "alone (task cs) s = fold run_call cs s"
  by (induction cs arbitrary: s) (simp_all add: alone_append alone_code)

text \<open>
  C16: Without locks, the register and the pin of a channel still agree after every interleaving
  of any number of tasks, if only one of them switches the channel and no task names a channel
  other than 1 and 2: the other tasks may switch the other channel and may arm timers.
\<close>
theorem one_task_per_channel:
  assumes "channel_ok c" and "i < length Css"
    and "\<forall>j < length Css. j \<noteq> i \<longrightarrow> list_all (\<lambda>k. \<not> switches (ucast c) k) (Css ! j)"
    and "list_all (list_all names_relay) Css" and "getState c s = relay_pin c s"
    and "par_step\<^sup>*\<^sup>* (map task Css, s) (Ts, s')" and "finished Ts"
  shows "getState c s' = relay_pin c s'"
proof -
  have "(ucast c :: int8_t) = 1 \<or> (ucast c :: int8_t) = 2" using assms(1) by auto
  then have "one_owner c i (map task Css, s)"
    using assms(2-5) untouched_task
    by (auto simp: one_owner_def owner_ok_def in_sync_def paired_task list_all_length)
  then have "one_owner c i (Ts, s')" using one_owner_run assms(1,6) by blast
  moreover from this have "Ts ! i = []"
    using assms(7) by (auto simp: one_owner_def finished_def list_all_length)
  ultimately show ?thesis by (simp add: one_owner_def owner_ok_def midway_def in_sync_def)
qed

theorem one_task_per_channel_witness:
  "\<exists>s'. par_step\<^sup>*\<^sup>* (map task [[SetRelais unread 1 True], [SetDuration 0 1 5 100]], demo_device) ([[], []], s') \<and>
     relay_pin 1 s' \<and> getState 1 s' = relay_pin 1 s'"
proof -
  let ?s = "alone (task [SetDuration 0 1 5 100]) (alone (task [SetRelais unread 1 True]) demo_device)"
  have run: "par_step\<^sup>*\<^sup>* (map task [[SetRelais unread 1 True], [SetDuration 0 1 5 100]], demo_device) ([[], []], ?s)"
    using preempted [of "task [SetRelais unread 1 True]" "[]" "task [SetDuration 0 1 5 100]" demo_device] by simp
  moreover have "relay_pin 1 ?s"
    by (simp add: setRelais_prog_def relay_pin_def pin_level_emit RELAIS_CH1_def)
  moreover have "getState 1 demo_device = relay_pin 1 demo_device"
    by (simp add: demo_device_def getState_def relay_pin_def pin_level_def)
  ultimately show ?thesis
    using one_task_per_channel [OF _ _ _ _ _ run, of 1 0]
    by (intro exI [of _ ?s]) (simp add: finished_def less_Suc_eq)
qed

text \<open>
  C17: Two tasks that switch the same channel can leave its register and its pin different for
  good: if the web task runs \<^verbatim>\<open>setRelais\<close> between the assignment and the \<^verbatim>\<open>digitalWrite\<close> of a call
  in the main loop, the program reports the state the web task asked for and the pin has the
  other one. With \<open>b\<close> true the pump runs while \<^verbatim>\<open>getState\<close> says it is off.
\<close>
theorem register_pin_race:
  assumes "channel_ok c"
  shows "\<exists>s'. par_step\<^sup>*\<^sup>*
      ([task [SetRelais x (ucast c) b], task [SetRelais x' (ucast c) (\<not> b)]], s) ([[], []], s') \<and>
    getState c s' = (\<not> b) \<and> relay_pin c s' = b"
proof -
  let ?k = "ucast c :: int8_t"
  let ?xs = "[ClearTimer ?k, SetReg ?k b]" and ?ys = "[WritePin x ?k b, Report ?k b]"
  let ?s = "alone ?ys (alone (task [SetRelais x' ?k (\<not> b)]) (alone ?xs s))"
  have "task [SetRelais x ?k b] = ?xs @ ?ys" by (simp add: setRelais_prog_def)
  then have "par_step\<^sup>*\<^sup>* ([task [SetRelais x ?k b], task [SetRelais x' ?k (\<not> b)]], s) ([[], []], ?s)"
    by (simp only: preempted)
  moreover have "getState c ?s = (\<not> b) \<and> relay_pin c ?s = b"
    using assms
    by (auto simp: setRelais_prog_def getState_def relay_pin_def pin_level_emit RELAIS_CH1_def
        RELAIS_CH2_def)
  ultimately show ?thesis by blast
qed

theorem register_pin_race_witness:
  "\<exists>s'. par_step\<^sup>*\<^sup>* ([task [SetRelais unread 1 True], task [SetRelais unread 1 False]], demo_device) ([[], []], s') \<and>
     getState 1 s' = False \<and> relay_pin 1 s' = True"
  using register_pin_race [of 1 unread True unread demo_device] by simp

text \<open>
  C30: A command to switch a relay on is lost when it arrives while the main loop is between the
  test of an expired timer and the switch-off: the relay ends up off, although it is on if the
  command comes before or after the whole \<^verbatim>\<open>handleRelais\<close> call.
\<close>
theorem lost_switch_on:
  assumes "expired 1 now s"
  shows "getState 1 (fold run_call [HandleRelais now, SetRelais x 1 True] s) \<and>
    getState 1 (fold run_call [SetRelais x 1 True, HandleRelais now] s) \<and>
    (\<exists>s'. par_step\<^sup>*\<^sup>* ([task [HandleRelais now], task [SetRelais x 1 True]], s) ([[], []], s') \<and>
      \<not> getState 1 s' \<and> \<not> relay_pin 1 s')"
proof (intro conjI)
  show "getState 1 (fold run_call [HandleRelais now, SetRelais x 1 True] s)"
    by (simp add: getState_def setRelais_regs)
  show "getState 1 (fold run_call [SetRelais x 1 True, HandleRelais now] s)"
    by (simp add: getState_def handleRelais_def setRelais_regs Let_def)
  let ?zs = "task [SetRelais x 1 True]"
  let ?rest = "setRelais_prog unread 1 False @ [CheckTimer 2 now]"
  have "par_step ([task [HandleRelais now], ?zs], s) ([[] @ ?rest, ?zs], s)"
    using par_step.access [of 0 "[task [HandleRelais now], ?zs]" "CheckTimer 1 now" "[CheckTimer 2 now]" s]
      assms by (simp add: handleRelais_prog_def)
  then have "par_step\<^sup>*\<^sup>* ([task [HandleRelais now], ?zs], s) ([[], []], alone ?rest (alone ?zs s))"
    using preempted [of "[]" ?rest ?zs s] by (simp add: converse_rtranclp_into_rtranclp)
  moreover have "\<not> getState 1 (alone ?rest (alone ?zs s)) \<and> \<not> relay_pin 1 (alone ?rest (alone ?zs s))"
    by (simp add: alone_append alone_setRelais getState_def relay_pin_def setRelais_regs setRelais_pin)
  ultimately show "\<exists>s'. par_step\<^sup>*\<^sup>* ([task [HandleRelais now], ?zs], s) ([[], []], s') \<and>
      \<not> getState 1 s' \<and> \<not> relay_pin 1 s'"
    by blast
qed

theorem lost_switch_on_witness:
  "\<exists>s'. par_step\<^sup>*\<^sup>* ([task [HandleRelais 6000], task [SetRelais unread 1 True]], switch_on_for 1 5 0 demo_device)
       ([[], []], s') \<and> \<not> getState 1 s' \<and> \<not> relay_pin 1 s'"
proof -
  have "expired 1 6000 (switch_on_for 1 5 0 demo_device)"
    by (simp add: expired_def switch_on_for_channel fits_ms_def)
  from lost_switch_on [OF this] show ?thesis by blast
qed

end
