(* ===== verification/Matter_Handler.thy ===== *)
theory Matter_Handler
  imports Relay_Timer
begin

text \<open>
  \<^verbatim>\<open>disabled/MatterHandler.cpp\<close>: the two relays as Matter on/off devices. The repository keeps the
  handler out of the build for want of flash memory (\<^verbatim>\<open>MATTER.md\<close>; its calls in \<^verbatim>\<open>main.cpp\<close> are
  comments), so it is no part of \<open>Firmware\<close>. \<open>deviceConnected\<close> and \<open>manualPairingCode\<close> are what the
  library's \<^verbatim>\<open>isDeviceConnected\<close> and \<^verbatim>\<open>getManualPairingCode\<close> return.

  The Matter library calls the listeners that \<open>beginPlugins\<close> registers: when a controller changes a
  device, and from \<^verbatim>\<open>updateAccessory\<close>, which \<^verbatim>\<open>loop\<close> calls in every pass. What the library does
  inside \<^verbatim>\<open>updateAccessory\<close> is an argument of the model, one per call: the state it passes to the
  listener, or \<open>None\<close> when it does not call it.
\<close>

definition beginPlugins :: "('j, 'z) device_state_scheme \<Rightarrow> ('j, 'z) device_state_scheme" where
  "beginPlugins s =
     emits [Matter (PluginBegin 1), Matter (PluginOnChange 1),
            Matter (PluginBegin 2), Matter (PluginOnChange 2)] s"

text \<open>The two listeners. The value they return is the state the accessory shows.\<close>

definition mrelay1_onChange ::
  "bool \<Rightarrow> ('j, 'z) device_state_scheme \<Rightarrow> bool \<times> ('j, 'z) device_state_scheme" where
  "mrelay1_onChange cond s = (let s1 = setRelais unread 1 cond s in (cond, s1))"

definition mrelay2_onChange ::
  "bool \<Rightarrow> ('j, 'z) device_state_scheme \<Rightarrow> bool \<times> ('j, 'z) device_state_scheme" where
  "mrelay2_onChange cond s = (let s1 = setRelais unread 2 cond s in (cond, s1))"

definition MatterHandler_setup :: "('j, 'z) device_state_scheme \<Rightarrow> ('j, 'z) device_state_scheme" where
  "MatterHandler_setup s = emit (Matter MatterBegin) (beginPlugins s)"

definition updateAccessory1 ::
  "bool option \<Rightarrow> ('j, 'z) device_state_scheme \<Rightarrow> ('j, 'z) device_state_scheme" where
  "updateAccessory1 cb s =
     (let s1 = emit (Matter (UpdateAccessory 1)) s
      in case cb of None \<Rightarrow> s1 | Some cond \<Rightarrow> snd (mrelay1_onChange cond s1))"

definition updateAccessory2 ::
  "bool option \<Rightarrow> ('j, 'z) device_state_scheme \<Rightarrow> ('j, 'z) device_state_scheme" where
  "updateAccessory2 cb s =
     (let s1 = emit (Matter (UpdateAccessory 2)) s
      in case cb of None \<Rightarrow> s1 | Some cond \<Rightarrow> snd (mrelay2_onChange cond s1))"

definition MatterHandler_loop ::
  "bool \<Rightarrow> bool option \<Rightarrow> bool option \<Rightarrow> ('j, 'z) device_state_scheme \<Rightarrow> ('j, 'z) device_state_scheme" where
  "MatterHandler_loop deviceConnected cb1 cb2 s =
     (if deviceConnected then updateAccessory2 cb2 (updateAccessory1 cb1 s) else s)"

definition getPairingCode :: "string \<Rightarrow> string" where
  "getPairingCode manualPairingCode = manualPairingCode"

text \<open>The listener of a channel.\<close>

definition mrelay_onChange ::
  "cint \<Rightarrow> bool \<Rightarrow> ('j, 'z) device_state_scheme \<Rightarrow> bool \<times> ('j, 'z) device_state_scheme" where
  "mrelay_onChange c = (if c = 1 then mrelay1_onChange else mrelay2_onChange)"

lemma mrelay_channel:
  assumes "channel_ok c" and "channel_ok d"
  shows "fst (mrelay_onChange c b s) = b"
    and "getState d (snd (mrelay_onChange c b s)) = (if d = c then b else getState d s)"
    and "relay_pin d (snd (mrelay_onChange c b s)) = (if d = c then b else relay_pin d s)"
    and "deadline d (snd (mrelay_onChange c b s)) = (if d = c then - 1 else deadline d s)"
  using assms
  by (auto simp: mrelay_onChange_def mrelay1_onChange_def mrelay2_onChange_def getState_def relay_pin_def
      deadline_def setRelais_regs setRelais_pin Let_def)

lemma matter_setup_regs [simp]:
  "getState c (MatterHandler_setup s) = getState c s" "deadline c (MatterHandler_setup s) = deadline c s"
  "relay_pin c (MatterHandler_setup s) = relay_pin c s"
  by (simp_all add: MatterHandler_setup_def beginPlugins_def getState_def deadline_def relay_pin_def
      pin_level_def pin_after_append)

text \<open>The state that a pass of the loop hands to the listener of a channel, if any.\<close>

definition called_with :: "cint \<Rightarrow> bool \<Rightarrow> bool option \<Rightarrow> bool option \<Rightarrow> bool option" where
  "called_with c deviceConnected cb1 cb2 =
     (if \<not> deviceConnected then None else if c = 1 then cb1 else cb2)"

lemma update_channel:
  assumes "channel_ok c"
  shows "getState c (MatterHandler_loop up cb1 cb2 s) =
      (case called_with c up cb1 cb2 of None \<Rightarrow> getState c s | Some b \<Rightarrow> b)"
    and "relay_pin c (MatterHandler_loop up cb1 cb2 s) =
      (case called_with c up cb1 cb2 of None \<Rightarrow> relay_pin c s | Some b \<Rightarrow> b)"
    and "deadline c (MatterHandler_loop up cb1 cb2 s) =
      (case called_with c up cb1 cb2 of None \<Rightarrow> deadline c s | Some b \<Rightarrow> - 1)"
  using assms
  by (auto simp: MatterHandler_loop_def updateAccessory1_def updateAccessory2_def called_with_def
      mrelay1_onChange_def mrelay2_onChange_def getState_def relay_pin_def deadline_def setRelais_regs
      setRelais_pin pin_level_emit Let_def split: option.splits)

text \<open>A run of the main loop with the handler built in: passes of \<^verbatim>\<open>loop\<close> and timer checks.\<close>

datatype pass = MatterPass bool "bool option" "bool option" | TimerPass millis_t

fun run_pass :: "pass \<Rightarrow> ('j, 'z) device_state_scheme \<Rightarrow> ('j, 'z) device_state_scheme" where
  "run_pass (MatterPass up cb1 cb2) s = MatterHandler_loop up cb1 cb2 s"
| "run_pass (TimerPass now) s = handleRelais now s"

fun repeats :: "cint \<Rightarrow> bool \<Rightarrow> pass \<Rightarrow> bool" where
  "repeats c b (MatterPass up cb1 cb2) = (called_with c up cb1 cb2 \<in> {None, Some b})"
| "repeats c b (TimerPass now) = True"

lemma run_pass_keeps:
  assumes "channel_ok c" and "list_all (repeats c b) ps"
    and "getState c s = b" and "relay_pin c s = b" and "deadline c s = - 1"
  shows "getState c (fold run_pass ps s) = b \<and> relay_pin c (fold run_pass ps s) = b \<and>
    deadline c (fold run_pass ps s) = - 1"
  using assms(2-5)
proof (induction ps arbitrary: s)
  case (Cons p ps)
  have "getState c (run_pass p s) = b \<and> relay_pin c (run_pass p s) = b \<and> deadline c (run_pass p s) = - 1"
    using Cons.prems assms(1)
    by (cases p) (auto simp: update_channel handleRelais_channel expired_def)
  then show ?case using Cons by simp
qed simp

text \<open>
  C34: A change made by a Matter controller reaches the relay: the listener answers the requested
  state, register and pin take it and the switch-off timer of the channel is cancelled, while
  register, pin and timer of the other channel stay. It lasts as long as the library repeats no
  other state: over any later passes of \<^verbatim>\<open>MatterHandler::loop\<close> and \<^verbatim>\<open>handleRelais\<close> in which
  \<^verbatim>\<open>updateAccessory\<close> calls the listener of the channel with that state or not at all, register and
  pin keep it. And the library has the last word: a pass in which \<^verbatim>\<open>updateAccessory\<close> calls the
  listener with a state gives the relay that state and cancels its timer, whatever a request or
  the automation had set before.
\<close>
theorem matter_switches_relay:
  assumes "channel_ok c" and "channel_ok d" and "d \<noteq> c" and "list_all (repeats c b) ps"
  shows "fst (mrelay_onChange c b s) = b \<and>
    (let t = snd (mrelay_onChange c b (MatterHandler_setup s)) in
       deadline c t = - 1 \<and> getState d t = getState d s \<and> relay_pin d t = relay_pin d s \<and>
       deadline d t = deadline d s \<and>
       getState c (fold run_pass ps t) = b \<and> relay_pin c (fold run_pass ps t) = b) \<and>
    (called_with c up cb1 cb2 = Some b' \<longrightarrow>
       (let t = MatterHandler_loop up cb1 cb2 s in
          getState c t = b' \<and> relay_pin c t = b' \<and> deadline c t = - 1))"
proof -
  let ?t = "snd (mrelay_onChange c b (MatterHandler_setup s))"
  note c = mrelay_channel [OF assms(1,1)] and d = mrelay_channel [OF assms(1,2), of b "MatterHandler_setup s"]
  have t: "getState c ?t = b" "relay_pin c ?t = b" "deadline c ?t = - 1"
    using c [of b "MatterHandler_setup s"] by simp_all
  then have "getState c (fold run_pass ps ?t) = b \<and> relay_pin c (fold run_pass ps ?t) = b"
    using run_pass_keeps [OF assms(1,4), of ?t] by simp
  then show ?thesis
    using c(1) [of b s] t(3) d(2-4) assms(3) update_channel [OF assms(1), of up cb1 cb2 s]
    by (simp add: Let_def)
qed

theorem matter_switches_relay_witness:
  "(let t = snd (mrelay_onChange 2 True (MatterHandler_setup demo_device)) in
      relay_pin 2 (fold run_pass [MatterPass True (Some False) (Some True), TimerPass 1000,
        MatterPass False None None, TimerPass 4294967295] t) = True) \<and>
   \<not> relay_pin 2 (MatterHandler_loop True None (Some False) (switch_on_for 2 60 0 demo_device))"
  using matter_switches_relay [of 2 1 True "[MatterPass True (Some False) (Some True), TimerPass 1000,
        MatterPass False None None, TimerPass 4294967295]" demo_device True None "Some False" False]
    matter_switches_relay [of 2 1 True "[]" "switch_on_for 2 60 0 demo_device" True None "Some False" False]
  by (simp add: called_with_def Let_def)

end
