(* ===== verification/Automation_Handler.thy ===== *)
theory Automation_Handler
  imports Relay_Timer
begin

text \<open>
  \<^verbatim>\<open>src/AutomationHandler.cpp\<close>: automatic filling (relay 1) and emptying (relay 2) from the
  cached level. The globals of the file extend the device state.

  The specification of the filling is a two-point controller, \<open>fill_spec\<close>; the properties say
  that the handler implements it as long as nobody else switches relay 1, that the relays are
  off at the limits whatever happened before, and what happens after somebody else has
  switched relay 1 off.
\<close>

record 'j auto_state = "'j device_state" +
  mode :: cint
  maxL :: fl
  minL :: fl
  fillL :: fl
  fillM :: bool
  pumpM :: bool
  autoMillis :: millis_t

definition setPump :: "bool \<Rightarrow> ('j, 'z) auto_state_scheme \<Rightarrow> ('j, 'z) auto_state_scheme" where
  "setPump cond s = (setRelais unread PUMP_EMPTY cond s)\<lparr>pumpM := cond\<rparr>"

definition handlePump :: "('j, 'z) auto_state_scheme \<Rightarrow> ('j, 'z) auto_state_scheme" where
  "handlePump s = (if fl_less (minL s) (getLevelCached s) then setPump True s else setPump False s)"

definition setFill :: "bool \<Rightarrow> ('j, 'z) auto_state_scheme \<Rightarrow> ('j, 'z) auto_state_scheme" where
  "setFill cond s = (setRelais unread PUMP_FILL cond s)\<lparr>fillM := cond\<rparr>"

definition handleFill :: "('j, 'z) auto_state_scheme \<Rightarrow> ('j, 'z) auto_state_scheme" where
  "handleFill s =
     (if fl_less (getLevelCached s) (maxL s)
      then if \<not> fillM s \<and> fl_le (getLevelCached s) (fillL s) then setFill True s else s
      else setFill False s)"

definition AutomationHandler_loop ::
  "millis_t \<Rightarrow> ('j, 'z) auto_state_scheme \<Rightarrow> ('j, 'z) auto_state_scheme" where
  "AutomationHandler_loop now s =
     (if mode s \<noteq> 0
      then if AUTO_INTERVAL \<le> now - autoMillis s
           then (let s1 = s\<lparr>autoMillis := now\<rparr>
                 in if mode s1 = 1 then handlePump (handleFill s1)
                    else if mode s1 = 2 then handleFill s1
                    else if fillM s1 \<or> pumpM s1 then setFill False (setPump False s1) else s1)
           else s
      else s)"

definition AutomationHandler_setup ::
  "'j json_lib \<Rightarrow> ('j, 'z) auto_state_scheme \<Rightarrow> ('j, 'z) auto_state_scheme" where
  "AutomationHandler_setup J s =
     s\<lparr>mode := j_asInt J (j_path J (getConfig s) [''auto'', ''mode'']),
       maxL := j_asFloat J (j_path J (getConfig s) [''auto'', ''max'']),
       minL := j_asFloat J (j_path J (getConfig s) [''auto'', ''min'']),
       fillL := j_asFloat J (j_path J (getConfig s) [''auto'', ''fill''])\<rparr>"

definition isFilling :: "('j, 'z) auto_state_scheme \<Rightarrow> bool" where
  "isFilling s = fillM s"

definition isPumping :: "('j, 'z) auto_state_scheme \<Rightarrow> bool" where
  "isPumping s = pumpM s"

definition getMode :: "('j, 'z) auto_state_scheme \<Rightarrow> cint" where
  "getMode s = mode s"

text \<open>
  The intended behaviour of the filling: start at or below the lower threshold, keep filling
  up to the maximum, and never fill at or above it or without a valid level.
\<close>

definition fill_spec :: "fl \<Rightarrow> fl \<Rightarrow> fl \<Rightarrow> bool \<Rightarrow> bool" where
  "fill_spec lower upper level filling =
     (fl_less level upper \<and> (filling \<or> fl_le level lower))"

subsection \<open>Frames\<close>

lemma auto_emit [simp]:
  "mode (emit e s) = mode s" "maxL (emit e s) = maxL s" "minL (emit e s) = minL s"
  "fillL (emit e s) = fillL s" "fillM (emit e s) = fillM s" "pumpM (emit e s) = pumpM s"
  "autoMillis (emit e s) = autoMillis s"
  by (simp_all add: emit_def)

lemma setRelais_auto [frame, simp]:
  "mode (setRelais x c b s) = mode s" "maxL (setRelais x c b s) = maxL s"
  "minL (setRelais x c b s) = minL s" "fillL (setRelais x c b s) = fillL s"
  "fillM (setRelais x c b s) = fillM s" "pumpM (setRelais x c b s) = pumpM s"
  "autoMillis (setRelais x c b s) = autoMillis s"
  by (simp_all add: setRelais_def)

lemma auto_pin [simp]:
  "pin_level p (s\<lparr>fillM := b\<rparr>) = pin_level p s" "pin_level p (s\<lparr>pumpM := b\<rparr>) = pin_level p s"
  "pin_level p (s\<lparr>autoMillis := t\<rparr>) = pin_level p s"
  by (simp_all add: pin_level_def)

lemmas relais_simps = setRelais_regs setRelais_pin PUMP_FILL_def PUMP_EMPTY_def

lemma setFill_simps [simp]:
  "fillM (setFill b s) = b" "pumpM (setFill b s) = pumpM s" "mode (setFill b s) = mode s"
  "maxL (setFill b s) = maxL s" "minL (setFill b s) = minL s" "fillL (setFill b s) = fillL s"
  "autoMillis (setFill b s) = autoMillis s" "scanWaterLevel (setFill b s) = scanWaterLevel s"
  "relay1 (setFill b s) = b" "relay2 (setFill b s) = relay2 s"
  "relay_pin 1 (setFill b s) = b" "relay_pin 2 (setFill b s) = relay_pin 2 s"
  by (simp_all add: setFill_def relais_simps relay_pin_def)

lemma setPump_simps [simp]:
  "pumpM (setPump b s) = b" "fillM (setPump b s) = fillM s" "mode (setPump b s) = mode s"
  "maxL (setPump b s) = maxL s" "minL (setPump b s) = minL s" "fillL (setPump b s) = fillL s"
  "autoMillis (setPump b s) = autoMillis s" "scanWaterLevel (setPump b s) = scanWaterLevel s"
  "relay1 (setPump b s) = relay1 s" "relay2 (setPump b s) = b"
  "relay_pin 1 (setPump b s) = relay_pin 1 s" "relay_pin 2 (setPump b s) = b"
  by (simp_all add: setPump_def relais_simps relay_pin_def)

lemma handleFill_simps [simp]:
  "autoMillis (handleFill s) = autoMillis s" "mode (handleFill s) = mode s"
  "pumpM (handleFill s) = pumpM s" "scanWaterLevel (handleFill s) = scanWaterLevel s"
  "maxL (handleFill s) = maxL s" "minL (handleFill s) = minL s" "fillL (handleFill s) = fillL s"
  "relay2 (handleFill s) = relay2 s" "relay_pin 2 (handleFill s) = relay_pin 2 s"
  by (simp_all add: handleFill_def)

lemma handlePump_simps [simp]:
  "autoMillis (handlePump s) = autoMillis s" "mode (handlePump s) = mode s"
  "fillM (handlePump s) = fillM s" "scanWaterLevel (handlePump s) = scanWaterLevel s"
  "maxL (handlePump s) = maxL s" "minL (handlePump s) = minL s" "fillL (handlePump s) = fillL s"
  "relay1 (handlePump s) = relay1 s" "relay_pin 1 (handlePump s) = relay_pin 1 s"
  by (simp_all add: handlePump_def)

lemma handlePump_relay:
  "relay2 (handlePump s) = fl_less (minL s) (scanWaterLevel s)"
  "relay_pin 2 (handlePump s) = fl_less (minL s) (scanWaterLevel s)"
  "pumpM (handlePump s) = fl_less (minL s) (scanWaterLevel s)"
  by (simp_all add: handlePump_def getLevelCached_def)

lemma handleFill_relay:
  "fillM (handleFill s) = fill_spec (fillL s) (maxL s) (scanWaterLevel s) (fillM s)"
  "relay1 s = fillM s \<Longrightarrow> relay1 (handleFill s) = fillM (handleFill s)"
  "\<not> fl_less (scanWaterLevel s) (maxL s) \<Longrightarrow> \<not> relay1 (handleFill s)"
  "\<not> fl_less (scanWaterLevel s) (maxL s) \<Longrightarrow> \<not> relay_pin 1 (handleFill s)"
  by (simp_all add: handleFill_def fill_spec_def getLevelCached_def)

interpretation auto: periodic autoMillis "\<lambda>s. mode s \<noteq> 0" AUTO_INTERVAL
  "AutomationHandler_loop :: millis_t \<Rightarrow> ('j, 'z) auto_state_scheme \<Rightarrow> ('j, 'z) auto_state_scheme"
proof unfold_locales
  fix now and s :: "('j, 'z) auto_state_scheme"
  assume "\<not> due autoMillis (\<lambda>s. mode s \<noteq> 0) AUTO_INTERVAL now s"
  then show "AutomationHandler_loop now s = s"
    by (cases "mode s = 0"; cases "AUTO_INTERVAL \<le> now - autoMillis s")
      (simp_all add: due_def AutomationHandler_loop_def)
next
  fix now and s :: "('j, 'z) auto_state_scheme"
  assume "due autoMillis (\<lambda>s. mode s \<noteq> 0) AUTO_INTERVAL now s"
  then show "autoMillis (AutomationHandler_loop now s) = now"
    by (simp add: due_def AutomationHandler_loop_def Let_def)
qed

subsection \<open>Properties\<close>

text \<open>One tick of the automation, with the level the last scan has cached.\<close>

definition auto_due :: "millis_t \<Rightarrow> ('j, 'z) auto_state_scheme \<Rightarrow> bool" where
  "auto_due now s = (mode s \<noteq> 0 \<and> AUTO_INTERVAL \<le> now - autoMillis s)"

definition with_level :: "fl \<Rightarrow> ('j, 'z) auto_state_scheme \<Rightarrow> ('j, 'z) auto_state_scheme" where
  "with_level l s = s\<lparr>scanWaterLevel := l\<rparr>"

lemma with_level_simps [simp]:
  "scanWaterLevel (with_level l s) = l" "fillM (with_level l s) = fillM s"
  "pumpM (with_level l s) = pumpM s" "mode (with_level l s) = mode s"
  "maxL (with_level l s) = maxL s" "minL (with_level l s) = minL s" "fillL (with_level l s) = fillL s"
  "autoMillis (with_level l s) = autoMillis s" "relay1 (with_level l s) = relay1 s"
  "relay2 (with_level l s) = relay2 s" "relay_pin c (with_level l s) = relay_pin c s"
  by (simp_all add: with_level_def relay_pin_def pin_level_def)

lemma relay_pin_autoMillis [simp]: "relay_pin c (s\<lparr>autoMillis := t\<rparr>) = relay_pin c s"
  by (simp add: relay_pin_def)

lemma loop_mode1: "auto_due now s \<Longrightarrow> mode s = 1 \<Longrightarrow>
    AutomationHandler_loop now s = handlePump (handleFill (s\<lparr>autoMillis := now\<rparr>))"
  by (simp add: AutomationHandler_loop_def auto_due_def)

lemma loop_mode2: "auto_due now s \<Longrightarrow> mode s = 2 \<Longrightarrow>
    AutomationHandler_loop now s = handleFill (s\<lparr>autoMillis := now\<rparr>)"
  by (simp add: AutomationHandler_loop_def auto_due_def)

definition demo_auto :: "jv auto_state" where
  "demo_auto = device_state.extend demo_device
     \<lparr>mode = 1, maxL = FFin 90, minL = FFin 10, fillL = FFin 50, fillM = True, pumpM = True,
      autoMillis = 0\<rparr>"

lemma demo_auto_simps [simp]:
  "mode demo_auto = 1" "maxL demo_auto = FFin 90" "minL demo_auto = FFin 10"
  "fillL demo_auto = FFin 50" "fillM demo_auto" "pumpM demo_auto" "autoMillis demo_auto = 0"
  "\<not> relay1 demo_auto" "\<not> relay2 demo_auto" "scanWaterLevel demo_auto = FFin 0"
  by (simp_all add: demo_auto_def device_state.defs demo_device_def)

text \<open>
  C4: Overfill protection. A tick of the automation in the modes 1 and 2 that finds the level
  at or above the maximum, or no valid level (NaN), leaves the filling relay off, register and
  pin, whoever switched it on.
\<close>
theorem overfill_protection:
  assumes "mode s = 1 \<or> mode s = 2" and "auto_due now s"
    and "\<not> fl_less (getLevelCached s) (maxL s)"
  shows "\<not> getState 1 (AutomationHandler_loop now s) \<and>
    \<not> pin_level RELAIS_CH1 (AutomationHandler_loop now s) \<and>
    \<not> isFilling (AutomationHandler_loop now s)"
proof -
  let ?s = "handleFill (s\<lparr>autoMillis := now\<rparr>)"
  have "\<not> relay1 ?s \<and> \<not> relay_pin 1 ?s \<and> \<not> fillM ?s"
    using assms(3) by (simp add: handleFill_relay fill_spec_def getLevelCached_def)
  then have "\<not> relay1 (AutomationHandler_loop now s) \<and> \<not> relay_pin 1 (AutomationHandler_loop now s) \<and>
      \<not> fillM (AutomationHandler_loop now s)"
    using assms(1) loop_mode1 [OF assms(2)] loop_mode2 [OF assms(2)] by auto
  then show ?thesis by (simp add: getState_def relay_pin_def isFilling_def)
qed

theorem overfill_protection_witness:
  "\<not> getState 1 (AutomationHandler_loop 1000 (with_level (FFin 95) demo_auto)) \<and>
   \<not> pin_level RELAIS_CH1 (AutomationHandler_loop 1000 (with_level (FFin 95) demo_auto)) \<and>
   \<not> isFilling (AutomationHandler_loop 1000 (with_level (FFin 95) demo_auto))"
  by (rule overfill_protection) (simp_all add: auto_due_def AUTO_INTERVAL_def getLevelCached_def)

text \<open>
  C5: Dry-run protection. A tick in mode 1 runs the emptying pump exactly if the level is
  valid and above the minimum; at or below the minimum, or with NaN, the pump is off.
\<close>
theorem dry_run_protection:
  assumes "mode s = 1" and "auto_due now s"
  shows "getState 2 (AutomationHandler_loop now s) = fl_less (minL s) (getLevelCached s) \<and>
    pin_level RELAIS_CH2 (AutomationHandler_loop now s) = fl_less (minL s) (getLevelCached s) \<and>
    isPumping (AutomationHandler_loop now s) = fl_less (minL s) (getLevelCached s)"
proof -
  have "relay_pin 2 (AutomationHandler_loop now s) = fl_less (minL s) (scanWaterLevel s)"
    by (simp add: loop_mode1 [OF assms(2,1)] handlePump_relay)
  moreover have "relay2 (AutomationHandler_loop now s) = fl_less (minL s) (scanWaterLevel s)"
    and "pumpM (AutomationHandler_loop now s) = fl_less (minL s) (scanWaterLevel s)"
    by (simp_all add: loop_mode1 [OF assms(2,1)] handlePump_relay)
  ultimately show ?thesis
    by (simp add: getState_def relay_pin_def isPumping_def getLevelCached_def)
qed

theorem dry_run_protection_witness:
  "\<not> getState 2 (AutomationHandler_loop 1000 (with_level FNaN demo_auto)) \<and>
   getState 2 (AutomationHandler_loop 1000 (with_level (FFin 20) demo_auto))"
  using dry_run_protection [of "with_level FNaN demo_auto" 1000]
    dry_run_protection [of "with_level (FFin 20) demo_auto" 1000]
  by (simp add: auto_due_def AUTO_INTERVAL_def getLevelCached_def)

text \<open>
  A run of due ticks: each entry is the reading of the clock and the level the tick finds. A
  run is timely when every tick is at least an interval after the one before.
\<close>

definition auto_run ::
  "(millis_t \<times> fl) list \<Rightarrow> ('j, 'z) auto_state_scheme \<Rightarrow> ('j, 'z) auto_state_scheme" where
  "auto_run xs s = fold (\<lambda>(now, l) s. AutomationHandler_loop now (with_level l s)) xs s"

lemma auto_run_Cons:
  "auto_run ((now, l) # xs) s = auto_run xs (AutomationHandler_loop now (with_level l s))"
  by (simp add: auto_run_def)

lemma tick_frame:
  fixes l :: fl
  assumes "mode s = 1 \<or> mode s = 2" and "AUTO_INTERVAL \<le> now - autoMillis s"
  defines "t \<equiv> AutomationHandler_loop now (with_level l s)"
  shows "mode t = mode s" and "maxL t = maxL s" and "minL t = minL s" and "fillL t = fillL s"
    and "autoMillis t = now" and "fillM t = fill_spec (fillL s) (maxL s) l (fillM s)"
    and "relay1 s = fillM s \<Longrightarrow> relay1 t = fillM t"
    and "fillM s \<Longrightarrow> fl_less l (maxL s) \<Longrightarrow> relay1 t = relay1 s"
proof -
  have due: "auto_due now (with_level l s)" using assms(1,2) by (auto simp: auto_due_def)
  from assms(1) show "mode t = mode s" and "maxL t = maxL s" and "minL t = minL s"
    and "fillL t = fillL s" and "autoMillis t = now"
    and "fillM t = fill_spec (fillL s) (maxL s) l (fillM s)"
    by (auto simp: t_def loop_mode1 [OF due] loop_mode2 [OF due] handleFill_relay)
  from assms(1) show "relay1 s = fillM s \<Longrightarrow> relay1 t = fillM t"
    by (auto simp: t_def loop_mode1 [OF due] loop_mode2 [OF due] handleFill_relay)
  from assms(1) show "fillM s \<Longrightarrow> fl_less l (maxL s) \<Longrightarrow> relay1 t = relay1 s"
    by (auto simp: t_def loop_mode1 [OF due] loop_mode2 [OF due] handleFill_def getLevelCached_def)
qed

text \<open>
  C19: The filling implements its specification: over every run of timely ticks in the modes 1
  and 2 the state of relay 1 is that of the two-point controller \<open>fill_spec\<close>, folded over the
  levels, provided that only the automation switches the relay. The controller switches on at or below
  the filling level, as the code does; the comments in the source say below it, and the manual
  \<^verbatim>\<open>AUTOMATION.md\<close> says that the relay is enabled when the level exceeds it.
\<close>
theorem filling_refines_controller:
  assumes "mode s = 1 \<or> mode s = 2" and "getState 1 s = isFilling s"
    and "spaced AUTO_INTERVAL (autoMillis s # map fst xs)"
  shows "getState 1 (auto_run xs s) =
    fold (fill_spec (fillL s) (maxL s)) (map snd xs) (getState 1 s)"
  using assms
proof (induction xs arbitrary: s)
  case Nil
  then show ?case by (simp add: auto_run_def)
next
  case (Cons x xs)
  obtain now l where x: "x = (now, l)" by (cases x)
  let ?t = "AutomationHandler_loop now (with_level l s)"
  have "AUTO_INTERVAL \<le> now - autoMillis s" using Cons.prems(3) x by simp
  note t = tick_frame [OF Cons.prems(1) this, of l]
  have sync: "relay1 s = fillM s" using Cons.prems(2) by (simp add: getState_def isFilling_def)
  have "getState 1 (auto_run xs ?t) =
      fold (fill_spec (fillL ?t) (maxL ?t)) (map snd xs) (getState 1 ?t)"
    using Cons.prems t sync x by (intro Cons.IH) (auto simp: getState_def isFilling_def)
  then show ?case
    using t sync x by (simp add: auto_run_Cons getState_def)
qed

theorem filling_refines_controller_witness:
  "getState 1 (auto_run [(1000, FFin 40), (2000, FFin 80), (3000, FFin 91), (4000, FFin 60)]
     (demo_auto\<lparr>fillM := False\<rparr>)) = False \<and>
   getState 1 (auto_run [(1000, FFin 40), (2000, FFin 80)] (demo_auto\<lparr>fillM := False\<rparr>)) = True"
  using filling_refines_controller [of "demo_auto\<lparr>fillM := False\<rparr>"
      "[(1000, FFin 40), (2000, FFin 80), (3000, FFin 91), (4000, FFin 60)]"]
    filling_refines_controller [of "demo_auto\<lparr>fillM := False\<rparr>" "[(1000, FFin 40), (2000, FFin 80)]"]
  by (simp add: getState_def isFilling_def AUTO_INTERVAL_def fill_spec_def fl_le_def)

text \<open>
  C40: The automation does not notice that somebody else has switched the filling relay off:
  while its flag says filling and the level stays below the maximum, no tick switches the
  relay on again, however low the level falls.
\<close>
theorem filling_stays_off:
  assumes "mode s = 1 \<or> mode s = 2" and "isFilling s" and "\<not> getState 1 s"
    and "spaced AUTO_INTERVAL (autoMillis s # map fst xs)"
    and "list_all (\<lambda>(now, l). fl_less l (maxL s)) xs"
  shows "\<not> getState 1 (auto_run xs s) \<and> isFilling (auto_run xs s)"
  using assms
proof (induction xs arbitrary: s)
  case Nil
  then show ?case by (simp add: auto_run_def)
next
  case (Cons x xs)
  obtain now l where x: "x = (now, l)" by (cases x)
  let ?t = "AutomationHandler_loop now (with_level l s)"
  have "AUTO_INTERVAL \<le> now - autoMillis s" using Cons.prems(4) x by simp
  note t = tick_frame [OF Cons.prems(1) this, of l]
  have l: "fl_less l (maxL s)" "fillM s" "\<not> relay1 s"
    using Cons.prems(2,3,5) x by (auto simp: isFilling_def getState_def)
  have "\<not> getState 1 (auto_run xs ?t) \<and> isFilling (auto_run xs ?t)"
    using Cons.prems(1,4,5) t l x
    by (intro Cons.IH) (auto simp: getState_def isFilling_def fill_spec_def)
  then show ?case using x by (simp add: auto_run_Cons)
qed

theorem filling_stays_off_witness:
  "\<not> getState 1 (auto_run [(1000, FFin 40), (2000, FFin 1), (3000, FFin 0)] demo_auto) \<and>
   isFilling (auto_run [(1000, FFin 40), (2000, FFin 1), (3000, FFin 0)] demo_auto)"
  by (rule filling_stays_off) (simp_all add: getState_def isFilling_def AUTO_INTERVAL_def)

end
