(* ===== verification/WiFi_Handler.thy ===== *)
theory WiFi_Handler
  imports Automation_Handler
begin

text \<open>
  \<^verbatim>\<open>src/WiFiHandler.cpp\<close>: station mode with a fallback access point. The results of
  \<^verbatim>\<open>WiFi.status()\<close> (one per call), of \<^verbatim>\<open>waitForConnectResult\<close>, \<^verbatim>\<open>softAP\<close> and \<^verbatim>\<open>softAPIP\<close> (\<open>ap_in\<close>), and the clock are
  arguments. What the radio does is in the log; \<open>ap_after\<close> and \<open>radio_after\<close> read from it
  whether the access point is up and the mode last set.
\<close>

record 'j wifi_state = "'j auto_state" +
  connectionStartTime :: millis_t
  lastReconnectAttempt :: millis_t
  apStarted :: bool

definition CONNECTION_TIMEOUT_MS :: millis_t where
  "CONNECTION_TIMEOUT_MS = 30000"

definition apIP :: "nat list" where "apIP = [10, 10, 10, 1]"
definition gateway :: "nat list" where "gateway = [10, 10, 10, 1]"
definition subnet :: "nat list" where "subnet = [255, 255, 255, 0]"

definition WiFiHandler_isConnected :: "bool \<Rightarrow> bool" where
  "WiFiHandler_isConnected statusConnected = statusConnected"

definition getRSSI :: "fl \<Rightarrow> fl" where
  "getRSSI rssi = rssi"

definition isWiFiClientUsable :: "'j json_lib \<Rightarrow> ('j, 'z) wifi_state_scheme \<Rightarrow> bool" where
  "isWiFiClientUsable J s =
     (let cfg = getConfig s in
      \<not> j_isNull J (j_path J cfg [''wifi'']) \<and>
      \<not> j_isNull J (j_path J cfg [''wifi'', ''client'', ''ssid'']) \<and>
      j_asString J (j_path J cfg [''wifi'', ''client'', ''ssid'']) \<noteq> '''' \<and>
      \<not> j_isNull J (j_path J cfg [''wifi'', ''client'', ''password'']))"

text \<open>What \<^verbatim>\<open>WiFi.softAP\<close> and \<^verbatim>\<open>WiFi.softAPIP\<close> return. The source ignores the former.\<close>

record ap_in =
  soft_ok :: bool
  soft_ip :: string

definition startAP ::
  "'j json_lib \<Rightarrow> ap_in \<Rightarrow> 'j \<Rightarrow> bool \<Rightarrow> ('j, 'z) wifi_state_scheme \<Rightarrow> ('j, 'z) wifi_state_scheme" where
  "startAP J ap cfg combine s =
     (let ssid = j_asString J (j_path J cfg [''wifi'', ''ap'', ''ssid'']);
          password = j_asString J (j_path J cfg [''wifi'', ''ap'', ''password'']);
          s1 = emits [Wifi (WifiMode (if combine then WIFI_MODE_APSTA else WIFI_MODE_AP)),
                 Wifi (SoftAPConfig apIP gateway subnet), Wifi (SoftAP ssid password (soft_ok ap))] s;
          s2 = s1\<lparr>apStarted := True\<rparr>
      in emits [SerialOut [Text ''AP startet: ''], SerialOut [Text ssid],
           SerialOut [Text ''AP IP: ''], SerialOut [Text (soft_ip ap)]] s2)"

definition stopAP :: "('j, 'z) wifi_state_scheme \<Rightarrow> ('j, 'z) wifi_state_scheme" where
  "stopAP s =
     (if apStarted s
      then emit (SerialOut [Text ''AP stopped.''])
             ((emit (Wifi (SoftAPdisconnect True)) s)\<lparr>apStarted := False\<rparr>)
      else s)"

text \<open>\<open>staOk\<close> is the result of \<^verbatim>\<open>waitForConnectResult\<close>, \<open>now\<close> the reading before it.\<close>

definition WiFiHandler_setup ::
  "'j json_lib \<Rightarrow> bool \<Rightarrow> ap_in \<Rightarrow> millis_t \<Rightarrow> ('j, 'z) wifi_state_scheme \<Rightarrow> ('j, 'z) wifi_state_scheme" where
  "WiFiHandler_setup J staOk ap now s =
     (let s1 = emit (Wifi (SetAutoReconnect True)) s;
          cfg = getConfig s1;
          s2 = (if isWiFiClientUsable J s1
                then (let s3 = emits
                            [Wifi (Hostname (j_asString J (j_path J cfg [''wifi'', ''ap'', ''ssid'']))),
                             Wifi (WifiMode WIFI_MODE_STA),
                             Wifi (BeginSta
                               (j_asString J (j_path J cfg [''wifi'', ''client'', ''ssid'']))
                               (j_asString J (j_path J cfg [''wifi'', ''client'', ''password''])))] s1;
                          s4 = s3\<lparr>connectionStartTime := now, apStarted := False\<rparr>;
                          s5 = emit (Wifi (WaitForConnectResult 15000)) s4;
                          s6 = (if \<not> staOk then startAP J ap cfg False s5 else s5)
                      in emit (SerialOut [Text ''WiFi Client started. Try to connect...'']) s6)
                else startAP J ap cfg False s1)
      in emits [SerialOut [Text ''WiFi started''], SerialOut [Text ''Ready on ''],
           SerialOut [Text (soft_ip ap)]] s2)"

text \<open>\<open>up1\<close> and \<open>up2\<close> are the two readings of the connection state.\<close>

definition checkConnection ::
  "'j json_lib \<Rightarrow> bool \<Rightarrow> bool \<Rightarrow> ap_in \<Rightarrow> millis_t \<Rightarrow> ('j, 'z) wifi_state_scheme \<Rightarrow> ('j, 'z) wifi_state_scheme" where
  "checkConnection J up1 up2 ap now s =
     (if WiFiHandler_isConnected up1 \<and> apStarted s
      then emit (SerialOut [Text ''STA reconnected. AP stopped.''])
             (emit (Wifi (WifiMode WIFI_MODE_STA)) (stopAP s))
      else if WiFiHandler_isConnected up2 then s
      else (let s1 = (if 5000 \<le> now - lastReconnectAttempt s
                      then emits [SerialOut [Text ''WiFi lost. Trying reconnect...''], Wifi Reconnect]
                             (s\<lparr>lastReconnectAttempt := now\<rparr>)
                      else s)
            in if \<not> apStarted s1 \<and> CONNECTION_TIMEOUT_MS < now - connectionStartTime s1
               then startAP J ap (getConfig s1) True
                      (emit (SerialOut [Text ''Reconnect timeout. Starting AP...'']) s1)
               else s1))"

definition WiFiHandler_loop ::
  "'j json_lib \<Rightarrow> bool \<Rightarrow> bool \<Rightarrow> ap_in \<Rightarrow> millis_t \<Rightarrow> ('j, 'z) wifi_state_scheme \<Rightarrow> ('j, 'z) wifi_state_scheme" where
  "WiFiHandler_loop J up1 up2 ap now s = checkConnection J up1 up2 ap now s"

subsection \<open>What the radio does\<close>

text \<open>
  The access point after a log: down, up, or asked for by a call of \<^verbatim>\<open>softAP\<close> that failed.
\<close>

datatype ap_state = ApDown | ApUp | ApFailed

fun ap_after :: "ap_state \<Rightarrow> event list \<Rightarrow> ap_state" where
  "ap_after b [] = b"
| "ap_after b (Wifi (SoftAP _ _ ok) # es) = ap_after (if ok then ApUp else ApFailed) es"
| "ap_after b (Wifi (SoftAPdisconnect _) # es) = ap_after ApDown es"
| "ap_after b (PowerOn # es) = ap_after ApDown es"
| "ap_after b (_ # es) = ap_after b es"

fun radio_after :: "wifi_mode option \<Rightarrow> event list \<Rightarrow> wifi_mode option" where
  "radio_after m [] = m"
| "radio_after m (Wifi (WifiMode w) # es) = radio_after (Some w) es"
| "radio_after m (PowerOn # es) = radio_after None es"
| "radio_after m (_ # es) = radio_after m es"

lemma ap_after_append [simp]: "ap_after b (xs @ ys) = ap_after (ap_after b xs) ys"
  by (induction b xs rule: ap_after.induct) auto

lemma radio_after_append [simp]: "radio_after m (xs @ ys) = radio_after (radio_after m xs) ys"
  by (induction m xs rule: radio_after.induct) auto

text \<open>
  The flag \<^verbatim>\<open>apStarted\<close> says whether the access point has been asked for, successfully or not, and
  the mode of the radio fits: with the access point down it is station mode.
\<close>

definition wifi_ok :: "('j, 'z) wifi_state_scheme \<Rightarrow> bool" where
  "wifi_ok s \<longleftrightarrow> apStarted s = (ap_after ApDown (evlog s) \<noteq> ApDown) \<and>
     (case radio_after None (evlog s) of
        None \<Rightarrow> False
      | Some WIFI_MODE_STA \<Rightarrow> \<not> apStarted s
      | Some _ \<Rightarrow> apStarted s)"

subsection \<open>Frames\<close>

lemma wifi_emit [simp]:
  "connectionStartTime (emit e s) = connectionStartTime s"
  "lastReconnectAttempt (emit e s) = lastReconnectAttempt s" "apStarted (emit e s) = apStarted s"
  "connectionStartTime (emits es s) = connectionStartTime s"
  "lastReconnectAttempt (emits es s) = lastReconnectAttempt s" "apStarted (emits es s) = apStarted s"
  by (simp_all add: emit_def emits_def)

lemma startAP_simps [simp]:
  "apStarted (startAP J ip c b s)" "lastReconnectAttempt (startAP J ip c b s) = lastReconnectAttempt s"
  "connectionStartTime (startAP J ip c b s) = connectionStartTime s"
  by (simp_all add: startAP_def Let_def)

lemma stopAP_simps [simp]:
  "\<not> apStarted (stopAP s)" "lastReconnectAttempt (stopAP s) = lastReconnectAttempt s"
  "connectionStartTime (stopAP s) = connectionStartTime s"
  by (simp_all add: stopAP_def)

lemma startAP_radio [simp]:
  "ap_after b (evlog (startAP J ip c cmb s)) = (if soft_ok ip then ApUp else ApFailed)"
  "radio_after m (evlog (startAP J ip c cmb s)) = Some (if cmb then WIFI_MODE_APSTA else WIFI_MODE_AP)"
  by (simp_all add: startAP_def Let_def)

lemma WiFiHandler_setup_ok:
  "ap_after ApDown (evlog s) = ApDown \<Longrightarrow> wifi_ok (WiFiHandler_setup J c ip now s)"
  by (simp add: wifi_ok_def WiFiHandler_setup_def Let_def)

lemma checkConnection_ok:
  "wifi_ok s \<Longrightarrow> wifi_ok (checkConnection J up1 up2 ip now s)"
  by (cases "WiFiHandler_isConnected up1 \<and> apStarted s"; cases "WiFiHandler_isConnected up2")
    (auto simp: wifi_ok_def checkConnection_def stopAP_def Let_def
      split: option.splits wifi_mode.splits)

interpretation reconnect: stamped lastReconnectAttempt "\<lambda>s. True" 5000
  "checkConnection J False False ip ::
     millis_t \<Rightarrow> ('j, 'z) wifi_state_scheme \<Rightarrow> ('j, 'z) wifi_state_scheme"
  by unfold_locales (simp_all add: due_def checkConnection_def WiFiHandler_isConnected_def Let_def)

subsection \<open>Properties\<close>

definition demo_wifi :: "jv wifi_state" where
  "demo_wifi = auto_state.extend demo_auto
     \<lparr>connectionStartTime = 0, lastReconnectAttempt = 0, apStarted = False\<rparr>"

lemma demo_wifi_simps [simp]:
  "connectionStartTime demo_wifi = 0" "lastReconnectAttempt demo_wifi = 0" "\<not> apStarted demo_wifi"
  "evlog demo_wifi = []"
  by (simp_all add: demo_wifi_def auto_state.defs device_state.defs demo_auto_def demo_device_def)

text \<open>
  Which way the radio comes up. After \<^verbatim>\<open>WiFiHandler::setup\<close> the access point is asked for exactly
  if there are no usable credentials or the station did not connect in time, and the flag and
  the mode of the radio agree with it.
\<close>
lemma wifi_boot_mode:
  assumes "ap_after ApDown (evlog s) = ApDown"
  shows "apStarted (WiFiHandler_setup J staOk ip now s) = (\<not> isWiFiClientUsable J s \<or> \<not> staOk) \<and>
    wifi_ok (WiFiHandler_setup J staOk ip now s)"
proof
  have "isWiFiClientUsable J (emit e s) = isWiFiClientUsable J s" for e
    by (simp add: isWiFiClientUsable_def getConfig_def)
  then show "apStarted (WiFiHandler_setup J staOk ip now s) = (\<not> isWiFiClientUsable J s \<or> \<not> staOk)"
    by (simp add: WiFiHandler_setup_def Let_def)
  show "wifi_ok (WiFiHandler_setup J staOk ip now s)"
    using assms by (rule WiFiHandler_setup_ok)
qed

text \<open>
  Passes of the main loop that find the station disconnected, each with the clock and what a call
  of \<^verbatim>\<open>softAP\<close> would return in it, and the passes among them that come after the time-out.
\<close>

definition offline_run ::
  "'j json_lib \<Rightarrow> (nat \<times> ap_in) list \<Rightarrow> ('j, 'z) wifi_state_scheme \<Rightarrow> ('j, 'z) wifi_state_scheme" where
  "offline_run J xs s = fold (\<lambda>(t, ap). WiFiHandler_loop J False False ap (clock t)) xs s"

definition late :: "nat \<Rightarrow> (nat \<times> ap_in) list \<Rightarrow> (nat \<times> ap_in) list" where
  "late t0 xs = filter (\<lambda>(t, ap). t0 + 30000 < t) xs"

lemma late_simps [simp]:
  "late t0 [] = []" "late t0 ((t, ap) # xs) = (if t0 + 30000 < t then (t, ap) # late t0 xs else late t0 xs)"
  by (simp_all add: late_def)

lemma offline_step:
  fixes J :: "'j json_lib" and ap :: ap_in
  assumes "connectionStartTime s = clock t0" and "t0 \<le> t" and "t < t0 + 4294967296"
  defines "s' \<equiv> WiFiHandler_loop J False False ap (clock t) s"
  shows "connectionStartTime s' = clock t0" and "apStarted s' = (apStarted s \<or> t0 + 30000 < t)"
    and "ap_after ApDown (evlog s') = (if \<not> apStarted s \<and> t0 + 30000 < t
      then (if soft_ok ap then ApUp else ApFailed) else ap_after ApDown (evlog s))"
proof -
  have "elapsed (clock t) (clock t0) = t - t0" using assms by (intro elapsed_clock) auto
  then have e: "CONNECTION_TIMEOUT_MS < clock t - clock t0 \<longleftrightarrow> t0 + 30000 < t"
    using assms(2) by (auto simp: CONNECTION_TIMEOUT_MS_def elapsed_def word_less_nat_alt)
  show "connectionStartTime s' = clock t0" "apStarted s' = (apStarted s \<or> t0 + 30000 < t)"
    "ap_after ApDown (evlog s') = (if \<not> apStarted s \<and> t0 + 30000 < t
      then (if soft_ok ap then ApUp else ApFailed) else ap_after ApDown (evlog s))"
    unfolding s'_def using assms(1) e
    by (auto simp: WiFiHandler_loop_def checkConnection_def WiFiHandler_isConnected_def Let_def)
qed

text \<open>
  C23: The access point as a fallback. While the station is disconnected, the first pass that comes
  more than 30 seconds after the connection was started asks for the access point, unless the
  flag says that it has been asked for already: from then on the access point is up if that call of
  \<^verbatim>\<open>softAP\<close> succeeded, and failed if it did not, whatever the calls of later passes would have
  returned. Without such a pass it stays as it was. The time counts from the start of the connection
  at boot, not from its loss.
\<close>
theorem ap_fallback:
  assumes "connectionStartTime s = clock t0" and "\<forall>(t, ap) \<in> set xs. t0 \<le> t \<and> t < t0 + 4294967296"
  shows "ap_after ApDown (evlog (offline_run J xs s)) =
      (if apStarted s then ap_after ApDown (evlog s)
       else case late t0 xs of [] \<Rightarrow> ap_after ApDown (evlog s)
         | (t, ap) # _ \<Rightarrow> if soft_ok ap then ApUp else ApFailed) \<and>
    apStarted (offline_run J xs s) = (apStarted s \<or> late t0 xs \<noteq> [])"
  using assms
proof (induction xs arbitrary: s)
  case Nil
  then show ?case by (simp add: offline_run_def)
next
  case (Cons x xs)
  obtain t ap where x: "x = (t, ap)" by (cases x)
  let ?s = "WiFiHandler_loop J False False ap (clock t) s"
  have "t0 \<le> t" "t < t0 + 4294967296" using Cons.prems(2) by (simp_all add: x)
  note step = offline_step [OF Cons.prems(1) this, of J ap]
  have "offline_run J (x # xs) s = offline_run J xs ?s" by (simp add: offline_run_def x)
  then show ?case
    using Cons.IH [of ?s] Cons.prems(2) step by (auto simp: x split: list.splits)
qed

definition demo_ap :: ap_in where
  "demo_ap = \<lparr>soft_ok = True, soft_ip = ''10.10.10.1''\<rparr>"

theorem ap_fallback_witness:
  "ap_after ApDown (evlog (offline_run (jv_lib '''' JNull)
     [(20000, demo_ap), (30001, demo_ap\<lparr>soft_ok := False\<rparr>), (40000, demo_ap)] demo_wifi)) = ApFailed \<and>
   ap_after ApDown (evlog (offline_run (jv_lib '''' JNull) [(20000, demo_ap), (30001, demo_ap)] demo_wifi)) = ApUp \<and>
   ap_after ApDown (evlog (offline_run (jv_lib '''' JNull) [(20000, demo_ap), (30000, demo_ap)] demo_wifi)) = ApDown"
  using ap_fallback [of demo_wifi 0 "[(20000, demo_ap), (30001, demo_ap\<lparr>soft_ok := False\<rparr>), (40000, demo_ap)]"
      "jv_lib '''' JNull"]
    ap_fallback [of demo_wifi 0 "[(20000, demo_ap), (30001, demo_ap)]" "jv_lib '''' JNull"]
    ap_fallback [of demo_wifi 0 "[(20000, demo_ap), (30000, demo_ap)]" "jv_lib '''' JNull"]
  by (simp add: clock_def demo_ap_def)

text \<open>
  When the station is connected again, one pass of the loop takes the access point down
  and returns the radio to station mode.
\<close>
lemma sta_recovers:
  assumes "wifi_ok s"
  shows "ap_after ApDown (evlog (WiFiHandler_loop J True True ip now s)) = ApDown \<and>
    radio_after None (evlog (WiFiHandler_loop J True True ip now s)) = Some WIFI_MODE_STA \<and>
    \<not> apStarted (WiFiHandler_loop J True True ip now s)"
  using assms
  by (cases "apStarted s")
    (auto simp: wifi_ok_def WiFiHandler_loop_def checkConnection_def WiFiHandler_isConnected_def
      stopAP_def split: option.splits wifi_mode.splits)

text \<open>
  Reconnects are never closer than five seconds, over every run of passes and whatever
  else the firmware does between them, also across the wrap-around of the clock.
\<close>
lemma reconnect_rate:
  assumes "\<forall>x \<in> set xs. \<forall>s. lastReconnectAttempt (snd x s) = lastReconnectAttempt s"
  shows "spaced 5000 (lastReconnectAttempt s #
    fire_times (due lastReconnectAttempt (\<lambda>s. True) 5000) (checkConnection J False False ip) xs s)"
  using assms by (intro reconnect.runs_spaced) auto

end
