(* ===== verification/MQTT_Handler.thy ===== *)
theory MQTT_Handler
  imports WiFi_Handler
begin

text \<open>
  \<^verbatim>\<open>src/MQTTHandler.cpp\<close>: connection to the broker and periodic telemetry. Calls of the MQTT client
  are events; its connection state and the clock readings are the fields of \<open>mqtt_in\<close>.
  \<open>mqtt_onConnect\<close> and \<open>mqtt_onDisconnect\<close> are the callbacks that \<^verbatim>\<open>setup\<close> registers; the client
  runs them later.
\<close>

record 'j mqtt_state = "'j wifi_state" +
  isEnabled :: bool
  previousMillisMQTT :: millis_t
  reconnectMQTT :: millis_t

definition setLastWill :: "('j, 'z) mqtt_state_scheme \<Rightarrow> ('j, 'z) mqtt_state_scheme" where
  "setLastWill s = emit (Mqtt (SetWill ''waterlevel/status'' 1 True ''offline'')) s"

definition publish ::
  "string \<Rightarrow> payload \<Rightarrow> ('j, 'z) mqtt_state_scheme \<Rightarrow> ('j, 'z) mqtt_state_scheme" where
  "publish topic payload s =
     emit (SerialOut [Text ''Publish '', Text topic, Text '': '', payload])
       (emit (Mqtt (Publish topic 1 False payload)) s)"

definition mqtt_onConnect :: "bool \<Rightarrow> ('j, 'z) mqtt_state_scheme \<Rightarrow> ('j, 'z) mqtt_state_scheme" where
  "mqtt_onConnect sessionPresent s =
     publish ''waterlevel/status'' (Text ''online'')
       (emit (SerialOut [Text ''MQTT connected, sessionPresent='',
          Text (if sessionPresent then ''true'' else ''false'')]) s)"

definition mqtt_onDisconnect :: "cint \<Rightarrow> ('j, 'z) mqtt_state_scheme \<Rightarrow> ('j, 'z) mqtt_state_scheme" where
  "mqtt_onDisconnect reason s = emit (SerialOut [Text ''MQTT disconnected, reason='', Dec reason]) s"

definition MQTTHandler_setup ::
  "'j json_lib \<Rightarrow> millis_t \<Rightarrow> ('j, 'z) mqtt_state_scheme \<Rightarrow> ('j, 'z) mqtt_state_scheme" where
  "MQTTHandler_setup J now s =
     (let cfg = getConfig s in
      if j_asBool J (j_path J cfg [''mqtt'', ''state''])
      then (let s1 = s\<lparr>isEnabled := True, reconnectMQTT := now\<rparr>;
                mqttHost = j_asString J (j_path J cfg [''mqtt'', ''host'']);
                mqttUser = j_asString J (j_path J cfg [''mqtt'', ''user'']);
                mqttPassword = j_asString J (j_path J cfg [''mqtt'', ''password'']);
                mqttPort = j_asInt J (j_path J cfg [''mqtt'', ''port''])
            in if 0 < length mqttHost \<and> 0 < sint mqttPort
               then (let s2 = emits [Mqtt (SetServer mqttHost mqttPort), Mqtt (SetKeepAlive 120),
                            Mqtt (SetClientId ''walterlevel'')] s1;
                         s3 = (if 0 < length mqttUser
                               then emits [Mqtt (SetCredentials mqttUser mqttPassword),
                                      SerialOut [Text ''MQTT '', Text mqttUser, Text '' PW '',
                                        Text mqttPassword]] s2
                               else s2);
                         s4 = emit (SerialOut [Text ''MQTT connecting to '', Text mqttHost, Text '':'',
                                Dec mqttPort]) s3
                     in emits [Mqtt OnConnect, Mqtt OnDisconnect, Mqtt MqttConnect,
                          SerialOut [Text ''MQTT started'']] (setLastWill s4))
               else emit (SerialOut [Text ''MQTT config'']) s1)
      else emit (SerialOut [Text ''MQTT disabled'']) s)"

record mqtt_in =
  mqtt_up :: bool
  now_mqtt :: millis_t
  now_mqtt_setup :: millis_t
  now_d1a :: millis_t
  now_d1b :: millis_t
  now_d2a :: millis_t
  now_d2b :: millis_t

definition MQTTHandler_isConnected :: "bool \<Rightarrow> bool" where
  "MQTTHandler_isConnected clientConnected = clientConnected"

definition telemetry :: "mqtt_in \<Rightarrow> ('j, 'z) mqtt_state_scheme \<Rightarrow> (string \<times> payload) list" where
  "telemetry i s =
     [(''waterlevel/voltage'', Fixed (getADCValueCached s) 2),
      (''waterlevel/channel/1/state'', Text (if getState 1 s then ''1'' else ''0'')),
      (''waterlevel/channel/1/duration'', Dec (getDuration 1 (now_d1a i) (now_d1b i) s)),
      (''waterlevel/channel/2/state'', Text (if getState 2 s then ''1'' else ''0'')),
      (''waterlevel/channel/2/duration'', Dec (getDuration 2 (now_d2a i) (now_d2b i) s)),
      (''waterlevel/cpu'', Fixed (getCPUTemperatureCached s) 1),
      (''waterlevel/level'', Fixed (getLevelCached s) 1),
      (''waterlevel/volume'', Fixed (getVolumeCached s) 1),
      (''waterlevel/operation/fill'', Text (if isFilling s then ''1'' else ''0'')),
      (''waterlevel/operation/pump'', Text (if isPumping s then ''1'' else ''0'')),
      (''waterlevel/operation/mode'', Dec (getMode s))]"

definition MQTTHandler_loop ::
  "'j json_lib \<Rightarrow> mqtt_in \<Rightarrow> ('j, 'z) mqtt_state_scheme \<Rightarrow> ('j, 'z) mqtt_state_scheme" where
  "MQTTHandler_loop J i s =
     (if isEnabled s
      then if MQTTHandler_isConnected (mqtt_up i)
           then if MQTT_INTERVAL \<le> now_mqtt i - previousMillisMQTT s
                then (let s1 = s\<lparr>previousMillisMQTT := now_mqtt i\<rparr>
                      in fold (\<lambda>(topic, payload). publish topic payload) (telemetry i s1) s1)
                else s
           else if 5000 < now_mqtt i - reconnectMQTT s
                then MQTTHandler_setup J (now_mqtt_setup i) s else s
      else s)"

subsection \<open>Frames\<close>

lemma mqtt_emit [simp]:
  "isEnabled (emit e s) = isEnabled s" "previousMillisMQTT (emit e s) = previousMillisMQTT s"
  "reconnectMQTT (emit e s) = reconnectMQTT s"
  "isEnabled (emits es s) = isEnabled s" "previousMillisMQTT (emits es s) = previousMillisMQTT s"
  "reconnectMQTT (emits es s) = reconnectMQTT s"
  by (simp_all add: emit_def emits_def)

text \<open>A list of publications only adds to the log: two events for each.\<close>

definition pub_events :: "(string \<times> payload) list \<Rightarrow> event list" where
  "pub_events xs = concat (map (\<lambda>(t, p). [Mqtt (Publish t 1 False p),
     SerialOut [Text ''Publish '', Text t, Text '': '', p]]) xs)"

lemma publish_all:
  "fold (\<lambda>(topic, payload). publish topic payload) xs s = emits (pub_events xs) s"
  by (induction xs arbitrary: s)
    (auto simp: pub_events_def publish_def emits_def emit_def)

text \<open>The telemetry reads no field the time stamp could change.\<close>

lemma telemetry_stamp [simp]: "telemetry i (s\<lparr>previousMillisMQTT := t\<rparr>) = telemetry i s"
  by (simp add: telemetry_def getADCValueCached_def getState_def getDuration_def
      getCPUTemperatureCached_def getLevelCached_def getVolumeCached_def isFilling_def
      isPumping_def getMode_def)

interpretation mqtt: periodic previousMillisMQTT isEnabled MQTT_INTERVAL
  "\<lambda>now. MQTTHandler_loop J (i\<lparr>mqtt_up := True, now_mqtt := now\<rparr>) ::
     ('j, 'z) mqtt_state_scheme \<Rightarrow> ('j, 'z) mqtt_state_scheme"
  by unfold_locales
    (auto simp: due_def MQTTHandler_loop_def MQTTHandler_isConnected_def publish_all)

definition mqtt_wanted :: "'j json_lib \<Rightarrow> ('j, 'z) mqtt_state_scheme \<Rightarrow> bool" where
  "mqtt_wanted J s = j_asBool J (j_path J (getConfig s) [''mqtt'', ''state''])"

lemma MQTTHandler_setup_stamp [simp]:
  "reconnectMQTT (MQTTHandler_setup J now s) = (if mqtt_wanted J s then now else reconnectMQTT s)"
  "previousMillisMQTT (MQTTHandler_setup J now s) = previousMillisMQTT s"
  by (simp_all add: MQTTHandler_setup_def mqtt_wanted_def setLastWill_def Let_def)

lemma word_5001: "(5001 :: 32 word) \<le> w \<longleftrightarrow> 5000 < w"
  by (simp add: word_le_nat_alt word_less_nat_alt Suc_le_eq [symmetric])

interpretation retry: stamped reconnectMQTT "\<lambda>s. isEnabled s \<and> mqtt_wanted J s" 5001
  "\<lambda>now. MQTTHandler_loop J (i\<lparr>mqtt_up := False, now_mqtt := now, now_mqtt_setup := now\<rparr>) ::
     ('j, 'z) mqtt_state_scheme \<Rightarrow> ('j, 'z) mqtt_state_scheme"
  by unfold_locales
    (auto simp: due_def MQTTHandler_loop_def MQTTHandler_isConnected_def word_5001)

subsection \<open>Reading the log\<close>

fun published :: "event list \<Rightarrow> (string \<times> payload) list" where
  "published [] = []"
| "published (Mqtt (Publish t q r p) # es) = (t, p) # published es"
| "published (_ # es) = published es"

text \<open>Every connection attempt comes after the last will has been set, in the same session.\<close>

fun will_before_connect :: "bool \<Rightarrow> event list \<Rightarrow> bool" where
  "will_before_connect b [] = True"
| "will_before_connect b (PowerOn # es) = will_before_connect False es"
| "will_before_connect b (Mqtt (SetWill t q r p) # es) =
     will_before_connect (t = ''waterlevel/status'' \<and> p = ''offline'') es"
| "will_before_connect b (Mqtt MqttConnect # es) = (b \<and> will_before_connect b es)"
| "will_before_connect b (_ # es) = will_before_connect b es"

lemma published_append [simp]: "published (xs @ ys) = published xs @ published ys"
  by (induction xs rule: published.induct) auto

lemma published_pub_events [simp]: "published (pub_events xs) = xs"
  by (induction xs) (auto simp: pub_events_def)

fun will_set :: "bool \<Rightarrow> event list \<Rightarrow> bool" where
  "will_set b [] = b"
| "will_set b (PowerOn # es) = will_set False es"
| "will_set b (Mqtt (SetWill t q r p) # es) = will_set (t = ''waterlevel/status'' \<and> p = ''offline'') es"
| "will_set b (_ # es) = will_set b es"

lemma will_append [simp]:
  "will_before_connect b (xs @ ys) =
     (will_before_connect b xs \<and> will_before_connect (will_set b xs) ys)"
  by (induction b xs rule: will_before_connect.induct) auto

lemma will_pub_events [simp]: "will_before_connect b (pub_events xs)"
  by (induction xs) (auto simp: pub_events_def)

lemma setup_will:
  "will_before_connect False (evlog s) \<Longrightarrow> will_before_connect False (evlog (MQTTHandler_setup J now s))"
  by (simp add: MQTTHandler_setup_def setLastWill_def Let_def)

lemma mqtt_loop_will:
  "will_before_connect False (evlog s) \<Longrightarrow> will_before_connect False (evlog (MQTTHandler_loop J i s))"
  by (simp add: MQTTHandler_loop_def publish_all setup_will)

subsection \<open>Properties\<close>

definition demo_mqtt :: "jv mqtt_state" where
  "demo_mqtt = wifi_state.extend demo_wifi
     \<lparr>isEnabled = True, previousMillisMQTT = 0, reconnectMQTT = 0\<rparr>"

definition demo_mqtt_in :: mqtt_in where
  "demo_mqtt_in = \<lparr>mqtt_up = True, now_mqtt = 1000, now_mqtt_setup = 1000, now_d1a = 0, now_d1b = 0,
     now_d2a = 0, now_d2b = 0\<rparr>"

lemma demo_mqtt_simps [simp]:
  "isEnabled demo_mqtt" "previousMillisMQTT demo_mqtt = 0" "reconnectMQTT demo_mqtt = 0"
  "evlog demo_mqtt = []" "config demo_mqtt = JNull"
  by (simp_all add: demo_mqtt_def demo_wifi_def wifi_state.defs auto_state.defs device_state.defs
      demo_auto_def demo_device_def)

text \<open>
  What reaches the broker. A pass publishes the eleven telemetry values of the moment, in
  order, exactly if the handler is enabled, the client is connected and a second has passed
  since the last time; every other pass, also one that reconnects, publishes nothing.
\<close>
lemma telemetry_published:
  "published (evlog (MQTTHandler_loop J i s)) = published (evlog s) @
     (if isEnabled s \<and> mqtt_up i \<and> MQTT_INTERVAL \<le> now_mqtt i - previousMillisMQTT s
      then telemetry i s else [])"
  by (simp add: MQTTHandler_loop_def MQTTHandler_isConnected_def publish_all MQTTHandler_setup_def
      setLastWill_def Let_def)

text \<open>
  Telemetry goes out at most once a second, over every run of passes with a connected
  client and whatever happens between them, also across the wrap-around of the clock.
\<close>
lemma telemetry_rate:
  assumes "\<forall>x \<in> set xs. \<forall>s. previousMillisMQTT (snd x s) = previousMillisMQTT s"
  shows "spaced MQTT_INTERVAL (previousMillisMQTT s #
    fire_times (due previousMillisMQTT isEnabled MQTT_INTERVAL)
      (\<lambda>now. MQTTHandler_loop J (i\<lparr>mqtt_up := True, now_mqtt := now\<rparr>)) xs s)"
  using assms by (intro mqtt.runs_spaced) auto

text \<open>
  Reconnects to the broker are more than five seconds apart as long as MQTT is enabled in
  the configuration.
\<close>
lemma mqtt_retry_rate:
  assumes "\<forall>x \<in> set xs. \<forall>s. reconnectMQTT (snd x s) = reconnectMQTT s"
  shows "spaced 5001 (reconnectMQTT s #
    fire_times (due reconnectMQTT (\<lambda>s. isEnabled s \<and> mqtt_wanted J s) 5001)
      (\<lambda>now. MQTTHandler_loop J (i\<lparr>mqtt_up := False, now_mqtt := now, now_mqtt_setup := now\<rparr>)) xs s)"
  using assms by (intro retry.runs_spaced) auto

text \<open>
  Once MQTT has been switched off in the configuration of a running device, the handler
  stays enabled, and while the client is disconnected every pass after the five seconds runs
  the set-up again, one \<^verbatim>\<open>MQTT disabled\<close> line per pass, without end.
\<close>
lemma mqtt_disabled_spins:
  assumes "isEnabled s" and "\<not> mqtt_wanted J s"
    and "list_all (\<lambda>i. \<not> mqtt_up i \<and> 5000 < now_mqtt i - reconnectMQTT s) is"
  shows "fold (MQTTHandler_loop J) is s =
    emits (replicate (length is) (SerialOut [Text ''MQTT disabled''])) s"
  using assms
proof (induction "is" arbitrary: s)
  case Nil
  then show ?case by (simp add: emits_def)
next
  case (Cons i "is")
  let ?t = "emit (SerialOut [Text ''MQTT disabled'']) s"
  have "MQTTHandler_loop J i s = ?t"
    using Cons.prems
    by (simp add: MQTTHandler_loop_def MQTTHandler_isConnected_def MQTTHandler_setup_def mqtt_wanted_def)
  moreover have "fold (MQTTHandler_loop J) is ?t =
      emits (replicate (length is) (SerialOut [Text ''MQTT disabled''])) ?t"
    using Cons.prems by (intro Cons.IH) (simp_all add: mqtt_wanted_def getConfig_def)
  ultimately show ?case by (simp add: emits_def emit_def)
qed

end
