(* ===== verification/OTA_Handler.thy ===== *)
theory OTA_Handler
  imports MQTT_Handler
begin

text \<open>
  \<^verbatim>\<open>src/OTAHandler.cpp\<close>: local updates (ArduinoOTA) and updates pulled from the update server
  (esp32FOTA). Both libraries do the update itself; the handler configures and polls them.
  \<open>ota_onProgress\<close>, \<open>ota_onStart\<close> and \<open>ota_onEnd\<close> are the callbacks that the local server runs.
\<close>

record 'j ota_state = "'j mqtt_state" +
  otaEnabled :: bool

definition OTAHandler_setup ::
  "'j json_lib \<Rightarrow> ('j, 'z) ota_state_scheme \<Rightarrow> ('j, 'z) ota_state_scheme" where
  "OTAHandler_setup J s =
     (let s1 =
        (if j_asBool J (j_path J (getConfig s) [''ota''])
         then (let a = emits [Ota (OtaHostname
                          (j_asString J (j_path J (getConfig s) [''wifi'', ''ap'', ''ssid'']))),
                        Ota (MdnsEnabled True), Ota (RebootOnSuccess True)] (s\<lparr>otaEnabled := True\<rparr>);
                   doc = getConfig a;
                   b = (if j_asBool J (j_path J doc [''admin'', ''state''])
                        then emit (Ota (OtaPassword (j_asString J (j_path J doc [''admin'', ''password''])))) a
                        else a)
               in emits [Ota OtaCallbacks, Ota OtaBegin, SerialOut [Text ''OTA started'']] b)
         else s)
      in emit (Ota (SetManifestURL UPDATE_SERVER)) s1)"

definition checkWAN :: "bool \<Rightarrow> bool" where
  "checkWAN statusConnected = statusConnected"

definition OTAHandler_loop ::
  "bool \<Rightarrow> ('j, 'z) ota_state_scheme \<Rightarrow> ('j, 'z) ota_state_scheme" where
  "OTAHandler_loop statusConnected s =
     (let s1 = (if otaEnabled s then emit (Ota OtaHandle) s else s)
      in if checkWAN statusConnected then emit (Ota PullHandle) s1 else s1)"

definition hasUpdate ::
  "bool \<Rightarrow> bool \<Rightarrow> ('j, 'z) ota_state_scheme \<Rightarrow> bool \<times> ('j, 'z) ota_state_scheme" where
  "hasUpdate statusConnected httpCheck s =
     (if checkWAN statusConnected then (httpCheck, emit (Ota ExecHTTPcheck) s) else (False, s))"

definition OTAHandler_update :: "('j, 'z) ota_state_scheme \<Rightarrow> ('j, 'z) ota_state_scheme" where
  "OTAHandler_update s = emit (Ota ExecOTA) s"

definition ota_onProgress ::
  "32 word \<Rightarrow> 32 word \<Rightarrow> ('j, 'z) ota_state_scheme \<Rightarrow> ('j, 'z) ota_state_scheme" where
  "ota_onProgress progress size_total s =
     (if size_total div 100 = 0 then emit (Undefined DivisionByZero) s
      else emit (SerialOut [Text ''Progress: '', Udec (progress div (size_total div 100)),
             Text (''%'' @ [CHR 0x0D])]) s)"

definition ota_onStart :: "('j, 'z) ota_state_scheme \<Rightarrow> ('j, 'z) ota_state_scheme" where
  "ota_onStart s = emit (SerialOut [Text (CHR 0x0A # ''Start'')]) s"

definition ota_onEnd :: "('j, 'z) ota_state_scheme \<Rightarrow> ('j, 'z) ota_state_scheme" where
  "ota_onEnd s = emit (SerialOut [Text (CHR 0x0A # ''End'')]) s"

lemma ota_emit [simp]:
  "otaEnabled (emit e s) = otaEnabled s" "otaEnabled (emits es s) = otaEnabled s"
  by (simp_all add: emit_def emits_def)

text \<open>What the local server is protected with: the last password set before it started.\<close>

fun ota_protected :: "bool \<Rightarrow> event list \<Rightarrow> bool" where
  "ota_protected b [] = True"
| "ota_protected b (PowerOn # es) = ota_protected False es"
| "ota_protected b (Ota (OtaPassword p) # es) = ota_protected True es"
| "ota_protected b (Ota OtaBegin # es) = (b \<and> ota_protected b es)"
| "ota_protected b (_ # es) = ota_protected b es"

definition demo_ota :: "jv ota_state" where
  "demo_ota = mqtt_state.extend demo_mqtt \<lparr>otaEnabled = False\<rparr>"

lemma demo_ota_simps [simp]:
  "evlog demo_ota = []" "config demo_ota = JNull" "\<not> otaEnabled demo_ota"
  by (simp_all add: demo_ota_def demo_mqtt_def demo_wifi_def mqtt_state.defs wifi_state.defs
      auto_state.defs device_state.defs demo_auto_def demo_device_def)

text \<open>
  Where the administrator login is enabled, the local update server is never started
  without the administrator's password.
\<close>
lemma ota_server_protected:
  assumes "j_asBool J (j_path J (getConfig s) [''admin'', ''state''])"
  shows "\<exists>es. evlog (OTAHandler_setup J s) = evlog s @ es \<and> ota_protected False es"
  using assms by (simp add: OTAHandler_setup_def getConfig_def Let_def)

text \<open>
  The progress of a local update. From 100 bytes on the callback is defined and reports at
  most 199 percent (the total is divided first); below 100 bytes it divides by zero.
\<close>
lemma ota_progress_bound:
  "progress \<le> size_total \<Longrightarrow>
    (unat size_total < 100 \<longrightarrow>
      ota_onProgress progress size_total s = emit (Undefined DivisionByZero) s) \<and>
    (100 \<le> unat size_total \<longrightarrow>
      (\<exists>p. unat p \<le> 199 \<and>
        ota_onProgress progress size_total s = emit (SerialOut [Text ''Progress: '', Udec p, Text (''%'' @ [CHR 0x0D])]) s))"
proof -
  assume le: "progress \<le> size_total"
  let ?q = "size_total div 100" and ?p = "progress div (size_total div 100)"
  have q: "unat ?q = unat size_total div 100" by (simp add: unat_div)
  have "unat ?p \<le> 199" if "100 \<le> unat size_total"
  proof -
    have "unat progress \<le> unat size_total" using le by (simp add: word_le_nat_alt)
    moreover have "unat size_total < 200 * (unat size_total div 100)"
    proof -
      let ?n = "unat size_total"
      have "100 * (?n div 100) + ?n mod 100 = ?n" "?n mod 100 < 100" by simp_all
      moreover have "1 \<le> ?n div 100" using div_le_mono [OF that, of 100] by simp
      ultimately show ?thesis by linarith
    qed
    ultimately have "unat progress < 200 * (unat size_total div 100)" by linarith
    then have "unat progress div (unat size_total div 100) < 200" by (simp add: div_less_iff_less_mult less_mult_imp_div_less)
    then show ?thesis using q by (simp add: unat_div)
  qed
  moreover have "?q = 0 \<longleftrightarrow> unat size_total < 100" using q by (auto simp: unat_eq_0 [symmetric] div_eq_0_iff)
  ultimately show ?thesis by (auto simp: ota_onProgress_def)
qed

end
