(* ===== verification/Web_Handler.thy ===== *)
theory Web_Handler
  imports OTA_Handler
begin

text \<open>
  \<^verbatim>\<open>src/WebHandler.cpp\<close>: the web page and the JSON API. A request is the JSON document the server
  library has parsed; \<open>web_in\<close> holds what the calls made while it is handled return, among them
  the library's check of the credentials the request carries against a user and a password.
  Responses are events. \<open>web_root\<close>, \<open>web_notFound\<close> and \<open>web_api\<close> are the three handlers that
  \<^verbatim>\<open>WebHandler::setup\<close> registers.
\<close>

record web_in =
  authenticate :: "string option \<Rightarrow> string option \<Rightarrow> bool"
  cpu_freq :: "32 word"
  web_rssi :: fl
  web_mqtt_up :: bool
  now_up :: millis_t
  now_duration :: millis_t
  wan_up :: bool
  http_check :: bool
  stray_pin :: "8 word"
  overflowed :: cint
  file_write :: write_result

definition sendResponse ::
  "nat \<Rightarrow> string \<Rightarrow> ('j, 'z) ota_state_scheme \<Rightarrow> ('j, 'z) ota_state_scheme" where
  "sendResponse i text s = emit (Http (Send i ''application/json'' text)) s"

definition sendInvalid :: "('j, 'z) ota_state_scheme \<Rightarrow> ('j, 'z) ota_state_scheme" where
  \<open>sendInvalid s = sendResponse 400 ''{"type":"error","message":"Invalid request"}'' s\<close>

definition sendOK :: "('j, 'z) ota_state_scheme \<Rightarrow> ('j, 'z) ota_state_scheme" where
  \<open>sendOK s = sendResponse 200 ''{"type":"success","message":"OK"}'' s\<close>

definition needAuth ::
  "'j json_lib \<Rightarrow> web_in \<Rightarrow> ('j, 'z) ota_state_scheme \<Rightarrow> bool \<times> ('j, 'z) ota_state_scheme" where
  "needAuth J w s =
     (let doc = getConfig s in
      if j_asBool J (j_path J doc [''admin'', ''state'']) \<and>
         \<not> authenticate w (j_asCStr J (j_path J doc [''admin'', ''user'']))
             (j_asCStr J (j_path J doc [''admin'', ''password'']))
      then (False, emit (Http RequestAuthentication) s)
      else (True, s))"

definition checkRequest ::
  "'j json_lib \<Rightarrow> 'j \<Rightarrow> ('j, 'z) ota_state_scheme \<Rightarrow> bool \<times> ('j, 'z) ota_state_scheme" where
  \<open>checkRequest J json s =
     (if \<not> j_isString J (j_get J json ''type'')
      then (False, sendResponse 400 ''{"type":"error","message":"No JSON payload provided"}'' s)
      else (True, s))\<close>

text \<open>The documents that \<^verbatim>\<open>status\<close> and \<^verbatim>\<open>info\<close> send.\<close>

definition status_doc :: "'j json_lib \<Rightarrow> web_in \<Rightarrow> ('j, 'z) ota_state_scheme \<Rightarrow> 'j" where
  "status_doc J w s =
     fold (\<lambda>(k, v) doc. j_put J doc k v)
       [(''type'', j_ofText J ''success''),
        (''channels'', j_ofList J [j_ofBool J (getState 1 s), j_ofBool J (getState 2 s)]),
        (''adc'', j_ofFloat J (getADCValueCached s)),
        (''current'', j_ofFloat J (getCurrentCached s)),
        (''level'', j_ofFloat J (getLevelCached s)),
        (''volume'', j_ofFloat J (getVolumeCached s)),
        (''cpu'', j_ofFloat J (getCPUTemperatureCached s)),
        (''frequency'', j_ofU32 J (cpu_freq w)),
        (''rssi'', j_ofFloat J (getRSSI (web_rssi w))),
        (''mqtt'', j_ofBool J (MQTTHandler_isConnected (web_mqtt_up w))),
        (''up'', j_ofU32 J (now_up w div 1000))] (j_null J)"

definition info_doc :: "'j json_lib \<Rightarrow> bool \<Rightarrow> ('j, 'z) ota_state_scheme \<Rightarrow> 'j" where
  "info_doc J update s =
     fold (\<lambda>(k, v) doc. j_put J doc k v)
       [(''config'', getConfig s), (''firmware'', j_ofText J VERSION),
        (''update'', j_ofBool J update), (''type'', j_ofText J ''success'')] (j_null J)"

definition handleAPICall ::
  "'j json_lib \<Rightarrow> web_in \<Rightarrow> 'j \<Rightarrow> ('j, 'z) ota_state_scheme \<Rightarrow> ('j, 'z) ota_state_scheme" where
  \<open>handleAPICall J w json s0 =
     (let type = j_asString J (j_get J json ''type'');
          s = emit (SerialOut [Text ''API Call: '', Text type]) s0
      in if type = ''relais''
         then if j_isInt J (j_get J json ''channel'') \<and> j_isBool J (j_get J json ''state'')
              then (let s1 = setRelais (stray_pin w) (ucast (j_asInt J (j_get J json ''channel'')))
                               (j_asBool J (j_get J json ''state'')) s;
                        s2 = (if j_isInt J (j_get J json ''duration'')
                              then setRelaisDuration (overflowed w) (j_asInt J (j_get J json ''channel''))
                                     (j_asInt J (j_get J json ''duration'')) (now_duration w) s1
                              else s1)
                    in sendOK s2)
              else s
         else if type = ''status'' then sendResponse 200 (j_print J (status_doc J w s)) s
         else if type = ''info''
         then (let (update, s1) = hasUpdate (wan_up w) (http_check w) s
               in sendResponse 200 (j_print J (info_doc J update s1)) s1)
         else if type = ''save''
         then if j_isObject J (j_get J json ''config'')
              then (let s1 = saveFile (file_write w) ''/config.json'' (j_print J (j_get J json ''config'')) s;
                        s2 = saveConfig (j_get J json ''config'') s1
                    in sendOK s2)
              else sendInvalid s
         else if type = ''restart'' then emits [DelayMs 500, Restart] (sendOK s)
         else if type = ''update''
         then (let (update, s1) = hasUpdate (wan_up w) (http_check w) s
               in if update then OTAHandler_update (sendOK s1)
                  else sendResponse 400 ''{"type":"error","message":"No update available"}'' s1)
         else if type = ''reset''
         then emits [DelayMs 1000, Restart] (FileHandler_reset (file_write w) (sendOK s))
         else sendResponse 400 ''{"type":"error","message":"Not implemented"}'' s)\<close>

definition web_root ::
  "'j json_lib \<Rightarrow> web_in \<Rightarrow> ('j, 'z) ota_state_scheme \<Rightarrow> ('j, 'z) ota_state_scheme" where
  "web_root J w s =
     (let (ok, s1) = needAuth J w s
      in if ok
         then if \<not> fs_exists s1 ''/index.html''
              then emit (Http (Send 500 ''text/plain'' ''Invalid LittleFS'')) s1
              else emit (Http (SendFile ''/index.html'' ''text/html; charset=utf-8'')) s1
         else s1)"

definition web_notFound :: "('j, 'z) ota_state_scheme \<Rightarrow> ('j, 'z) ota_state_scheme" where
  "web_notFound s = emit (Http (Send 404 ''text/plain'' ''Page not found'')) s"

definition web_api ::
  "'j json_lib \<Rightarrow> web_in \<Rightarrow> 'j \<Rightarrow> ('j, 'z) ota_state_scheme \<Rightarrow> ('j, 'z) ota_state_scheme" where
  "web_api J w json s =
     (let (ok, s1) = needAuth J w s
      in if ok
         then (let (valid, s2) = checkRequest J json s1
               in if valid then handleAPICall J w json s2 else s2)
         else s1)"

definition WebHandler_setup :: "('j, 'z) ota_state_scheme \<Rightarrow> ('j, 'z) ota_state_scheme" where
  "WebHandler_setup s =
     emits [Http OnRoot, Http OnNotFound, Http (AddApiHandler ''/api''), Http ServerBegin,
       SerialOut [Text ''Webserver started'']] s"

definition WebHandler_loop :: "('j, 'z) ota_state_scheme \<Rightarrow> ('j, 'z) ota_state_scheme" where
  "WebHandler_loop s = s"

subsection \<open>Responses\<close>

fun is_response :: "event \<Rightarrow> bool" where
  "is_response (Http (Send _ _ _)) = True"
| "is_response (Http (SendFile _ _)) = True"
| "is_response (Http RequestAuthentication) = True"
| "is_response _ = False"

definition responses :: "('j, 'z) ota_state_scheme \<Rightarrow> event list" where
  "responses s = filter is_response (evlog s)"

definition request_type :: "'j json_lib \<Rightarrow> 'j \<Rightarrow> string" where
  "request_type J json = j_asString J (j_get J json ''type'')"

text \<open>A \<^verbatim>\<open>relais\<close> request without an integer channel and a Boolean state.\<close>

definition incomplete_relais :: "'j json_lib \<Rightarrow> 'j \<Rightarrow> bool" where
  "incomplete_relais J json \<longleftrightarrow> request_type J json = ''relais'' \<and>
     \<not> (j_isInt J (j_get J json ''channel'') \<and> j_isBool J (j_get J json ''state''))"

definition authorised :: "'j json_lib \<Rightarrow> web_in \<Rightarrow> ('j, 'z) ota_state_scheme \<Rightarrow> bool" where
  "authorised J w s = fst (needAuth J w s)"

lemma responses_emit [simp]:
  "responses (emit e s) = responses s @ (if is_response e then [e] else [])"
  "responses (emits es s) = responses s @ filter is_response es"
  by (simp_all add: responses_def)

lemma responses_frame [simp]:
  "responses (setRelais x c b s) = responses s"
  "responses (setRelaisDuration v ch d now s) = responses s"
  "responses (saveFile r p str s) = responses s" "responses (saveConfig j s) = responses s"
  "responses (snd (readFile p s)) = responses s"
  by (auto simp: responses_def setRelais_log setRelaisDuration_def saveConfig_def readFile_def Let_def
      split: option.splits)

lemma responses_reset [simp]: "responses (FileHandler_reset r s) = responses s"
  by (simp add: FileHandler_reset_def copyFile_def Let_def case_prod_unfold)

lemma needAuth_cases:
  "needAuth J w s = (if authorised J w s then (True, s) else (False, emit (Http RequestAuthentication) s))"
  by (simp add: authorised_def needAuth_def Let_def)

lemmas api_defs = handleAPICall_def sendOK_def sendInvalid_def sendResponse_def hasUpdate_def
  checkWAN_def OTAHandler_update_def

subsection \<open>Properties\<close>

text \<open>Requests and call results for concrete inputs.\<close>

definition demo_web :: web_in where
  "demo_web = \<lparr>authenticate = (\<lambda>u p. False), cpu_freq = 160, web_rssi = FFin (- 60), web_mqtt_up = True,
     now_up = 9000, now_duration = 9000, wan_up = False, http_check = False, stray_pin = 77,
     overflowed = 0, file_write = WriteAll\<rparr>"

definition demo_secured :: "jv ota_state" where
  "demo_secured = demo_ota\<lparr>config := JObj [(''admin'', JObj [(''state'', JBool True)])]\<rparr>"

definition relais_request :: "cint \<Rightarrow> bool \<Rightarrow> cint \<Rightarrow> jv" where
  "relais_request c b d = JObj [(''type'', JText ''relais''), (''channel'', JInt c),
     (''state'', JBool b), (''duration'', JInt d)]"

text \<open>
  Access control. With the administrator login enabled, a request whose credentials the
  server library rejects only gets the authentication challenge: neither the page nor any API
  call is served, and no relay, file, configuration value or timer changes.
\<close>
lemma unauthorised_request_inert:
  assumes "j_asBool J (j_path J (getConfig s) [''admin'', ''state''])"
    and "\<not> authenticate w (j_asCStr J (j_path J (getConfig s) [''admin'', ''user'']))
      (j_asCStr J (j_path J (getConfig s) [''admin'', ''password'']))"
  shows "web_api J w json s = emit (Http RequestAuthentication) s \<and>
    web_root J w s = emit (Http RequestAuthentication) s"
  using assms by (simp add: web_api_def web_root_def needAuth_def Let_def)

text \<open>
  C28: Every API request is answered exactly once, whatever it holds, with one exception: a
  \<^verbatim>\<open>relais\<close> request without an integer channel and a Boolean state gets no answer at all.
\<close>
theorem api_answers_once:
  "length (responses (web_api J w json s)) = length (responses s) +
    (if authorised J w s \<and> j_isString J (j_get J json ''type'') \<and> incomplete_relais J json then 0 else 1)"
proof (cases "authorised J w s \<and> j_isString J (j_get J json ''type'')")
  case True
  have "length (responses (handleAPICall J w json s)) =
      length (responses s) + (if incomplete_relais J json then 0 else 1)"
    by (simp add: api_defs incomplete_relais_def request_type_def Let_def)
  then show ?thesis
    using True by (simp add: web_api_def needAuth_cases checkRequest_def)
next
  case False
  then show ?thesis
    by (auto simp: web_api_def needAuth_cases checkRequest_def sendResponse_def)
qed

text \<open>
  Only \<^verbatim>\<open>relais\<close>, \<^verbatim>\<open>save\<close> and \<^verbatim>\<open>reset\<close> requests change the state of the device; all others, also
  malformed ones, only add to the log.
\<close>
lemma api_read_only:
  assumes "request_type J json \<notin> {''relais'', ''save'', ''reset''}"
  shows "web_api J w json s = s\<lparr>evlog := evlog (web_api J w json s)\<rparr>"
  using assms
  by (simp add: web_api_def needAuth_def checkRequest_def api_defs request_type_def emit_def emits_def
      Let_def)

text \<open>A complete \<^verbatim>\<open>relais\<close> request for one of the two channels.\<close>

definition relais_ok :: "'j json_lib \<Rightarrow> 'j \<Rightarrow> bool" where
  "relais_ok J json \<longleftrightarrow> request_type J json = ''relais'' \<and> j_isString J (j_get J json ''type'') \<and>
     j_isInt J (j_get J json ''channel'') \<and> j_isBool J (j_get J json ''state'')"

lemma relais_api:
  assumes "authorised J w s" and "relais_ok J json"
  defines "c \<equiv> j_asInt J (j_get J json ''channel'')"
  defines "r \<equiv> setRelais (stray_pin w) (ucast c) (j_asBool J (j_get J json ''state''))
    (emit (SerialOut [Text ''API Call: '', Text ''relais'']) s)"
  shows "web_api J w json s = sendOK (if j_isInt J (j_get J json ''duration'')
    then setRelaisDuration (overflowed w) c (j_asInt J (j_get J json ''duration'')) (now_duration w) r else r)"
  using assms(1,2)
  by (simp add: web_api_def needAuth_cases checkRequest_def handleAPICall_def relais_ok_def
      request_type_def r_def c_def Let_def)

lemma sendOK_frame [simp]:
  "relay1 (sendOK s) = relay1 s" "relay2 (sendOK s) = relay2 s" "ch1 (sendOK s) = ch1 s"
  "ch2 (sendOK s) = ch2 s" "pin_level p (sendOK s) = pin_level p s"
  "config (sendOK s) = config s" "fs (sendOK s) = fs s" "mounted (sendOK s) = mounted s"
  by (simp_all add: sendOK_def sendResponse_def pin_level_emit)

text \<open>
  C20: A \<^verbatim>\<open>relais\<close> request for channel 1 or 2 does what it asks for: the relay and its pin take
  the requested state, the timer is armed with the duration (the \<^verbatim>\<open>int\<close> product \<^verbatim>\<open>duration * 1000\<close>; any value when that
  overflows) or disarmed when there is none, and
  the other channel, its pin and its timer are not touched.
\<close>
theorem relais_request_effect:
  assumes "authorised J w s" and "relais_ok J json"
    and "j_asInt J (j_get J json ''channel'') = c" and "channel_ok c" and "c' = 3 - c"
  shows "getState c (web_api J w json s) = j_asBool J (j_get J json ''state'') \<and>
    relay_pin c (web_api J w json s) = j_asBool J (j_get J json ''state'') \<and>
    deadline c (web_api J w json s) = (if j_isInt J (j_get J json ''duration'')
      then now_duration w + (if fits_ms (j_asInt J (j_get J json ''duration''))
        then j_asInt J (j_get J json ''duration'') * 1000 else overflowed w)
      else - 1) \<and>
    getState c' (web_api J w json s) = getState c' s \<and>
    relay_pin c' (web_api J w json s) = relay_pin c' s \<and>
    deadline c' (web_api J w json s) = deadline c' s"
  using assms(3-5)
  by (auto simp: relais_api [OF assms(1,2)] getState_def relay_pin_def deadline_def setRelais_regs
      setRelais_pin setRelaisDuration_deadline product_ms_def pin_level_emit)

theorem relais_request_effect_witness:
  "getState 2 (web_api (jv_lib '''' JNull) demo_web (relais_request 2 True 60) demo_ota) \<and>
   deadline 2 (web_api (jv_lib '''' JNull) demo_web (relais_request 2 True 60) demo_ota) = 69000"
proof -
  have a: "authorised (jv_lib '''' JNull) demo_web demo_ota"
    by (simp add: authorised_def needAuth_def jv_lib_def getConfig_def)
  have r: "relais_ok (jv_lib '''' JNull) (relais_request 2 True 60)"
    by (simp add: relais_ok_def request_type_def relais_request_def jv_lib_def)
  from relais_request_effect [OF a r, of 2 1] show ?thesis
    by (simp add: fits_ms_def relais_request_def jv_lib_def demo_web_def)
qed

text \<open>
  The channel number is cut to eight bits on its way to the relay, but not on its way to
  the timer: a request for a channel such as 257 switches relay 1, and a duration in it is
  ignored, so that the relay stays on without a deadline.
\<close>
lemma truncated_channel:
  assumes "authorised J w s" and "relais_ok J json" and "j_asBool J (j_get J json ''state'')"
    and "(ucast (j_asInt J (j_get J json ''channel'')) :: int8_t) = 1"
    and "j_asInt J (j_get J json ''channel'') \<noteq> 1"
  shows "getState 1 (web_api J w json s) \<and> relay_pin 1 (web_api J w json s) \<and>
    deadline 1 (web_api J w json s) = - 1"
  using assms(3-5)
  by (auto simp: relais_api [OF assms(1,2)] getState_def relay_pin_def deadline_def setRelais_regs
      setRelais_pin setRelaisDuration_deadline)

end
