(* ===== verification/Firmware.thy ===== *)
theory Firmware
  imports Web_Handler
begin

text \<open>
  \<^verbatim>\<open>src/main.cpp\<close> and the firmware as a whole. \<open>main_setup\<close> and \<open>main_loop\<close> compose the handlers
  in the order of the source. \<open>power_on\<close> is what a reset of the chip does: the globals get
  their initial values, the files stay.

  The firmware runs several activities at once: the main loop, the web server, the ADC task and
  the callbacks of the MQTT and OTA libraries. An \<open>action\<close> is one handler call of one of them
  with the values its calls return, or a restart; \<open>reachable\<close> lets the actions come in any
  order, so that its states include those of every interleaving of whole handler calls (the
  main loop is one such order, \<open>main_loop_run\<close>). \<open>P\<close> restricts the actions; \<open>sane\<close> says what
  the ADC driver documents, \<open>valid\<close> adds what makes a request well-defined.
\<close>

type_synonym 'j firmware = "'j ota_state"

definition power_on :: "'j json_lib \<Rightarrow> 'j firmware \<Rightarrow> 'j firmware" where
  "power_on J s = \<lparr>evlog = evlog s @ [PowerOn], mounted = False, fs = fs s, config = j_null J,
     previousMillis = 0, scanMillis = 0, displayMillis = 0, ch1 = - 1, ch2 = - 1,
     relay1 = False, relay2 = False, ledState = False, latestVoltage = FFin 0,
     systemLed = True, maxV = f32 (12 / 5), minV = FFin 0, tankVolume = f32 1000,
     scanCurrent = FFin 0, scanTemperature = FFin 0, scanWaterLevel = FFin 0,
     scanWaterVolume = FFin 0, displayEnabled = False, adcTasks = [],
     mode = 0, maxL = FFin 0, minL = FFin 0, fillL = FFin 0, fillM = False, pumpM = False,
     autoMillis = 0, connectionStartTime = 0, lastReconnectAttempt = 0, apStarted = False,
     isEnabled = False, previousMillisMQTT = 0, reconnectMQTT = 0, otaEnabled = False\<rparr>"

text \<open>What the calls made during \<^verbatim>\<open>setup\<close> and during one pass of \<^verbatim>\<open>loop\<close> return.\<close>

record boot_in =
  mount :: mount_result
  config_write :: write_result
  reset_pin :: bool
  reset_write :: write_result
  display_ok :: bool
  sta_ok :: bool
  boot_ap :: ap_in
  now_boot_wifi :: millis_t
  boot_up :: bool
  now_boot_mqtt :: millis_t

record loop_in =
  dev :: dev_in
  wifi_up1 :: bool
  wifi_up2 :: bool
  loop_ap :: ap_in
  now_wifi :: millis_t
  mqtt :: mqtt_in
  loop_wan :: bool
  now_auto :: millis_t

text \<open>The storage was mounted with its files.\<close>

abbreviation mount_ok :: "boot_in \<Rightarrow> bool" where
  "mount_ok b \<equiv> mount b = Mounted"

abbreviation serial_up :: "'j firmware \<Rightarrow> 'j firmware" where
  "serial_up s \<equiv> emits [SerialBegin 115200, SerialDebugOutput True] s"

definition main_setup :: "'j json_lib \<Rightarrow> boot_in \<Rightarrow> 'j firmware \<Rightarrow> 'j firmware" where
  "main_setup J b s =
     (let s1 = FileHandler_begin (mount b) (serial_up s);
          s2 = snd (loadConfig J (config_write b) s1);
          s3 = DeviceHandler_setup J (reset_pin b) (reset_write b) (display_ok b) s2;
          s4 = WiFiHandler_setup J (sta_ok b) (boot_ap b) (now_boot_wifi b) s3;
          s5 = WebHandler_setup s4;
          s6 = OTAHandler_setup J s5;
          s7 = AutomationHandler_setup J s6;
          s8 = (if WiFiHandler_isConnected (boot_up b) then MQTTHandler_setup J (now_boot_mqtt b) s7
                else s7)
      in emit (SerialOut [Text ''Ready'']) s8)"

definition main_loop :: "'j json_lib \<Rightarrow> loop_in \<Rightarrow> 'j firmware \<Rightarrow> 'j firmware" where
  "main_loop J i s =
     (let s1 = DeviceHandler_loop (dev i) s;
          s2 = WiFiHandler_loop J (wifi_up1 i) (wifi_up2 i) (loop_ap i) (now_wifi i) s1;
          s3 = WebHandler_loop s2;
          s4 = MQTTHandler_loop J (mqtt i) s3;
          s5 = OTAHandler_loop (loop_wan i) s4
      in AutomationHandler_loop (now_auto i) s5)"

datatype 'j action =
    Blink millis_t
  | Relais millis_t
  | Scan bool fl millis_t
  | Show bool millis_t
  | WifiLoop bool bool ap_in millis_t
  | MqttLoop mqtt_in
  | OtaLoop bool
  | AutoLoop millis_t
  | AdcStep nat "32 word"
  | Api web_in 'j
  | RootPage web_in
  | NotFound
  | MqttConnected bool
  | MqttDisconnected cint
  | OtaProgress "32 word" "32 word"
  | OtaStart
  | OtaEnd
  | Reboot boot_in

fun act :: "'j json_lib \<Rightarrow> 'j action \<Rightarrow> 'j firmware \<Rightarrow> 'j firmware" where
  "act J (Blink now) s = handleBlink now s"
| "act J (Relais now) s = handleRelais now s"
| "act J (Scan taskOk temp now) s = handleScan taskOk temp now s"
| "act J (Show up now) s = handleDisplay up now s"
| "act J (WifiLoop up1 up2 ip now) s = WiFiHandler_loop J up1 up2 ip now s"
| "act J (MqttLoop i) s = MQTTHandler_loop J i s"
| "act J (OtaLoop up) s = OTAHandler_loop up s"
| "act J (AutoLoop now) s = AutomationHandler_loop now s"
| "act J (AdcStep k mv) s = adcTaskStep k mv s"
| "act J (Api w json) s = web_api J w json s"
| "act J (RootPage w) s = web_root J w s"
| "act J NotFound s = web_notFound s"
| "act J (MqttConnected b) s = mqtt_onConnect b s"
| "act J (MqttDisconnected r) s = mqtt_onDisconnect r s"
| "act J (OtaProgress p t) s = ota_onProgress p t s"
| "act J OtaStart s = ota_onStart s"
| "act J OtaEnd s = ota_onEnd s"
| "act J (Reboot b) s = main_setup J b (power_on J s)"

inductive reachable :: "'j json_lib \<Rightarrow> ('j action \<Rightarrow> bool) \<Rightarrow> 'j firmware \<Rightarrow> bool"
  for J and P where
  boot: "evlog s = [] \<Longrightarrow> reachable J P (main_setup J b (power_on J s))"
| step: "reachable J P s \<Longrightarrow> P a \<Longrightarrow> reachable J P (act J a s)"

fun sane :: "'j action \<Rightarrow> bool" where
  "sane (AdcStep k mv) = (unat mv \<le> 3300)"
| "sane _ = True"

definition loop_actions :: "loop_in \<Rightarrow> 'j action list" where
  "loop_actions i =
     [Blink (now_blink (dev i)), Relais (now_relais (dev i)),
      Scan (task_ok (dev i)) (cpu_temp (dev i)) (now_scan (dev i)),
      Show (wifi_up (dev i)) (now_display (dev i)),
      WifiLoop (wifi_up1 i) (wifi_up2 i) (loop_ap i) (now_wifi i),
      MqttLoop (mqtt i), OtaLoop (loop_wan i), AutoLoop (now_auto i)]"

lemma main_loop_run: "main_loop J i s = fold (act J) (loop_actions i) s"
  by (simp add: main_loop_def loop_actions_def DeviceHandler_loop_def WebHandler_loop_def Let_def)

lemma reachable_run: "reachable J P s \<Longrightarrow> list_all P as \<Longrightarrow> reachable J P (fold (act J) as s)"
  by (induction as arbitrary: s) (auto intro: reachable.step)

subsection \<open>Handlers that touch neither relays nor radio\<close>

text \<open>
  A monitor reads one aspect of the world from the log. \<open>neutral\<close> events mean nothing to any
  of the monitors used here (relay pins, access point, radio mode, last will).
\<close>

fun neutral :: "event \<Rightarrow> bool" where
  "neutral PowerOn = False"
| "neutral (DigitalWrite p v) = (p \<noteq> RELAIS_CH1 \<and> p \<noteq> RELAIS_CH2)"
| "neutral (Wifi (WifiMode m)) = False"
| "neutral (Wifi (SoftAP n p ok)) = False"
| "neutral (Wifi (SoftAPdisconnect b)) = False"
| "neutral (Mqtt (SetWill t q r p)) = False"
| "neutral (Mqtt MqttConnect) = False"
| "neutral _ = True"

locale monitor =
  fixes watch :: "'a \<Rightarrow> event list \<Rightarrow> 'a"
  assumes watch_Nil: "watch a [] = a"
    and watch_append: "watch a (xs @ ys) = watch (watch a xs) ys"
    and watch_neutral: "neutral e \<Longrightarrow> watch a [e] = a"
begin

lemma watch_quiet: "list_all neutral es \<Longrightarrow> watch a es = a"
proof (induction es arbitrary: a)
  case (Cons e es)
  have "watch a (e # es) = watch (watch a [e]) es" using watch_append [of a "[e]" es] by simp
  with Cons watch_neutral [of e a] show ?case by simp
qed (simp add: watch_Nil)

lemma watch_extend: "list_all neutral es \<Longrightarrow> watch a (xs @ es) = watch a xs"
  by (simp add: watch_append watch_quiet)

end

lemma pin_after_neutral:
  "neutral e \<Longrightarrow> pin_after RELAIS_CH1 b [e] = b" "neutral e \<Longrightarrow> pin_after RELAIS_CH2 b [e] = b"
  by (cases e; simp)+

lemma ap_after_neutral: "neutral e \<Longrightarrow> ap_after b [e] = b"
  by (induction b "[e]" rule: ap_after.induct) auto

lemma radio_after_neutral: "neutral e \<Longrightarrow> radio_after m [e] = m"
  by (induction m "[e]" rule: radio_after.induct) auto

lemma will_neutral: "neutral e \<Longrightarrow> will_before_connect b [e]"
  by (induction b "[e]" rule: will_before_connect.induct) auto

lemma will_quiet: "list_all neutral es \<Longrightarrow> will_before_connect b es"
proof (induction es arbitrary: b)
  case (Cons e es)
  then show ?case using will_append [of b "[e]" es] will_neutral [of e b] by simp
qed simp

interpretation pin1: monitor "pin_after RELAIS_CH1"
  by unfold_locales (simp_all add: pin_after_append pin_after_neutral)

interpretation pin2: monitor "pin_after RELAIS_CH2"
  by unfold_locales (simp_all add: pin_after_append pin_after_neutral)

interpretation ap: monitor ap_after
  by unfold_locales (simp_all add: ap_after_neutral)

interpretation radio: monitor radio_after
  by unfold_locales (simp_all add: radio_after_neutral)

subsection \<open>The invariant\<close>

definition relay_sync :: "('j, 'z) device_state_scheme \<Rightarrow> bool" where
  "relay_sync s \<longleftrightarrow> getState 1 s = pin_level RELAIS_CH1 s \<and> getState 2 s = pin_level RELAIS_CH2 s"

text \<open>A running ADC task has taken the samples it no longer has to take.\<close>

definition task_ok_sum :: "nat \<times> 32 word \<Rightarrow> bool" where
  "task_ok_sum t \<longleftrightarrow> fst t \<le> 64 \<and> unat (snd t) \<le> (64 - fst t) * 3300"

definition voltage_ok :: "('j, 'z) device_state_scheme \<Rightarrow> bool" where
  "voltage_ok s \<longleftrightarrow> fl_in 0 V_MAX (latestVoltage s) \<and> list_all task_ok_sum (adcTasks s)"

definition level_ok :: "('j, 'z) device_state_scheme \<Rightarrow> bool" where
  "level_ok s \<longleftrightarrow> getLevelCached s = FNaN \<or> fl_in 0 100 (getLevelCached s)"

text \<open>
  Register and pin of the relays agree as long as the run has not left C++: a channel other than
  1 and 2 in a request writes an indeterminate pin.
\<close>

definition core_inv :: "('j, 'z) device_state_scheme \<Rightarrow> bool" where
  "core_inv s \<longleftrightarrow> (undefined_free (evlog s) \<longrightarrow> relay_sync s) \<and> voltage_ok s \<and> level_ok s \<and> will_before_connect False (evlog s)"

definition firmware_inv :: "('j, 'z) wifi_state_scheme \<Rightarrow> bool" where
  "firmware_inv s \<longleftrightarrow> core_inv s \<and> wifi_ok s"

definition quietly :: "('j, 'z) wifi_state_scheme \<Rightarrow> ('j, 'z) wifi_state_scheme \<Rightarrow> bool" where
  "quietly s t \<longleftrightarrow> (\<exists>es. evlog t = evlog s @ es \<and> list_all neutral es) \<and>
     relay1 t = relay1 s \<and> relay2 t = relay2 s \<and> latestVoltage t = latestVoltage s \<and>
     adcTasks t = adcTasks s \<and> scanWaterLevel t = scanWaterLevel s \<and> apStarted t = apStarted s"

lemma quietlyI:
  assumes "evlog t = evlog s @ es" and "list_all neutral es"
    and "relay1 t = relay1 s" and "relay2 t = relay2 s" and "latestVoltage t = latestVoltage s"
    and "adcTasks t = adcTasks s" and "scanWaterLevel t = scanWaterLevel s"
    and "apStarted t = apStarted s"
  shows "quietly s t"
  using assms by (auto simp: quietly_def)

lemma quietly_inv:
  assumes "quietly s t"
  shows "core_inv s \<Longrightarrow> core_inv t" and "wifi_ok t = wifi_ok s" and
    "ap_after ApDown (evlog t) = ap_after ApDown (evlog s)"
proof -
  obtain es where es: "evlog t = evlog s @ es" "list_all neutral es"
    using assms by (auto simp: quietly_def)
  show "wifi_ok t = wifi_ok s"
    using assms es by (simp add: wifi_ok_def quietly_def ap.watch_quiet radio.watch_quiet
        cong: option.case_cong wifi_mode.case_cong)
  show "ap_after ApDown (evlog t) = ap_after ApDown (evlog s)"
    using es by (simp add: ap.watch_quiet)
  show "core_inv s \<Longrightarrow> core_inv t"
    using assms es
    by (simp add: quietly_def core_inv_def relay_sync_def voltage_ok_def level_ok_def
        getState_def getLevelCached_def pin_level_def pin1.watch_extend pin2.watch_extend will_quiet)
qed

lemma quietly_firmware: "quietly s t \<Longrightarrow> firmware_inv s \<Longrightarrow> firmware_inv t"
  using quietly_inv by (auto simp: firmware_inv_def)

lemma quietly_trans: "quietly s t \<Longrightarrow> quietly t u \<Longrightarrow> quietly s u"
  by (auto simp: quietly_def)

lemma quietly_emits: "list_all neutral es \<Longrightarrow> quietly s (emits es s)"
  by (rule quietlyI [of _ _ es]) simp_all

lemma quietly_emit: "neutral e \<Longrightarrow> quietly s (emit e s)"
  by (rule quietlyI [of _ _ "[e]"]) simp_all

lemma quietly_refl [simp]: "quietly s s"
  by (rule quietlyI [of _ _ "[]"]) simp_all

lemma quietly_then_emit [intro!]:
  "neutral e \<Longrightarrow> quietly s t \<Longrightarrow> quietly s (emit e t)"
  "list_all neutral es \<Longrightarrow> quietly s t \<Longrightarrow> quietly s (emits es t)"
  using quietly_trans quietly_emit quietly_emits by blast+

lemma neutral_pub_events [simp]: "list_all neutral (pub_events xs)"
  by (induction xs) (auto simp: pub_events_def)

subsection \<open>Every action keeps the invariant\<close>

lemma quietly_blink: "quietly s (handleBlink now s)"
  by (auto simp: handleBlink_def config_defs intro!: quietlyI [of "s\<lparr>previousMillis := now, ledState := b\<rparr>" _ "[]" for b])

lemma quietly_display: "quietly s (handleDisplay up now s)"
proof (cases "displayEnabled s \<and> DISPLAY_INTERVAL \<le> now - displayMillis s")
  case True
  have "list_all neutral (map Display ds)" for ds by (induction ds) simp_all
  then have "quietly t (updateDisplay up t)" for t :: "('a, 'b) wifi_state_scheme"
    unfolding updateDisplay_def by (rule quietly_emits)
  moreover have "quietly s (s\<lparr>displayMillis := now\<rparr>)" by (rule quietlyI [of _ _ "[]"]) simp_all
  ultimately show ?thesis using True by (auto simp: handleDisplay_def intro: quietly_trans)
qed (auto simp: handleDisplay_def)

lemma quietly_ota: "quietly s (OTAHandler_loop up s)"
  by (auto simp: OTAHandler_loop_def Let_def)

lemma quietly_callbacks:
  "quietly s (mqtt_onConnect b s)" "quietly s (mqtt_onDisconnect r s)" "quietly s (web_notFound s)"
  "quietly s (ota_onProgress p t s)" "quietly s (ota_onStart s)" "quietly s (ota_onEnd s)"
  by (auto simp: mqtt_onConnect_def mqtt_onDisconnect_def web_notFound_def publish_def
      ota_onProgress_def ota_onStart_def ota_onEnd_def)

lemma quietly_root: "quietly s (web_root J w s)"
  by (auto simp: web_root_def needAuth_cases)

lemma quietly_fields:
  "quietly s (s\<lparr>fillM := b\<rparr>)" "quietly s (s\<lparr>pumpM := b\<rparr>)" "quietly s (s\<lparr>autoMillis := t\<rparr>)"
  by (auto intro!: quietlyI [of _ _ "[]"])

lemma setRelais_inv: "firmware_inv s \<Longrightarrow> firmware_inv (setRelais x c b s)"
proof -
  assume inv: "firmware_inv s"
  have "apStarted (setRelais x c b s) = apStarted s" by (simp add: setRelais_def)
  then have "wifi_ok (setRelais x c b s) = wifi_ok s"
    by (simp add: wifi_ok_def setRelais_log cong: option.case_cong wifi_mode.case_cong)
  moreover have "undefined_free (evlog (setRelais x c b s)) \<longrightarrow> relay_sync (setRelais x c b s)"
    using inv by (auto simp: firmware_inv_def core_inv_def relay_sync_def getState_def setRelais_regs
        setRelais_pin setRelais_log)
  ultimately show ?thesis
    using inv by (simp add: firmware_inv_def core_inv_def voltage_ok_def level_ok_def
        getLevelCached_def setRelais_log)
qed

lemma handleRelais_inv: "firmware_inv s \<Longrightarrow> firmware_inv (handleRelais now s)"
  by (simp add: handleRelais_def setRelais_inv Let_def)

lemma setFill_inv: "firmware_inv s \<Longrightarrow> firmware_inv (setFill b s)"
  unfolding setFill_def by (rule quietly_firmware [OF quietly_fields(1) setRelais_inv])

lemma setPump_inv: "firmware_inv s \<Longrightarrow> firmware_inv (setPump b s)"
  unfolding setPump_def by (rule quietly_firmware [OF quietly_fields(2) setRelais_inv])

lemma auto_inv: "firmware_inv s \<Longrightarrow> firmware_inv (AutomationHandler_loop now s)"
  using quietly_firmware [OF quietly_fields(3), of s now]
  by (simp add: AutomationHandler_loop_def handleFill_def handlePump_def setFill_inv setPump_inv Let_def)

lemma round2_NaN [simp]: "roundToTwoDecimals FNaN = FNaN"
  by (simp add: roundToTwoDecimals_def fl_mul_def fl_div_def fl_round_def)

lemma scanSensors_level:
  "scanWaterLevel (scanSensors taskOk temp s) = roundToTwoDecimals (getLevel s)"
  by (simp add: scanSensors_def getLevel_def Let_def)

lemma scanSensors_frame [simp]:
  "relay1 (scanSensors k t s) = relay1 s" "relay2 (scanSensors k t s) = relay2 s"
  "latestVoltage (scanSensors k t s) = latestVoltage s"
  "evlog (scanSensors k t s) = evlog s @ [TaskCreate]"
  "adcTasks (scanSensors k t s) = (if k then adcTasks s @ [(64, 0)] else adcTasks s)"
  by (simp_all add: scanSensors_def Let_def)

lemma scanSensors_apStarted [simp]: "apStarted (scanSensors k t s) = apStarted s"
  by (simp add: scanSensors_def Let_def emit_def)

lemma scan_inv: "firmware_inv s \<Longrightarrow> firmware_inv (handleScan taskOk temp now s)"
proof (cases "SCAN_INTERVAL \<le> now - scanMillis s")
  case True
  assume inv: "firmware_inv s"
  let ?t = "scanSensors taskOk temp (s\<lparr>scanMillis := now\<rparr>)"
  have "wifi_ok ?t = wifi_ok s"
    by (simp add: wifi_ok_def cong: option.case_cong wifi_mode.case_cong)
  moreover have "level_ok ?t"
    using getLevel_in [of "s\<lparr>scanMillis := now\<rparr>"] round2_range [of "getLevel (s\<lparr>scanMillis := now\<rparr>)"]
    by (cases "getLevel (s\<lparr>scanMillis := now\<rparr>) = FNaN")
      (simp_all add: level_ok_def getLevelCached_def scanSensors_level)
  ultimately have "firmware_inv ?t"
    using inv by (auto simp: firmware_inv_def core_inv_def relay_sync_def getState_def pin_level_def
        pin_after_append voltage_ok_def task_ok_sum_def)
  then show ?thesis using True by (simp add: handleScan_def)
qed (simp add: handleScan_def)

lemma task_ok_sum_step:
  assumes "task_ok_sum (Suc n, acc)" and "unat mv \<le> 3300"
  shows "task_ok_sum (n, acc + mv)"
proof -
  have n: "Suc n \<le> 64" "unat acc \<le> (64 - Suc n) * 3300"
    using assms(1) by (simp_all add: task_ok_sum_def)
  then have "unat acc + unat mv \<le> (64 - n) * 3300" using assms(2) by (simp add: Suc_diff_le)
  moreover have "(64 - n) * 3300 \<le> 211200" by simp
  ultimately have "unat (acc + mv) = unat acc + unat mv"
    by (intro unat_add_lem [THEN iffD1]) simp
  with \<open>unat acc + unat mv \<le> (64 - n) * 3300\<close> n show ?thesis by (simp add: task_ok_sum_def)
qed

lemma adc_voltage:
  assumes "voltage_ok s" and "unat mv \<le> 3300"
  shows "voltage_ok (adcTaskStep k mv s)"
proof (cases "k < length (adcTasks s)")
  case True
  obtain n acc where k: "adcTasks s ! k = (n, acc)" by (cases "adcTasks s ! k")
  have ok: "task_ok_sum (n, acc)"
    using assms(1) True k unfolding voltage_ok_def list_all_length by metis
  have all: "\<forall>x \<in> set (adcTasks s). task_ok_sum x"
    using assms(1) by (simp add: voltage_ok_def list_all_iff)
  show ?thesis
  proof (cases n)
    case 0
    have "unat acc \<le> 211200" using ok 0 by (simp add: task_ok_sum_def)
    then have "fl_in 0 V_MAX (ema (latestVoltage s) (average_of 64 acc))"
      using assms(1) by (intro ema_range average_range) (simp_all add: voltage_ok_def)
    then show ?thesis
      using True k 0 all by (auto simp: adcTaskStep_def finishReading_def voltage_ok_def list_all_iff
          dest: in_set_takeD in_set_dropD)
  next
    case (Suc m)
    have "task_ok_sum (m, acc + mv)" using task_ok_sum_step ok assms(2) Suc by simp
    then show ?thesis
      using True k Suc all assms(1) set_update_subset_insert [of "adcTasks s" k "(m, acc + mv)"]
      by (auto simp: adcTaskStep_def voltage_ok_def list_all_iff)
  qed
qed (use assms in \<open>simp add: adcTaskStep_def\<close>)

lemma adc_frame:
  "\<exists>es. evlog (adcTaskStep k mv s) = evlog s @ es \<and> list_all neutral es"
  "relay1 (adcTaskStep k mv s) = relay1 s" "relay2 (adcTaskStep k mv s) = relay2 s"
  "scanWaterLevel (adcTaskStep k mv s) = scanWaterLevel s"
  by (auto simp: adcTaskStep_def finishReading_def split: prod.splits nat.splits)

lemma adc_apStarted: "apStarted (adcTaskStep k mv s) = apStarted s"
  by (auto simp: adcTaskStep_def finishReading_def emit_def split: prod.splits nat.splits)

lemma adc_inv: "firmware_inv s \<Longrightarrow> unat mv \<le> 3300 \<Longrightarrow> firmware_inv (adcTaskStep k mv s)"
proof -
  assume inv: "firmware_inv s" and mv: "unat mv \<le> 3300"
  let ?t = "adcTaskStep k mv s"
  let ?u = "?t\<lparr>latestVoltage := latestVoltage s, adcTasks := adcTasks s\<rparr>"
  have "quietly s ?u"
    using adc_frame [of k mv s] adc_apStarted [of k mv s] by (auto simp: quietly_def)
  then have "firmware_inv ?u" using inv by (rule quietly_firmware)
  moreover have "voltage_ok ?t" using inv mv by (intro adc_voltage) (auto simp: firmware_inv_def core_inv_def)
  moreover have "wifi_ok ?u = wifi_ok ?t"
    by (simp add: wifi_ok_def cong: option.case_cong wifi_mode.case_cong)
  ultimately show ?thesis
    by (simp add: firmware_inv_def core_inv_def relay_sync_def getState_def pin_level_def level_ok_def
        getLevelCached_def)
qed

lemma wifi_frame [simp]:
  "relay1 (checkConnection J u1 u2 ip now s) = relay1 s"
  "relay2 (checkConnection J u1 u2 ip now s) = relay2 s"
  "latestVoltage (checkConnection J u1 u2 ip now s) = latestVoltage s"
  "adcTasks (checkConnection J u1 u2 ip now s) = adcTasks s"
  "scanWaterLevel (checkConnection J u1 u2 ip now s) = scanWaterLevel s"
  "pin_level p (checkConnection J u1 u2 ip now s) = pin_level p s"
  "undefined_free (evlog (checkConnection J u1 u2 ip now s)) = undefined_free (evlog s)"
  by (simp_all add: checkConnection_def startAP_def stopAP_def pin_level_def pin_after_append Let_def)

lemma wifi_inv: "firmware_inv s \<Longrightarrow> firmware_inv (WiFiHandler_loop J u1 u2 ip now s)"
proof -
  assume inv: "firmware_inv s"
  have "will_before_connect False (evlog s) \<Longrightarrow>
      will_before_connect False (evlog (checkConnection J u1 u2 ip now s))"
    by (simp add: checkConnection_def startAP_def stopAP_def Let_def)
  with inv checkConnection_ok [of s] show ?thesis
    by (simp add: firmware_inv_def core_inv_def relay_sync_def getState_def voltage_ok_def
        level_ok_def getLevelCached_def WiFiHandler_loop_def)
qed

lemma mqtt_setup_frame [simp]:
  "relay1 (MQTTHandler_setup J now s) = relay1 s" "relay2 (MQTTHandler_setup J now s) = relay2 s"
  "latestVoltage (MQTTHandler_setup J now s) = latestVoltage s"
  "adcTasks (MQTTHandler_setup J now s) = adcTasks s"
  "scanWaterLevel (MQTTHandler_setup J now s) = scanWaterLevel s"
  "pin_level p (MQTTHandler_setup J now s) = pin_level p s"
  "undefined_free (evlog (MQTTHandler_setup J now s)) = undefined_free (evlog s)"
  "apStarted (MQTTHandler_setup J now s) = apStarted s"
  "ap_after b (evlog (MQTTHandler_setup J now s)) = ap_after b (evlog s)"
  "radio_after m (evlog (MQTTHandler_setup J now s)) = radio_after m (evlog s)"
  by (simp_all add: MQTTHandler_setup_def setLastWill_def pin_level_def pin_after_append Let_def)

lemma mqtt_setup_inv: "firmware_inv s \<Longrightarrow> firmware_inv (MQTTHandler_setup J now s)"
proof -
  assume inv: "firmware_inv s"
  have "wifi_ok (MQTTHandler_setup J now s) = wifi_ok s"
    by (simp add: wifi_ok_def cong: option.case_cong wifi_mode.case_cong)
  with inv setup_will [of s] show ?thesis
    by (simp add: firmware_inv_def core_inv_def relay_sync_def getState_def voltage_ok_def
        level_ok_def getLevelCached_def)
qed

lemma mqtt_inv: "firmware_inv s \<Longrightarrow> firmware_inv (MQTTHandler_loop J i s)"
proof -
  assume inv: "firmware_inv s"
  have "quietly s (emits (pub_events xs) (s\<lparr>previousMillisMQTT := now\<rparr>))" for xs now
    by (rule quietlyI [of _ _ "pub_events xs"]) simp_all
  then have "firmware_inv (emits (pub_events xs) (s\<lparr>previousMillisMQTT := now\<rparr>))" for xs now
    using inv quietly_firmware by blast
  then show ?thesis using inv mqtt_setup_inv [OF inv] by (simp add: MQTTHandler_loop_def publish_all)
qed

lemma quietly_files:
  "quietly s (saveFile r p str s)" "quietly s (saveConfig j s)" "quietly s (snd (readFile p s))"
  "quietly s (FileHandler_begin b s)"
  by (auto simp: saveFile_def saveConfig_def readFile_def FileHandler_begin_def
      intro!: quietlyI [of "s\<lparr>fs := f\<rparr>" _ "[]" for f] quietlyI [of "s\<lparr>config := f\<rparr>" _ "[]" for f]
        quietlyI [of "s\<lparr>mounted := f\<rparr>" _ "[]" for f] quietlyI [of "s\<lparr>mounted := f, fs := g\<rparr>" _ "[]" for f g]
      split: option.splits)

lemma quietly_copy: "quietly s (snd (copyFile r p q s))"
  unfolding copyFile_def Let_def case_prod_unfold snd_conv
  by (rule quietly_then_emit) (auto intro: quietly_trans [OF quietly_files(3) quietly_files(1)])

lemma quietly_duration: "quietly s (setRelaisDuration v c d now s)"
  by (auto simp: setRelaisDuration_def Let_def
      intro!: quietlyI [of "s\<lparr>ch1 := f\<rparr>" _ "[]" for f] quietlyI [of "s\<lparr>ch2 := f\<rparr>" _ "[]" for f])

lemma quietly_send:
  "quietly s (sendResponse i text s)" "quietly s (sendOK s)" "quietly s (sendInvalid s)"
  "quietly s (snd (hasUpdate up chk s))" "quietly s (OTAHandler_update s)"
  by (auto simp: sendOK_def sendInvalid_def sendResponse_def hasUpdate_def OTAHandler_update_def)

lemma quietly_reset: "quietly s (FileHandler_reset r s)"
  unfolding FileHandler_reset_def by (rule quietly_copy)

lemmas quiet_inv = quietly_firmware [OF quietly_send(1)] quietly_firmware [OF quietly_send(2)]
  quietly_firmware [OF quietly_send(3)] quietly_firmware [OF quietly_send(4)]
  quietly_firmware [OF quietly_send(5)] quietly_firmware [OF quietly_reset]
  quietly_firmware [OF quietly_files(1)] quietly_firmware [OF quietly_files(2)]
  quietly_firmware [OF quietly_duration] quietly_firmware [OF quietly_emit]
  quietly_firmware [OF quietly_emits]

lemma api_call_inv: "firmware_inv s \<Longrightarrow> firmware_inv (handleAPICall J w json s)"
  by (simp add: handleAPICall_def quiet_inv setRelais_inv case_prod_unfold Let_def)

lemma api_inv: "firmware_inv s \<Longrightarrow> firmware_inv (web_api J w json s)"
  by (simp add: web_api_def needAuth_cases checkRequest_def api_call_inv quiet_inv)

text \<open>Booting establishes the invariant, whatever the device did before.\<close>

lemma power_on_core:
  "will_before_connect False (evlog s) \<Longrightarrow>
    core_inv (power_on J s) \<and> ap_after ApDown (evlog (power_on J s)) = ApDown"
  by (simp add: power_on_def core_inv_def relay_sync_def getState_def pin_level_def pin_after_append
      voltage_ok_def level_ok_def getLevelCached_def fl_in_def V_MAX_def)

lemma quietly_config: "quietly s (s\<lparr>config := c\<rparr>)"
  by (rule quietlyI [of _ _ "[]"]) simp_all

lemma quietly_load: "quietly s (snd (loadConfig J r s))"
proof -
  let ?s1 = "if \<not> fs_exists s ''/config.json''
    then snd (copyFile r ''/config.json.bak'' ''/config.json'' s) else s"
  have "quietly s ?s1" by (simp add: quietly_copy)
  then have "quietly s (snd (readFile ''/config.json'' ?s1))"
    using quietly_files(3) by (rule quietly_trans)
  then have "quietly s ((snd (readFile ''/config.json'' ?s1))\<lparr>config := c\<rparr>)" for c
    using quietly_config by (rule quietly_trans)
  then show ?thesis by (simp add: loadConfig_def Let_def case_prod_unfold)
qed

lemma quietly_if: "quietly s t \<Longrightarrow> quietly s u \<Longrightarrow> quietly s (if b then t else u)"
  by simp

lemma quietly_device_setup: "quietly s (DeviceHandler_setup J pin rw ok s)"
proof -
  let ?boot = "\<lambda>s. emits [AnalogReadResolution 12, AnalogSetPinAttenuation SENSE, PinMode SENSE INPUT,
    PinMode LED_PIN OUTPUT, PinMode RELAIS_CH1 OUTPUT, PinMode RELAIS_CH2 OUTPUT, PinMode RESET OUTPUT] s"
  let ?s2 = "if pin then FileHandler_reset rw (emit (SerialOut [Text ''Reset'']) (?boot s)) else ?boot s"
  have "quietly s ?s2"
    by (auto intro: quietly_trans [OF _ quietly_reset])
  moreover have "quietly t (t\<lparr>systemLed := a, maxV := b, minV := c, tankVolume := d\<rparr>)"
    for a b c d and t :: "('a, 'b) wifi_state_scheme" by (rule quietlyI [of _ _ "[]"]) simp_all
  ultimately have s3: "quietly s (?s2\<lparr>systemLed := a, maxV := b, minV := c, tankVolume := d\<rparr>)"
    for a b c d by (rule quietly_trans)
  have on: "quietly t (t\<lparr>displayEnabled := True\<rparr>)" for t :: "('a, 'b) wifi_state_scheme"
    by (rule quietlyI [of _ _ "[]"]) simp_all
  have "quietly t (setupDisplay J ok t)" for t :: "('a, 'b) wifi_state_scheme"
    by (auto simp: setupDisplay_def setBrightness_def Let_def intro!: quietly_trans [OF _ on])
  with s3 have s4: "quietly s (setupDisplay J ok
      (?s2\<lparr>systemLed := a, maxV := b, minV := c, tankVolume := d\<rparr>))" for a b c d
    by (rule quietly_trans)
  show ?thesis
    unfolding DeviceHandler_setup_def Let_def by (rule quietly_if) (rule s4, rule s3)
qed

lemma quietly_early_setup:
  "quietly s (DeviceHandler_setup J pin rw ok (snd (loadConfig J cw (FileHandler_begin m (serial_up s)))))"
proof -
  have "quietly s (serial_up s)" by (rule quietly_emits) simp
  then have "quietly s (FileHandler_begin m (serial_up s))" using quietly_files(4) by (rule quietly_trans)
  then have "quietly s (snd (loadConfig J cw (FileHandler_begin m (serial_up s))))"
    using quietly_load by (rule quietly_trans)
  then show ?thesis using quietly_device_setup by (rule quietly_trans)
qed

lemma wifi_setup_core: "core_inv s \<Longrightarrow> core_inv (WiFiHandler_setup J ok ip now s)"
  by (simp add: WiFiHandler_setup_def startAP_def core_inv_def relay_sync_def getState_def
      pin_level_def pin_after_append voltage_ok_def level_ok_def getLevelCached_def Let_def)

lemma quietly_late_setup:
  "quietly s (WebHandler_setup s)" "quietly s (OTAHandler_setup J s)"
  "quietly s (AutomationHandler_setup J s)"
proof -
  show "quietly s (WebHandler_setup s)" by (auto simp: WebHandler_setup_def)
  show "quietly s (OTAHandler_setup J s)"
    by (auto simp: OTAHandler_setup_def Let_def intro!: quietlyI [of "s\<lparr>otaEnabled := True\<rparr>" _ "[]"])
  show "quietly s (AutomationHandler_setup J s)"
    unfolding AutomationHandler_setup_def by (rule quietlyI [of _ _ "[]"]) simp_all
qed

lemma main_setup_inv:
  assumes "will_before_connect False (evlog s)"
  shows "firmware_inv (main_setup J b (power_on J s))"
proof -
  let ?s1 = "FileHandler_begin (mount b) (serial_up (power_on J s))"
  let ?s3 = "DeviceHandler_setup J (reset_pin b) (reset_write b) (display_ok b) (snd (loadConfig J (config_write b) ?s1))"
  let ?s4 = "WiFiHandler_setup J (sta_ok b) (boot_ap b) (now_boot_wifi b) ?s3"
  let ?s7 = "AutomationHandler_setup J (OTAHandler_setup J (WebHandler_setup ?s4))"
  have q: "quietly (power_on J s) ?s3" by (rule quietly_early_setup)
  then have "core_inv ?s3" "ap_after ApDown (evlog ?s3) = ApDown"
    using quietly_inv [OF q] power_on_core [OF assms] by auto
  then have "firmware_inv ?s4"
    using wifi_setup_core WiFiHandler_setup_ok by (auto simp: firmware_inv_def)
  moreover have "quietly ?s4 ?s7" by (meson quietly_trans quietly_late_setup)
  ultimately have "firmware_inv ?s7" using quietly_firmware by blast
  then show ?thesis
    using mqtt_setup_inv [of ?s7] by (auto simp: main_setup_def Let_def intro!: quiet_inv)
qed

lemma firmware_inv_will: "firmware_inv s \<Longrightarrow> will_before_connect False (evlog s)"
  by (simp add: firmware_inv_def core_inv_def)

lemma firmware_inv_act: "firmware_inv s \<Longrightarrow> sane a \<Longrightarrow> firmware_inv (act J a s)"
  by (cases a)
    (simp_all add: handleRelais_inv scan_inv wifi_inv mqtt_inv auto_inv adc_inv api_inv
      quietly_firmware [OF quietly_blink] quietly_firmware [OF quietly_display]
      quietly_firmware [OF quietly_ota] quietly_firmware [OF quietly_root]
      quietly_callbacks [THEN quietly_firmware] main_setup_inv firmware_inv_will)

lemma firmware_inv_reachable: "reachable J sane s \<Longrightarrow> firmware_inv s"
  by (induction rule: reachable.induct) (simp_all add: main_setup_inv firmware_inv_act)

subsection \<open>Undefined behaviour\<close>

text \<open>
  Requests that make the firmware leave C++: a channel whose low eight bits are neither 1 nor
  2 writes an uninitialised pin number, and a duration whose milliseconds do not fit an \<^verbatim>\<open>int\<close>
  overflows.
\<close>

definition bad_request :: "'j json_lib \<Rightarrow> 'j \<Rightarrow> bool" where
  "bad_request J json \<longleftrightarrow> relais_ok J json \<and>
     (let c = j_asInt J (j_get J json ''channel''); d = j_asInt J (j_get J json ''duration'')
      in (ucast c :: int8_t) \<noteq> 1 \<and> (ucast c :: int8_t) \<noteq> 2 \<or>
         j_isInt J (j_get J json ''duration'') \<and> channel_ok c \<and>
         \<not> fits_ms d)"

fun valid :: "'j json_lib \<Rightarrow> 'j action \<Rightarrow> bool" where
  "valid J (Api w json) = (\<not> bad_request J json)"
| "valid J (OtaProgress p t) = (100 \<le> unat t)"
| "valid J _ = True"

abbreviation defined :: "('j, 'z) device_state_scheme \<Rightarrow> bool" where
  "defined s \<equiv> undefined_free (evlog s)"

lemma defined_relais: "defined (setRelais x c b s) = (defined s \<and> (c = 1 \<or> c = 2))"
  by (auto simp: setRelais_log)

lemma defined_duration:
  "defined (setRelaisDuration v c d now s) = (defined s \<and>
    (channel_ok c \<longrightarrow> fits_ms d))"
  by (auto simp: setRelaisDuration_def Let_def)

lemma defined_handleRelais: "defined s \<Longrightarrow> defined (handleRelais now s)"
  by (simp add: handleRelais_def defined_relais Let_def)

lemma defined_auto: "defined s \<Longrightarrow> defined (AutomationHandler_loop now s)"
  by (simp add: AutomationHandler_loop_def handleFill_def handlePump_def setFill_def setPump_def
      defined_relais PUMP_FILL_def PUMP_EMPTY_def Let_def)

lemma undefined_free_display [simp]: "undefined_free (map Display ds)"
  by (induction ds) simp_all

lemma undefined_free_pub [simp]: "undefined_free (pub_events xs)"
  by (induction xs) (auto simp: pub_events_def)

lemma defined_mqtt_setup: "defined s \<Longrightarrow> defined (MQTTHandler_setup J now s)"
  by (simp add: MQTTHandler_setup_def setLastWill_def Let_def)

lemma defined_files:
  "defined s \<Longrightarrow> defined (snd (readFile p s))" "defined s \<Longrightarrow> defined (FileHandler_begin b s)"
  by (auto simp: readFile_def FileHandler_begin_def split: option.splits)

lemma defined_copy: "defined s \<Longrightarrow> defined (snd (copyFile r p q s))"
  by (simp add: copyFile_def Let_def case_prod_unfold defined_files)

lemma defined_reset: "defined s \<Longrightarrow> defined (FileHandler_reset r s)"
  by (simp add: FileHandler_reset_def defined_copy)

lemma defined_load: "defined s \<Longrightarrow> defined (snd (loadConfig J r s))"
  by (simp add: loadConfig_def Let_def case_prod_unfold defined_files defined_copy)

lemma defined_handlers:
  "defined s \<Longrightarrow> defined (handleBlink now s)" "defined s \<Longrightarrow> defined (handleScan k temp now s)"
  "defined s \<Longrightarrow> defined (handleDisplay up now s)" "defined s \<Longrightarrow> defined (adcTaskStep n mv s)"
  by (auto simp: handleBlink_def handleScan_def handleDisplay_def updateDisplay_def adcTaskStep_def
      finishReading_def simp del: list.map split: prod.splits nat.splits)

lemma defined_network:
  "defined s \<Longrightarrow> defined (WiFiHandler_loop J u1 u2 ip now s)"
  "defined s' \<Longrightarrow> defined (MQTTHandler_loop J i s')" "defined t \<Longrightarrow> defined (OTAHandler_loop up t)"
  by (simp_all add: WiFiHandler_loop_def checkConnection_def startAP_def stopAP_def
      MQTTHandler_loop_def publish_all defined_mqtt_setup OTAHandler_loop_def Let_def)

lemma defined_callbacks:
  "defined s \<Longrightarrow> defined (mqtt_onConnect b s)" "defined s \<Longrightarrow> defined (mqtt_onDisconnect r s)"
  "defined t \<Longrightarrow> defined (web_root J w t)" "defined t \<Longrightarrow> defined (web_notFound t)"
  "defined t \<Longrightarrow> defined (ota_onStart t)" "defined t \<Longrightarrow> defined (ota_onEnd t)"
  by (simp_all add: ota_onStart_def ota_onEnd_def mqtt_onConnect_def mqtt_onDisconnect_def publish_def web_root_def needAuth_cases
      web_notFound_def)

lemma defined_progress: "defined s \<Longrightarrow> 100 \<le> unat t \<Longrightarrow> defined (ota_onProgress p t s)"
proof -
  assume "defined s" and t: "100 \<le> unat t"
  have "unat (t div 100) = unat t div 100" by (simp add: unat_div)
  then have "t div 100 \<noteq> 0" using t by (auto simp: div_eq_0_iff)
  with \<open>defined s\<close> show ?thesis by (simp add: ota_onProgress_def)
qed

lemma defined_setups:
  "defined s \<Longrightarrow> defined (DeviceHandler_setup J pin rw ok s)"
  "defined t \<Longrightarrow> defined (WiFiHandler_setup J ok ip now t)"
  by (simp_all add: DeviceHandler_setup_def setupDisplay_def setBrightness_def WiFiHandler_setup_def
      startAP_def defined_reset Let_def)

lemma defined_main_setup: "defined s \<Longrightarrow> defined (main_setup J b (power_on J s))"
proof -
  assume "defined s"
  then have "defined (serial_up (power_on J s))" by (simp add: power_on_def)
  then have "defined (DeviceHandler_setup J (reset_pin b) (reset_write b) (display_ok b)
      (snd (loadConfig J (config_write b) (FileHandler_begin (mount b) (serial_up (power_on J s))))))"
    by (intro defined_setups(1) defined_load defined_files(2))
  then have "defined (WiFiHandler_setup J (sta_ok b) (boot_ap b) (now_boot_wifi b)
      (DeviceHandler_setup J (reset_pin b) (reset_write b) (display_ok b)
        (snd (loadConfig J (config_write b) (FileHandler_begin (mount b) (serial_up (power_on J s)))))))"
    by (rule defined_setups(2))
  then show ?thesis
    by (simp add: main_setup_def WebHandler_setup_def OTAHandler_setup_def AutomationHandler_setup_def
        defined_mqtt_setup Let_def)
qed

lemma defined_api:
  "defined (web_api J w json s) =
     (defined s \<and> \<not> (authorised J w s \<and> bad_request J json))"
proof (cases "authorised J w s \<and> relais_ok J json")
  case True
  then have "authorised J w s" "relais_ok J json" by simp_all
  then show ?thesis
    by (auto simp: relais_api bad_request_def sendOK_def sendResponse_def defined_relais
        defined_duration Let_def)
next
  case False
  then have "defined (web_api J w json s) = defined s"
    by (auto simp: web_api_def needAuth_cases checkRequest_def handleAPICall_def relais_ok_def
        request_type_def sendOK_def sendInvalid_def sendResponse_def hasUpdate_def
        OTAHandler_update_def saveConfig_def FileHandler_reset_def copyFile_def readFile_def
        Let_def split: option.splits)
  then show ?thesis using False by (auto simp: bad_request_def)
qed

lemma defined_act: "defined s \<Longrightarrow> valid J a \<Longrightarrow> defined (act J a s)"
  by (cases a)
    (simp_all add: defined_handlers defined_handleRelais defined_network defined_auto defined_api
      defined_callbacks defined_progress defined_main_setup)

lemma defined_reachable: "reachable J (valid J) s \<Longrightarrow> defined s"
  by (induction rule: reachable.induct) (simp_all add: defined_main_setup defined_act)

text \<open>Runs with a sane ADC driver and without bad requests: only of these the pins of the relays are known.\<close>

definition proper :: "'j json_lib \<Rightarrow> 'j action \<Rightarrow> bool" where
  "proper J a \<longleftrightarrow> sane a \<and> valid J a"

lemma reachable_mono: "reachable J P s \<Longrightarrow> (\<And>a. P a \<Longrightarrow> Q a) \<Longrightarrow> reachable J Q s"
  by (induction rule: reachable.induct) (auto intro: reachable.intros)

lemma proper_reachable:
  assumes "reachable J (proper J) s"
  shows "reachable J sane s" and "defined s" and "relay_sync s"
proof -
  show sane: "reachable J sane s" using assms by (rule reachable_mono) (simp add: proper_def)
  have "reachable J (valid J) s" using assms by (rule reachable_mono) (simp add: proper_def)
  then show "defined s" by (rule defined_reachable)
  then show "relay_sync s" using firmware_inv_reachable [OF sane] by (simp add: firmware_inv_def core_inv_def)
qed

subsection \<open>Booting\<close>

lemma setup_config [simp]:
  "config (FileHandler_begin b s) = config s" "fs (FileHandler_begin b s) = (if b = Formatted then Map.empty else fs s)"
  "mounted (FileHandler_begin b s) = (b \<noteq> MountFailed)" "config (FileHandler_reset r s) = config s"
  "config (WebHandler_setup t) = config t" "config (OTAHandler_setup J t) = config t"
  "config (AutomationHandler_setup J u) = config u" "config (MQTTHandler_setup J now v) = config v"
  by (simp_all add: FileHandler_begin_def FileHandler_reset_def WebHandler_setup_def
      OTAHandler_setup_def AutomationHandler_setup_def MQTTHandler_setup_def setLastWill_def Let_def)

lemma device_setup_config [simp]: "config (DeviceHandler_setup J pin rw ok s) = config s"
  by (simp add: DeviceHandler_setup_def setupDisplay_def setBrightness_def Let_def)

lemma wifi_setup_config [simp]: "config (WiFiHandler_setup J ok ip now s) = config s"
  by (simp add: WiFiHandler_setup_def startAP_def Let_def)

lemma main_setup_config:
  "config (main_setup J b s) = config (snd (loadConfig J (config_write b) (FileHandler_begin (mount b) (serial_up s))))"
  by (simp add: main_setup_def Let_def)

lemma main_setup_auto:
  "mode (main_setup J b s) = j_asInt J (j_path J (config (main_setup J b s)) [''auto'', ''mode''])"
  "maxL (main_setup J b s) = j_asFloat J (j_path J (config (main_setup J b s)) [''auto'', ''max''])"
  by (simp_all add: main_setup_def MQTTHandler_setup_def setLastWill_def AutomationHandler_setup_def
      getConfig_def Let_def emits_def)

lemma loadConfig_existing:
  assumes "mounted s" and "fs s ''/config.json'' = Some str"
  shows "config (snd (loadConfig J r s)) = snd (j_parse J str)"
  using assms by (simp add: loadConfig_def fs_exists_def readFile_def fs_open_def Let_def)

lemma power_on_simps [simp]:
  "fs (power_on J s) = fs s" "evlog (power_on J s) = evlog s @ [PowerOn]" "\<not> relay1 (power_on J s)"
  "\<not> relay2 (power_on J s)" "\<not> fillM (power_on J s)" "\<not> pumpM (power_on J s)"
  by (simp_all add: power_on_def)

lemma main_setup_relays:
  "relay1 (main_setup J b s) = relay1 s" "relay2 (main_setup J b s) = relay2 s"
proof -
  let ?s3 = "DeviceHandler_setup J (reset_pin b) (reset_write b) (display_ok b)
    (snd (loadConfig J (config_write b) (FileHandler_begin (mount b) (serial_up s))))"
  have "quietly s ?s3" by (rule quietly_early_setup)
  then have s3: "relay1 ?s3 = relay1 s" "relay2 ?s3 = relay2 s" by (simp_all add: quietly_def)
  have w: "relay1 (WiFiHandler_setup J ok ip now t) = relay1 t"
    "relay2 (WiFiHandler_setup J ok ip now t) = relay2 t" for ok ip now and t :: "'a firmware"
    by (simp_all add: WiFiHandler_setup_def startAP_def Let_def)
  show "relay1 (main_setup J b s) = relay1 s" "relay2 (main_setup J b s) = relay2 s"
    using s3 w by (simp_all add: main_setup_def WebHandler_setup_def OTAHandler_setup_def
        AutomationHandler_setup_def Let_def)
qed

subsection \<open>A full tank\<close>

lemma full_level:
  assumes "calibrated s" and "fl_in (- 1000000) 1000000 (latestVoltage s)"
    and "fl_le (maxV s) (latestVoltage s)"
  shows "getLevel s = FFin 100"
proof -
  let ?N = "fl_sub binary32 (latestVoltage s) (minV s)" and ?D = "fl_sub binary32 (maxV s) (minV s)"
  have D: "fl_finite ?D" "0 < fval ?D" using span_positive [OF assms(1)] .
  have N: "fl_finite ?N" "fval ?N = rnd binary32 (fval (latestVoltage s) - fval (minV s))"
    using numerator [OF assms(1,2)] by simp_all
  have "fl_in (- 1000000) 1000000 (latestVoltage (s\<lparr>latestVoltage := maxV s\<rparr>))"
    "calibrated (s\<lparr>latestVoltage := maxV s\<rparr>)" using assms(1) by (simp_all add: calibrated_def)
  from numerator [OF this(2,1)] have "fval ?D = rnd binary32 (fval (maxV s) - fval (minV s))" by simp
  moreover have "fval (maxV s) \<le> fval (latestVoltage s)"
    using assms by (simp add: calibrated_def fl_in_def fl_le_finite)
  ultimately have "fval ?D \<le> fval ?N" using N by (simp add: rnd_mono)
  then have "fl_le (f32 1) (f32 (fval ?N / fval ?D))" using D by (intro b32.to_fl_mono) simp
  then have "fl_le (FFin 1) (fl_div binary32 ?N ?D)"
    using b32.fl_div_cmp(2) [OF N(1) D(1)] D(2) to_fl_eq [of binary32 1 1] rnd_consts(5) limits(1)
    by simp
  then have "fl_le (fl_mul binary32 (FFin 1) (FFin 100)) (percent_of s)"
    unfolding percent_of_def by (rule b32.fl_mul_pos_mono) simp_all
  then have "fl_le (FFin 100) (percent_of s)" by (simp add: fl_mul_def f32_consts)
  then show ?thesis
    by (cases "percent_of s") (auto simp: getLevel_clamp clamp_percent_def fl_le_def)
qed

lemma round2_full: "roundToTwoDecimals (FFin 100) = FFin 100"
proof -
  have c: "rnd binary32 10000 = 10000" by code_simp
  have "f32 10000 = FFin 10000" using limits(1) c by (intro to_fl_eq) simp_all
  moreover have "round_away 10000 = 10000" using round_away_of_int [of 10000] by simp
  ultimately show ?thesis
    by (simp add: roundToTwoDecimals_def f32_consts fl_mul_def fl_div_def fl_round_def)
qed

text \<open>The settings of the automation pass unchanged through the other handlers.\<close>

definition auto_settings :: "('j, 'z) auto_state_scheme \<Rightarrow> cint \<times> fl \<times> fl \<times> fl \<times> millis_t" where
  "auto_settings s = (mode s, maxL s, minL s, fillL s, autoMillis s)"

lemma auto_emits [simp]:
  "mode (emits es s) = mode s" "maxL (emits es s) = maxL s" "minL (emits es s) = minL s"
  "fillL (emits es s) = fillL s" "autoMillis (emits es s) = autoMillis s"
  by (simp_all add: emits_def)

lemma auto_settings_frame [simp]:
  "auto_settings (handleBlink now s) = auto_settings s"
  "auto_settings (handleRelais now s) = auto_settings s"
  "auto_settings (handleScan k temp now s) = auto_settings s"
  "auto_settings (handleDisplay up now s) = auto_settings s"
  by (simp_all add: auto_settings_def handleBlink_def handleRelais_def handleScan_def scanSensors_def
      handleDisplay_def updateDisplay_def Let_def)

lemma auto_settings_network [simp]:
  "auto_settings (WiFiHandler_loop J u1 u2 ip now s) = auto_settings s"
  "auto_settings (MQTTHandler_loop J i t) = auto_settings t"
  "auto_settings (OTAHandler_loop up u) = auto_settings u"
  by (simp_all add: auto_settings_def WiFiHandler_loop_def checkConnection_def startAP_def stopAP_def
      MQTTHandler_loop_def publish_all MQTTHandler_setup_def setLastWill_def OTAHandler_loop_def Let_def)

lemma level_frame [simp]:
  "scanWaterLevel (handleDisplay up now s) = scanWaterLevel s"
  "scanWaterLevel (WiFiHandler_loop J u1 u2 ip now t) = scanWaterLevel t"
  "scanWaterLevel (MQTTHandler_loop J i v) = scanWaterLevel v"
  "scanWaterLevel (OTAHandler_loop up u) = scanWaterLevel u"
  by (simp_all add: handleDisplay_def updateDisplay_def WiFiHandler_loop_def MQTTHandler_loop_def
      publish_all OTAHandler_loop_def Let_def)

lemma sensor_frame [simp]:
  "latestVoltage (handleRelais now s) = latestVoltage s" "maxV (handleRelais now s) = maxV s"
  "minV (handleRelais now s) = minV s" "scanMillis (handleRelais now s) = scanMillis s"
  by (simp_all add: handleRelais_def Let_def)

text \<open>The level the automation finds at the end of a pass whose scan is due.\<close>

lemma pass_level:
  assumes "SCAN_INTERVAL \<le> now_scan (dev i) - scanMillis s"
  obtains t where "main_loop J i s = AutomationHandler_loop (now_auto i) t"
    and "auto_settings t = auto_settings s" and "scanWaterLevel t = roundToTwoDecimals (getLevel s)"
proof -
  let ?a = "handleRelais (now_relais (dev i)) (handleBlink (now_blink (dev i)) s)"
  let ?b = "handleScan (task_ok (dev i)) (cpu_temp (dev i)) (now_scan (dev i)) ?a"
  let ?t = "OTAHandler_loop (loop_wan i) (MQTTHandler_loop J (mqtt i)
    (WiFiHandler_loop J (wifi_up1 i) (wifi_up2 i) (loop_ap i) (now_wifi i)
      (handleDisplay (wifi_up (dev i)) (now_display (dev i)) ?b)))"
  have "getLevel (?a\<lparr>scanMillis := x\<rparr>) = getLevel s" for x by (simp add: getLevel_def)
  then have "scanWaterLevel ?b = roundToTwoDecimals (getLevel s)"
    using assms by (simp add: handleScan_def scanSensors_level)
  moreover have "main_loop J i s = AutomationHandler_loop (now_auto i) ?t"
    by (simp add: main_loop_def DeviceHandler_loop_def WebHandler_loop_def Let_def)
  ultimately show thesis by (intro that [of ?t]) simp_all
qed

text \<open>A pass of the main loop that finds the voltage at the calibrated maximum.\<close>

lemma full_pass:
  assumes "mode s = 1 \<or> mode s = 2" and "fl_le (maxL s) (FFin 100)"
    and "calibrated s" and "fl_in (- 1000000) 1000000 (latestVoltage s)"
    and "fl_le (maxV s) (latestVoltage s)"
    and "SCAN_INTERVAL \<le> now_scan (dev i) - scanMillis s"
    and "AUTO_INTERVAL \<le> now_auto i - autoMillis s"
  shows "\<not> getState 1 (main_loop J i s) \<and> \<not> relay_pin 1 (main_loop J i s)"
proof -
  obtain t where t: "main_loop J i s = AutomationHandler_loop (now_auto i) t"
    and set: "auto_settings t = auto_settings s"
    and level: "scanWaterLevel t = roundToTwoDecimals (getLevel s)"
    using pass_level [OF assms(6)] .
  have l: "scanWaterLevel t = FFin 100"
    using level full_level [OF assms(3-5)] round2_full by simp
  have m: "mode t = 1 \<or> mode t = 2" and due: "auto_due (now_auto i) t"
    and "maxL t = maxL s"
    using set assms(1,7) by (auto simp: auto_settings_def auto_due_def)
  then have "\<not> fl_less (scanWaterLevel t) (maxL t)"
    using assms(2) l by (simp add: fl_le_def)
  then have "\<not> relay1 (handleFill (t\<lparr>autoMillis := now_auto i\<rparr>)) \<and>
      \<not> relay_pin 1 (handleFill (t\<lparr>autoMillis := now_auto i\<rparr>))"
    by (simp add: handleFill_relay)
  then show ?thesis
    using m loop_mode1 [OF due] loop_mode2 [OF due] by (auto simp: t getState_def)
qed

text \<open>A boot without network, for concrete inputs.\<close>

definition demo_boot :: boot_in where
  "demo_boot = \<lparr>mount = Mounted, config_write = WriteAll, reset_pin = False, reset_write = WriteAll, display_ok = False, sta_ok = False,
     boot_ap = demo_ap, now_boot_wifi = 0, boot_up = False, now_boot_mqtt = 0\<rparr>"

end
