(* ===== verification/Handler_Frames.thy ===== *)
theory Handler_Frames
  imports Firmware
begin

text \<open>
  What the handlers leave alone. A \<open>view\<close> is any function of the state of the firmware that
  obeys the laws of \<open>core_frame\<close>: it depends neither on the fields named there nor on events other
  than a connection attempt to the MQTT broker. \<open>handler_frame\<close> adds the registers of the relays,
  \<open>sensor_frame\<close> the sensor and the settings, \<open>full_frame\<close> has both. Each locale lists the handlers
  that keep such a view.

  The views used are the MQTT client (here), the \<^verbatim>\<open>float\<close> globals (\<open>Float_Types\<close>), the registers
  of the relays and the mode (\<open>Relay_Causes\<close>), the settings (\<open>Settings\<close>) and the sensor
  (\<open>Sampling\<close>).
\<close>

abbreviation attempt :: event where
  "attempt \<equiv> Mqtt MqttConnect"

fun is_reboot :: "'j action \<Rightarrow> bool" where
  "is_reboot (Reboot b) = True"
| "is_reboot _ = False"

locale core_frame =
  fixes view :: "'j firmware \<Rightarrow> 'v"
  assumes view_emit: "e \<noteq> attempt \<Longrightarrow> view (emit e s) = view s"
    and view_files: "view (s\<lparr>fs := m\<rparr>) = view s" "view (s\<lparr>config := j\<rparr>) = view s"
      "view (s\<lparr>mounted := b\<rparr>) = view s"
    and view_device: "view (s\<lparr>previousMillis := t\<rparr>) = view s" "view (s\<lparr>ledState := b\<rparr>) = view s"
      "view (s\<lparr>displayMillis := t\<rparr>) = view s" "view (s\<lparr>displayEnabled := b\<rparr>) = view s"
    and view_auto: "view (s\<lparr>fillM := b\<rparr>) = view s" "view (s\<lparr>pumpM := b\<rparr>) = view s"
      "view (s\<lparr>autoMillis := t\<rparr>) = view s"
    and view_wifi: "view (s\<lparr>connectionStartTime := t\<rparr>) = view s"
      "view (s\<lparr>lastReconnectAttempt := t\<rparr>) = view s" "view (s\<lparr>apStarted := b\<rparr>) = view s"
    and view_ota: "view (s\<lparr>otaEnabled := b\<rparr>) = view s"
begin

lemmas view_laws = view_emit view_files view_device view_auto view_wifi view_ota

lemma view_emits: "list_all (\<lambda>e. e \<noteq> attempt) es \<Longrightarrow> view (emits es s) = view s"
proof (induction es arbitrary: s)
  case (Cons e es)
  have "emits (e # es) s = emits es (emit e s)" by (simp add: emits_def emit_def)
  with Cons view_emit [of e s] show ?case by simp
qed (simp add: emits_def)

lemma view_storage:
  "view (saveFile r p str s) = view s" "view (saveConfig j s) = view s"
  "view (FileHandler_begin b s) = view s" "view (snd (readFile p s)) = view s"
  by (auto simp: saveFile_def saveConfig_def FileHandler_begin_def readFile_def view_laws
      split: option.splits)

lemma view_reset: "view (snd (copyFile r p q s)) = view s" "view (FileHandler_reset r s) = view s"
  by (simp_all add: FileHandler_reset_def copyFile_def view_laws view_storage case_prod_unfold Let_def)

lemma view_load: "view (snd (loadConfig J r s)) = view s"
  by (simp add: loadConfig_def view_laws view_storage view_reset case_prod_unfold Let_def)

lemma view_display: "view (updateDisplay up s) = view s" "view (setupDisplay J ok s) = view s"
proof -
  have "list_all (\<lambda>e. e \<noteq> attempt) (map Display ds)" for ds by (induction ds) simp_all
  then show "view (updateDisplay up s) = view s" unfolding updateDisplay_def by (rule view_emits)
  show "view (setupDisplay J ok s) = view s"
    by (simp add: setupDisplay_def setBrightness_def view_laws view_emits Let_def)
qed

lemma view_device_loop:
  "view (handleBlink now s) = view s" "view (handleDisplay up now s) = view s"
  by (simp_all add: handleBlink_def handleDisplay_def view_laws view_display)

lemma view_network:
  "view (WiFiHandler_setup J ok ip now s) = view s" "view (WiFiHandler_loop J u1 u2 ip now s) = view s"
  by (simp_all add: WiFiHandler_setup_def WiFiHandler_loop_def checkConnection_def startAP_def
      stopAP_def view_laws view_emits Let_def)

lemma view_updates:
  "view (OTAHandler_setup J s) = view s" "view (OTAHandler_loop up s) = view s"
  "view (ota_onProgress p t s) = view s" "view (ota_onStart s) = view s" "view (ota_onEnd s) = view s"
  by (simp_all add: ota_onStart_def ota_onEnd_def OTAHandler_setup_def OTAHandler_loop_def ota_onProgress_def view_laws view_emits Let_def)

lemma view_callbacks:
  "view (mqtt_onConnect b s) = view s" "view (mqtt_onDisconnect r s) = view s"
  "view (web_root J w s) = view s" "view (web_notFound s) = view s" "view (WebHandler_setup s) = view s"
  by (simp_all add: mqtt_onConnect_def mqtt_onDisconnect_def publish_def web_root_def needAuth_cases
      web_notFound_def WebHandler_setup_def view_laws view_emits)

text \<open>A request that does not get to \<^verbatim>\<open>setRelais\<close>.\<close>

lemma view_api_other:
  "\<not> (authorised J w s \<and> relais_ok J json) \<Longrightarrow> view (web_api J w json s) = view s"
  by (auto simp: web_api_def needAuth_cases checkRequest_def relais_ok_def request_type_def api_defs
      view_laws view_emits view_storage view_reset case_prod_unfold Let_def)

lemmas view_handlers = view_device_loop view_network view_updates view_callbacks

end

locale handler_frame = core_frame view for view :: "'j firmware \<Rightarrow> 'v" +
  assumes view_relays: "view (s\<lparr>ch1 := t\<rparr>) = view s" "view (s\<lparr>ch2 := t\<rparr>) = view s"
      "view (s\<lparr>relay1 := b\<rparr>) = view s" "view (s\<lparr>relay2 := b\<rparr>) = view s"
begin

lemma view_relais:
  "view (setRelais x c b s) = view s" "view (setRelaisDuration v c' d now s) = view s"
  by (simp_all add: setRelais_def setRelaisDuration_def view_laws view_relays Let_def)

lemma view_handleRelais: "view (handleRelais now s) = view s"
  by (simp add: handleRelais_def view_relais Let_def)

lemma view_automation: "view (AutomationHandler_loop now s) = view s"
  by (simp add: AutomationHandler_loop_def handleFill_def handlePump_def setFill_def setPump_def
      view_laws view_relais Let_def)

lemma view_api: "view (web_api J w json s) = view s"
  by (simp add: web_api_def needAuth_cases checkRequest_def api_defs view_laws view_emits view_relais
      view_storage view_reset case_prod_unfold Let_def)

lemmas view_switching = view_handleRelais view_automation view_api

end

locale sensor_frame = core_frame view for view :: "'j firmware \<Rightarrow> 'v" +
  assumes view_sensor: "view (s\<lparr>latestVoltage := x\<rparr>) = view s" "view (s\<lparr>adcTasks := ts\<rparr>) = view s"
      "view (s\<lparr>scanMillis := t\<rparr>) = view s" "view (s\<lparr>scanCurrent := x\<rparr>) = view s"
      "view (s\<lparr>scanTemperature := x\<rparr>) = view s" "view (s\<lparr>scanWaterLevel := x\<rparr>) = view s"
      "view (s\<lparr>scanWaterVolume := x\<rparr>) = view s"
    and view_settings: "view (s\<lparr>systemLed := b\<rparr>) = view s" "view (s\<lparr>maxV := x\<rparr>) = view s"
      "view (s\<lparr>minV := x\<rparr>) = view s" "view (s\<lparr>tankVolume := x\<rparr>) = view s"
      "view (s\<lparr>mode := m\<rparr>) = view s" "view (s\<lparr>maxL := x\<rparr>) = view s" "view (s\<lparr>minL := x\<rparr>) = view s"
      "view (s\<lparr>fillL := x\<rparr>) = view s"
begin

lemma view_scan:
  "view (handleScan taskOk temp now s) = view s" "view (adcTaskStep k mv s) = view s"
  by (auto simp: handleScan_def scanSensors_def adcTaskStep_def finishReading_def view_sensor view_laws
      Let_def split: prod.splits nat.splits)

lemma view_setups:
  "view (DeviceHandler_setup J pin rw ok s) = view s" "view (AutomationHandler_setup J s) = view s"
  by (simp_all add: DeviceHandler_setup_def AutomationHandler_setup_def view_settings view_laws view_emits
      view_reset view_display Let_def)

text \<open>Booting, up to the MQTT client.\<close>

lemma view_boot:
  "\<not> boot_up b \<Longrightarrow> view (main_setup J b s) = view s"
  by (simp add: main_setup_def WiFiHandler_isConnected_def view_laws view_emits view_storage view_load
      view_setups view_handlers Let_def)

end

locale full_frame = handler_frame view + sensor_frame view for view :: "'j firmware \<Rightarrow> 'v"
begin

lemma view_act: "\<not> is_reboot a \<Longrightarrow> \<forall>i. a \<noteq> MqttLoop i \<Longrightarrow> view (act J a s) = view s"
  by (cases a) (simp_all add: view_handlers view_switching view_scan)

end

subsection \<open>The MQTT client\<close>

definition attempts :: "event list \<Rightarrow> nat" where
  "attempts es = length (filter (\<lambda>e. e = attempt) es)"

interpretation client: full_frame "\<lambda>s. (isEnabled s, attempts (evlog s))"
  by unfold_locales (simp_all add: attempts_def)

lemma disabled_act:
  assumes "\<not> isEnabled s" and "\<not> is_reboot a"
  shows "\<not> isEnabled (act J a s) \<and> attempts (evlog (act J a s)) = attempts (evlog s)"
proof (cases "\<exists>i. a = MqttLoop i")
  case True
  then show ?thesis using assms(1) by (auto simp: MQTTHandler_loop_def)
next
  case False
  then show ?thesis using client.view_act [OF assms(2), of J s] assms(1) by simp
qed

lemma disabled_run:
  assumes "\<not> isEnabled s" and "list_all (\<lambda>a. \<not> is_reboot a) as"
  shows "\<not> isEnabled (fold (act J) as s) \<and> attempts (evlog (fold (act J) as s)) = attempts (evlog s)"
  using assms
proof (induction as arbitrary: s)
  case (Cons a as)
  then show ?case using disabled_act [of s a J] by simp
qed simp

lemma offline_boot:
  assumes "\<not> boot_up b"
  shows "\<not> isEnabled (main_setup J b (power_on J s)) \<and>
    attempts (evlog (main_setup J b (power_on J s))) = attempts (evlog s)"
  using client.view_boot [OF assms, of J "power_on J s"] by (simp add: power_on_def attempts_def)

text \<open>
  C29: A device that has no WiFi connection at the moment \<^verbatim>\<open>setup\<close> ends does not use MQTT until it
  is restarted: whatever happens afterwards, a WiFi connection included, the client stays
  disabled and no connection to the broker is attempted.
\<close>
theorem mqtt_needs_boot_connection:
  assumes "\<not> boot_up b" and "list_all (\<lambda>a. \<not> is_reboot a) as"
  shows "\<not> isEnabled (fold (act J) as (main_setup J b (power_on J s))) \<and>
    attempts (evlog (fold (act J) as (main_setup J b (power_on J s)))) = attempts (evlog s)"
  using disabled_run [OF _ assms(2), of "main_setup J b (power_on J s)" J] offline_boot [OF assms(1), of J s]
  by simp

theorem mqtt_needs_boot_connection_witness:
  "\<not> isEnabled (fold (act (jv_lib ''x'' JNull)) [WifiLoop True True demo_ap 9000, MqttLoop demo_mqtt_in]
      (main_setup (jv_lib ''x'' JNull) demo_boot (power_on (jv_lib ''x'' JNull) demo_ota))) \<and>
   attempts (evlog (fold (act (jv_lib ''x'' JNull))
      [WifiLoop True True demo_ap 9000, MqttLoop demo_mqtt_in]
      (main_setup (jv_lib ''x'' JNull) demo_boot (power_on (jv_lib ''x'' JNull) demo_ota)))) =
    attempts (evlog demo_ota)"
  by (rule mqtt_needs_boot_connection) (simp_all add: demo_boot_def)

end
