(* ===== verification/Float_Types.thy ===== *)
theory Float_Types
  imports Handler_Frames
begin

text \<open>
  The types of the C++ globals that the model widens. A \<^verbatim>\<open>float\<close> is an \<open>fl\<close> here, which also has
  values no \<^verbatim>\<open>float\<close> has; \<open>well_typed\<close> says that every such global of the device and of the
  automation holds a binary32 value, and that no ADC task has more samples left than it starts
  with. All handlers keep this: a result that is computed in \<^verbatim>\<open>double\<close> is converted where the
  source assigns it to a \<^verbatim>\<open>float\<close>.
\<close>

definition floats :: "('j, 'z) auto_state_scheme \<Rightarrow> fl list" where
  "floats s = [latestVoltage s, maxV s, minV s, tankVolume s, scanCurrent s, scanTemperature s,
     scanWaterLevel s, scanWaterVolume s, maxL s, minL s, fillL s]"

definition well_typed :: "('j, 'z) auto_state_scheme \<Rightarrow> bool" where
  "well_typed s \<longleftrightarrow> list_all (is_float binary32) (floats s) \<and> list_all (\<lambda>t. fst t \<le> 64) (adcTasks s)"

lemma floats_emit [simp]:
  "floats (emit e s) = floats s" "floats (emits es s) = floats s"
  by (simp_all add: floats_def emit_def emits_def)

lemma is_float_round2 [simp]: "is_float binary32 (roundToTwoDecimals x)"
  by (simp add: roundToTwoDecimals_def b32.is_float_div)

lemma is_float_conv: "is_float binary32 (fl_conv binary32 x)"
  by (cases x) (simp_all add: fl_conv_def b32.is_float_to_fl)

lemma is_float_ema: "is_float binary32 (ema old x)"
  by (simp add: ema_def is_float_conv)

lemma is_float_f32 [simp]: "is_float binary32 (f32 q)"
  by (rule b32.is_float_to_fl)

lemma is_float_zero [simp]: "is_float binary32 (FFin 0)"
  using is_float_special(4) [of binary32 False] by (simp add: fl_zero_def)

lemma well_typed_view:
  "(floats t, adcTasks t) = (floats s, adcTasks s) \<Longrightarrow> well_typed t = well_typed s"
  by (simp add: well_typed_def)

interpretation fl: handler_frame "\<lambda>s. (floats s, adcTasks s)"
  by unfold_locales (simp_all add: floats_def emit_def)

lemma fl_mqtt_setup:
  "(floats (MQTTHandler_setup J now s), adcTasks (MQTTHandler_setup J now s)) = (floats s, adcTasks s)"
  by (simp add: MQTTHandler_setup_def setLastWill_def floats_def emit_def emits_def Let_def)

lemma fl_mqtt_loop:
  "(floats (MQTTHandler_loop J i s), adcTasks (MQTTHandler_loop J i s)) = (floats s, adcTasks s)"
proof -
  have "floats (s\<lparr>previousMillisMQTT := t\<rparr>) = floats s" for t by (simp add: floats_def)
  then show ?thesis
    using fl_mqtt_setup [of J "now_mqtt_setup i" s] by (simp add: MQTTHandler_loop_def publish_all)
qed

lemmas typed_frames = fl.view_handlers [THEN well_typed_view] fl.view_switching [THEN well_typed_view]
  fl_mqtt_setup [THEN well_typed_view]
  fl_mqtt_loop [THEN well_typed_view]
  fl.view_storage [THEN well_typed_view] fl.view_load [THEN well_typed_view]
  fl.view_reset [THEN well_typed_view] fl.view_display [THEN well_typed_view]

subsection \<open>Handlers that do\<close>

lemma typed_scan: "well_typed s \<Longrightarrow> well_typed (handleScan taskOk temp now s)"
  by (simp add: well_typed_def floats_def handleScan_def scanSensors_def Let_def emit_def)

lemma typed_adc: "well_typed s \<Longrightarrow> well_typed (adcTaskStep k mv s)"
proof -
  assume typed: "well_typed s"
  show ?thesis
  proof (cases "k < length (adcTasks s)")
    case True
    obtain n acc where k: "adcTasks s ! k = (n, acc)" by (cases "adcTasks s ! k")
    have all: "\<forall>x \<in> set (adcTasks s). fst x \<le> 64" using typed by (simp add: well_typed_def list_all_iff)
    then have n: "n \<le> 64" using True k nth_mem by fastforce
    show ?thesis
    proof (cases n)
      case 0
      then show ?thesis
        using True k all typed
        by (auto simp: adcTaskStep_def finishReading_def well_typed_def floats_def is_float_ema
            list_all_iff dest: in_set_takeD in_set_dropD)
    next
      case (Suc m)
      then show ?thesis
        using True k all n typed set_update_subset_insert [of "adcTasks s" k "(m, acc + mv)"]
        by (auto simp: adcTaskStep_def well_typed_def floats_def list_all_iff)
    qed
  qed (use typed in \<open>simp add: adcTaskStep_def\<close>)
qed

lemma typed_simps [simp]:
  "well_typed (emit e s) = well_typed s" "well_typed (emits es s) = well_typed s"
  by (simp_all add: well_typed_def)

lemma typed_device_setup:
  fixes s :: "'j firmware"
  assumes "\<forall>v. is_float binary32 (j_asFloat J v)" and "well_typed s"
  shows "well_typed (DeviceHandler_setup J pin rw ok s)"
proof -
  have "well_typed (t\<lparr>systemLed := led, maxV := j_asFloat J a, minV := j_asFloat J b, tankVolume := j_asFloat J c\<rparr>)"
    if "well_typed t" for t :: "'j firmware" and led a b c
    using that assms(1) by (simp add: well_typed_def floats_def)
  then show ?thesis
    using assms(2) by (simp add: DeviceHandler_setup_def typed_frames Let_def)
qed

lemma typed_auto_setup:
  "\<forall>v. is_float binary32 (j_asFloat J v) \<Longrightarrow> well_typed s \<Longrightarrow> well_typed (AutomationHandler_setup J s)"
  by (simp add: well_typed_def floats_def AutomationHandler_setup_def)

lemma typed_power_on: "well_typed (power_on J s)"
  by (simp add: power_on_def well_typed_def floats_def)

lemma typed_boot:
  assumes J: "\<forall>v. is_float binary32 (j_asFloat J v)"
  shows "well_typed (main_setup J b (power_on J s))"
proof -
  let ?s2 = "snd (loadConfig J (config_write b) (FileHandler_begin (mount b) (serial_up (power_on J s))))"
  have "well_typed ?s2" using typed_power_on by (simp add: typed_frames)
  then have "well_typed (DeviceHandler_setup J (reset_pin b) (reset_write b) (display_ok b) ?s2)"
    using J typed_device_setup by blast
  then show ?thesis
    using J by (simp add: main_setup_def Let_def typed_frames typed_auto_setup)
qed

lemma typed_act:
  "\<forall>v. is_float binary32 (j_asFloat J v) \<Longrightarrow> well_typed s \<Longrightarrow> well_typed (act J a s)"
  by (cases a) (simp_all add: typed_scan typed_adc typed_boot typed_frames)

subsection \<open>Property\<close>

text \<open>
  Type safety of the \<^verbatim>\<open>float\<close> globals. If the JSON library returns a \<^verbatim>\<open>float\<close> where it is asked
  for one, then in every reachable state, after any sequence of actions, the voltage, the
  calibration, the four scanned values and the limits of the automation are binary32 values
  (or infinities or NaN), and no ADC task has more than 64 samples left.
\<close>
lemma float_globals_typed:
  assumes "\<forall>v. is_float binary32 (j_asFloat J v)" and "reachable J (\<lambda>_. True) s"
  shows "list_all (is_float binary32)
      [latestVoltage s, maxV s, minV s, tankVolume s, scanCurrent s, scanTemperature s,
       scanWaterLevel s, scanWaterVolume s, maxL s, minL s, fillL s] \<and>
    list_all (\<lambda>t. fst t \<le> 64) (adcTasks s)"
  using assms(2,1)
proof (induction rule: reachable.induct)
  case (boot s b)
  then show ?case using typed_boot by (auto simp: well_typed_def floats_def)
next
  case (step s a)
  then show ?case using typed_act [of J s a] by (auto simp: well_typed_def floats_def)
qed

definition demo_floats :: "jv json_lib" where
  "demo_floats = (jv_lib ''x'' JNull)\<lparr>j_asFloat := (\<lambda>v. fl_conv binary32 (jv_float v))\<rparr>"

definition demo_scan :: "jv firmware" where
  "demo_scan = act demo_floats (Scan True (FFin 40) 1000)
     (main_setup demo_floats demo_boot (power_on demo_floats demo_ota))"

end
