(* ===== verification/Relay_Causes.thy ===== *)
theory Relay_Causes
  imports Handler_Frames
begin

text \<open>
  Who switches the relays. Over every interleaving of handler calls, the registers of a relay
  change only through a request for its channel, an expired timer, a tick of the automation or
  a restart: a relay never comes on for another reason, and in manual mode a timed relay goes
  off at its deadline whatever else the firmware does in the meantime.
\<close>

definition regs :: "('j, 'z) device_state_scheme \<Rightarrow> bool \<times> bool \<times> millis_t \<times> millis_t" where
  "regs s = (relay1 s, relay2 s, ch1 s, ch2 s)"

interpretation regs: sensor_frame regs
  by unfold_locales (simp_all add: regs_def emit_def)

interpretation modes: handler_frame mode
  by unfold_locales (simp_all add: emit_def)

lemma regs_eq:
  "regs t = regs s \<Longrightarrow> getState c t = getState c s" "regs t = regs s \<Longrightarrow> deadline c t = deadline c s"
  by (simp_all add: regs_def getState_def deadline_def)

lemma regs_mqtt: "regs (MQTTHandler_loop J i s) = regs s"
  by (simp add: regs_def MQTTHandler_loop_def MQTTHandler_setup_def setLastWill_def publish_all Let_def)

text \<open>A complete request for the relay of a channel, and the other actions that switch.\<close>

definition relay_request :: "'j json_lib \<Rightarrow> cint \<Rightarrow> 'j \<Rightarrow> bool" where
  "relay_request J c json \<longleftrightarrow> relais_ok J json \<and>
     (ucast (j_asInt J (j_get J json ''channel'')) :: int8_t) = ucast c"

fun may_switch :: "'j json_lib \<Rightarrow> cint \<Rightarrow> 'j action \<Rightarrow> bool" where
  "may_switch J c (Api w json) = relay_request J c json"
| "may_switch J c (Relais now) = True"
| "may_switch J c (AutoLoop now) = True"
| "may_switch J c (Reboot b) = True"
| "may_switch J c _ = False"

lemma ucast_channel: "channel_ok c \<Longrightarrow> (ucast c :: int8_t) = (if c = 1 then 1 else 2)"
  by auto

lemma request_frame:
  fixes s :: "'j firmware"
  assumes "channel_ok c" and "\<not> relay_request J c json"
  shows "getState c (web_api J w json s) = getState c s \<and> deadline c (web_api J w json s) = deadline c s"
proof (cases "authorised J w s \<and> relais_ok J json")
  case True
  then have "(ucast (j_asInt J (j_get J json ''channel'')) :: int8_t) \<noteq> ucast c"
    using assms(2) by (simp add: relay_request_def)
  moreover from this have "j_asInt J (j_get J json ''channel'') \<noteq> c" by auto
  moreover have "authorised J w s" "relais_ok J json" using True by simp_all
  ultimately show ?thesis
    using assms(1)
    by (auto simp: relais_api getState_def deadline_def setRelais_regs setRelaisDuration_deadline)
next
  case False
  then show ?thesis using regs.view_api_other [OF False] regs_eq by metis
qed

lemma regs_act:
  "\<not> may_switch J c a \<Longrightarrow> \<forall>w json. a \<noteq> Api w json \<Longrightarrow> regs (act J a s) = regs s"
  by (cases a) (simp_all add: regs.view_handlers regs.view_scan regs_mqtt)

lemma act_frame:
  assumes "channel_ok c" and "\<not> may_switch J c a"
  shows "getState c (act J a s) = getState c s \<and> deadline c (act J a s) = deadline c s"
proof (cases "\<exists>w json. a = Api w json")
  case True
  then show ?thesis using request_frame [OF assms(1), of J _ _ s] assms(2) by auto
next
  case False
  then have "regs (act J a s) = regs s" using assms(2) by (intro regs_act [of J c]) simp_all
  then show ?thesis using regs_eq by metis
qed

lemma request_effect:
  assumes "channel_ok c" and "authorised J w s" and "relay_request J c json"
  shows "getState c (web_api J w json s) = j_asBool J (j_get J json ''state'')"
  using assms
  by (auto simp: relay_request_def relais_api getState_def setRelais_regs ucast_channel)

lemma unauthorised_frame:
  fixes s :: "'j firmware"
  shows "\<not> authorised J w s \<Longrightarrow> getState c (web_api J w json s) = getState c s"
  by (rule regs_eq(1) [OF regs.view_api_other]) simp

lemma automation_switch_on:
  assumes "getState c (AutomationHandler_loop now s)" and "\<not> getState c s" and "channel_ok c"
  shows "AUTO_INTERVAL \<le> now - autoMillis s \<and>
    (c = 1 \<and> (mode s = 1 \<or> mode s = 2) \<and> \<not> fillM s \<and> fl_less (getLevelCached s) (maxL s) \<and>
       fl_le (getLevelCached s) (fillL s) \<or>
     c = 2 \<and> mode s = 1 \<and> fl_less (minL s) (getLevelCached s))"
  using assms
  by (auto simp: AutomationHandler_loop_def handleFill_def handlePump_def setFill_def setPump_def
      getState_def setRelais_regs PUMP_FILL_def PUMP_EMPTY_def getLevelCached_def Let_def split: if_splits)

lemma reachable_pin:
  "reachable J (proper J) s \<Longrightarrow> channel_ok c \<Longrightarrow> relay_pin c s = getState c s"
  using proper_reachable(3) [of J s] by (auto simp: relay_sync_def relay_pin_def)

lemma reboot_off: "\<not> getState c (main_setup J b (power_on J s))"
  by (simp add: getState_def main_setup_relays)

subsection \<open>Runs in manual mode\<close>

lemma mode_act: "\<not> is_reboot a \<Longrightarrow> mode (act J a s) = mode s"
proof (cases "\<exists>i. a = MqttLoop i")
  case True
  then show ?thesis
    by (auto simp: MQTTHandler_loop_def MQTTHandler_setup_def setLastWill_def publish_all Let_def)
next
  case False
  assume "\<not> is_reboot a"
  with False show ?thesis
    by (cases a) (auto simp: modes.view_handlers modes.view_switching handleScan_def scanSensors_def
        adcTaskStep_def finishReading_def emit_def Let_def split: prod.splits nat.splits)
qed

lemma automation_manual: "mode s = 0 \<Longrightarrow> AutomationHandler_loop now s = s"
  by (simp add: AutomationHandler_loop_def)

text \<open>Actions that are neither a restart nor a request for the channel; the timer checks of a run.\<close>

definition hands_off :: "'j json_lib \<Rightarrow> cint \<Rightarrow> 'j action \<Rightarrow> bool" where
  "hands_off J c a \<longleftrightarrow> \<not> is_reboot a \<and> (case a of Api w json \<Rightarrow> \<not> relay_request J c json | _ \<Rightarrow> True)"

fun timer_checks :: "'j action list \<Rightarrow> millis_t list" where
  "timer_checks [] = []"
| "timer_checks (Relais now # as) = now # timer_checks as"
| "timer_checks (_ # as) = timer_checks as"

lemma manual_act:
  assumes "channel_ok c" and "mode s = 0" and "hands_off J c a"
  shows "getState c (act J a s) =
      (getState c s \<and> (\<forall>now \<in> set (timer_checks [a]). \<not> expired c now s))"
    and "(\<forall>now \<in> set (timer_checks [a]). \<not> expired c now s) \<Longrightarrow> deadline c (act J a s) = deadline c s"
    and "mode (act J a s) = 0"
proof -
  show "mode (act J a s) = 0" using assms(2,3) mode_act [of a J s] by (simp add: hands_off_def)
  have other: "getState c (act J a s) = getState c s \<and> deadline c (act J a s) = deadline c s"
    if "\<forall>now. a \<noteq> Relais now"
  proof (cases "\<exists>now. a = AutoLoop now")
    case True
    then show ?thesis using automation_manual [OF assms(2)] by auto
  next
    case False
    then have "\<not> may_switch J c a" using that assms(3) by (cases a) (simp_all add: hands_off_def)
    then show ?thesis by (rule act_frame [OF assms(1)])
  qed
  show "getState c (act J a s) = (getState c s \<and> (\<forall>now \<in> set (timer_checks [a]). \<not> expired c now s))"
    using other handleRelais_channel(1) [OF assms(1), of _ s] by (cases a) auto
  show "(\<forall>now \<in> set (timer_checks [a]). \<not> expired c now s) \<Longrightarrow> deadline c (act J a s) = deadline c s"
    using other handleRelais_channel(2) [OF assms(1), of _ s] by (cases a) auto
qed

lemma timer_checks_Cons: "timer_checks (a # as) = timer_checks [a] @ timer_checks as"
  by (cases a) simp_all

lemma manual_off:
  assumes "channel_ok c" and "mode s = 0" and "list_all (hands_off J c) as" and "\<not> getState c s"
  shows "\<not> getState c (fold (act J) as s)"
  using assms(2-4)
proof (induction as arbitrary: s)
  case (Cons a as)
  then show ?case using manual_act(1,3) [OF assms(1), of s J a] by simp
qed simp

lemma manual_timer:
  assumes "channel_ok c" and "D < 4294967295" and "mode s = 0" and "list_all (hands_off J c) as"
    and "getState c s" and "deadline c s = of_nat D"
  shows "getState c (fold (act J) as s) \<longleftrightarrow> (\<forall>now \<in> set (timer_checks as). unat now < D)"
  using assms(3-6)
proof (induction as arbitrary: s)
  case (Cons a as)
  have h: "hands_off J c a" using Cons.prems(2) by simp
  note step = manual_act [OF assms(1) Cons.prems(1) h]
  have D: "(of_nat D :: millis_t) \<noteq> - 1" "\<And>now :: millis_t. of_nat D \<le> now \<longleftrightarrow> D \<le> unat now"
    using clock_not_max [OF assms(2)] assms(2)
    by (simp_all add: clock_def word_le_nat_alt unat_of_nat32)
  then have e: "expired c now s \<longleftrightarrow> D \<le> unat now" for now
    using Cons.prems(4) by (simp add: expired_def)
  show ?case
  proof (cases "\<forall>now \<in> set (timer_checks [a]). unat now < D")
    case True
    then have "\<forall>now \<in> set (timer_checks [a]). \<not> expired c now s" using e by auto
    then have "getState c (act J a s)" "deadline c (act J a s) = of_nat D" "mode (act J a s) = 0"
      using step Cons.prems by simp_all
    then have "getState c (fold (act J) as (act J a s)) \<longleftrightarrow> (\<forall>now \<in> set (timer_checks as). unat now < D)"
      using Cons.IH [of "act J a s"] Cons.prems(2) by simp
    then show ?thesis using True by (auto simp: timer_checks_Cons [of a as])
  next
    case False
    then have "\<not> getState c (act J a s)" using step e by (auto simp: not_less)
    then have "\<not> getState c (fold (act J) as (act J a s))"
      using manual_off [OF assms(1) step(3), of J as] Cons.prems(2) by simp
    then show ?thesis using False by (auto simp: timer_checks_Cons [of a as])
  qed
qed simp

lemma relais_request_channel:
  assumes "authorised J w s" and "relais_ok J json" and "j_asInt J (j_get J json ''channel'') = c"
    and "channel_ok c"
  shows "getState c (web_api J w json s) = j_asBool J (j_get J json ''state'')"
    and "j_isInt J (j_get J json ''duration'') \<Longrightarrow> fits_ms (j_asInt J (j_get J json ''duration'')) \<Longrightarrow> deadline c (web_api J w json s) =
      now_duration w + j_asInt J (j_get J json ''duration'') * 1000"
  using assms(3,4)
  by (auto simp: relais_api [OF assms(1,2)] getState_def deadline_def setRelais_regs
      setRelaisDuration_deadline product_ms_def)

lemma request_proper:
  assumes "channel_ok (j_asInt J (j_get J json ''channel''))"
    and "j_asInt J (j_get J json ''duration'') = of_nat d" and "d \<le> 2147483"
  shows "proper J (Api w json)"
proof -
  have "fits_ms (of_nat d)"
    using assms(3) by (rule fits_ms_of_nat)
  then show ?thesis using assms by (auto simp: proper_def bad_request_def Let_def)
qed

subsection \<open>Properties\<close>

text \<open>
  C12: No relay comes on by itself. As long as no request names a channel other than 1 and 2 or an
  overflowing duration, if the pin of a relay goes high in a step of the firmware, the step is an authorised request that asks for it, or a due tick of the automation: filling in
  mode 1 or 2 with the level below the maximum and not above the filling level, emptying in
  mode 1 with the level above the minimum. No other handler, callback or task and no restart
  switches a relay on.
\<close>
theorem switch_on_causes:
  assumes "reachable J (proper J) s" and "proper J a" and "channel_ok c"
    and "\<not> relay_pin c s" and "relay_pin c (act J a s)"
  shows "(\<exists>w json. a = Api w json \<and> authorised J w s \<and> relay_request J c json \<and>
      j_asBool J (j_get J json ''state'')) \<or>
    (\<exists>now. a = AutoLoop now \<and> AUTO_INTERVAL \<le> now - autoMillis s \<and>
      (c = 1 \<and> (mode s = 1 \<or> mode s = 2) \<and> fl_less (getLevelCached s) (maxL s) \<and>
         fl_le (getLevelCached s) (fillL s) \<or>
       c = 2 \<and> mode s = 1 \<and> fl_less (minL s) (getLevelCached s)))"
proof -
  have off: "\<not> getState c s" and on: "getState c (act J a s)"
    using assms reachable_pin [OF assms(1,3)] reachable_pin [OF reachable.step [OF assms(1,2)] assms(3)]
    by simp_all
  then have "may_switch J c a" using act_frame [OF assms(3)] by blast
  then show ?thesis
  proof (cases a)
    case (Api w json)
    then show ?thesis
      using off on \<open>may_switch J c a\<close> unauthorised_frame [of J w s c json] request_effect [OF assms(3), of J w s json]
      by auto
  next
    case (Relais now)
    then show ?thesis using off on handleRelais_channel(1) [OF assms(3), of now s] by (simp split: if_splits)
  next
    case (AutoLoop now)
    then show ?thesis using automation_switch_on [of c now s] off on assms(3) by auto
  next
    case (Reboot b)
    then show ?thesis using on reboot_off [of c J b s] by simp
  qed simp_all
qed

text \<open>
  C13: A timed relay in manual mode goes off at its deadline, whatever the firmware does in between.
  Take a request that switches a channel on for \<open>d\<close> seconds, followed by any interleaving of
  loop handlers, requests, callbacks and ADC steps without a restart, another request for the
  channel or a request that leaves C++. The duration is at most 2147483 seconds, so that its
  milliseconds fit an \<^verbatim>\<open>int\<close>. The relay is on, register and pin, exactly if no timer check of the main loop
  came at or after the deadline.
\<close>
theorem timed_relay_in_firmware:
  assumes "reachable J (proper J) s" and "mode s = 0" and "channel_ok c"
    and "authorised J w s" and "relais_ok J json" and "j_asInt J (j_get J json ''channel'') = c"
    and "j_asBool J (j_get J json ''state'')" and "j_isInt J (j_get J json ''duration'')"
    and "j_asInt J (j_get J json ''duration'') = of_nat d"
    and "d \<le> 2147483" and "unat (now_duration w) + d * 1000 < 4294967295"
    and "list_all (hands_off J c) as" and "list_all (proper J) as"
  shows "getState c (fold (act J) (Api w json # as) s) =
      (\<forall>now \<in> set (timer_checks as). unat now < unat (now_duration w) + d * 1000) \<and>
    relay_pin c (fold (act J) (Api w json # as) s) =
      (\<forall>now \<in> set (timer_checks as). unat now < unat (now_duration w) + d * 1000)"
proof -
  let ?t = "act J (Api w json) s" and ?D = "unat (now_duration w) + d * 1000"
  have "getState c ?t" "deadline c ?t = of_nat ?D"
    using relais_request_channel [OF assms(4-6,3)] fits_ms_of_nat [OF assms(10)] assms(7-9) by simp_all
  moreover have "mode ?t = 0" using mode_act [of "Api w json" J s] assms(2) by simp
  ultimately have "getState c (fold (act J) as ?t) = (\<forall>now \<in> set (timer_checks as). unat now < ?D)"
    by (intro manual_timer [OF assms(3,11) _ assms(12)])
  moreover have "proper J (Api w json)"
    using assms(3,6,8-10) by (intro request_proper [of J json d w]) simp_all
  then have "reachable J (proper J) (fold (act J) as ?t)"
    using assms(1,13) by (intro reachable_run reachable.step)
  then have "relay_pin c (fold (act J) as ?t) = getState c (fold (act J) as ?t)"
    by (rule reachable_pin [OF _ assms(3)])
  ultimately show ?thesis by simp
qed

text \<open>A freshly booted device in manual mode, for concrete inputs.\<close>

definition manual_lib :: "jv json_lib" where
  "manual_lib = jv_lib ''x'' JNull"

definition manual_fw :: "jv firmware" where
  "manual_fw = main_setup manual_lib demo_boot (power_on manual_lib demo_ota)"

definition open_web :: web_in where
  "open_web = demo_web\<lparr>authenticate := \<lambda>_ _. True\<rparr>"

lemma manual_fw_facts:
  "reachable manual_lib (proper manual_lib) manual_fw" "mode manual_fw = 0" "\<not> getState c manual_fw"
  "authorised manual_lib open_web manual_fw" "relais_ok manual_lib (relais_request 1 True 60)"
proof -
  show "reachable manual_lib (proper manual_lib) manual_fw"
    unfolding manual_fw_def by (rule reachable.boot) simp
  have "config manual_fw = JNull"
    by (simp add: manual_fw_def main_setup_config loadConfig_def manual_lib_def jv_lib_def
        case_prod_unfold Let_def)
  then show "mode manual_fw = 0"
    using main_setup_auto(1) [of manual_lib demo_boot "power_on manual_lib demo_ota"]
    by (simp add: manual_fw_def manual_lib_def jv_lib_def)
  show "\<not> getState c manual_fw" unfolding manual_fw_def by (rule reboot_off)
  show "authorised manual_lib open_web manual_fw"
    by (simp add: authorised_def needAuth_def open_web_def Let_def)
  show "relais_ok manual_lib (relais_request 1 True 60)"
    by (simp add: relais_ok_def request_type_def relais_request_def manual_lib_def jv_lib_def)
qed

lemma manual_request:
  "j_asInt manual_lib (j_get manual_lib (relais_request 1 True 60) ''channel'') = 1"
  "j_asBool manual_lib (j_get manual_lib (relais_request 1 True 60) ''state'')"
  "j_isInt manual_lib (j_get manual_lib (relais_request 1 True 60) ''duration'')"
  "j_asInt manual_lib (j_get manual_lib (relais_request 1 True 60) ''duration'') = of_nat 60"
  "now_duration open_web = 9000"
  by (simp_all add: relais_request_def manual_lib_def jv_lib_def open_web_def demo_web_def)

theorem switch_on_causes_witness:
  "\<exists>w json. Api open_web (relais_request 1 True 60) = Api w json \<and> authorised manual_lib w manual_fw \<and>
     relay_request manual_lib 1 json \<and> j_asBool manual_lib (j_get manual_lib json ''state'')"
proof -
  let ?a = "Api open_web (relais_request 1 True 60)"
  have p: "proper manual_lib ?a" using request_proper [of manual_lib _ 60] manual_request by simp
  then have r: "reachable manual_lib (proper manual_lib) (act manual_lib ?a manual_fw)"
    by (intro reachable.step manual_fw_facts)
  have "\<not> relay_pin 1 manual_fw" "relay_pin 1 (act manual_lib ?a manual_fw)"
    using reachable_pin [OF manual_fw_facts(1), of 1] reachable_pin [OF r, of 1] manual_fw_facts(3) [of 1]
      relais_request_channel(1) [OF manual_fw_facts(4,5) manual_request(1)] manual_request(2)
    by simp_all
  from switch_on_causes [OF manual_fw_facts(1) p _ this] show ?thesis by simp
qed

theorem timed_relay_in_firmware_witness:
  "relay_pin 1 (fold (act manual_lib) [Api open_web (relais_request 1 True 60), Blink 10000, AutoLoop 20000,
     Relais 68999] manual_fw) \<and>
   \<not> relay_pin 1 (fold (act manual_lib) [Api open_web (relais_request 1 True 60), Blink 10000, AutoLoop 20000,
     Relais 68999, NotFound, Relais 69000] manual_fw)"
proof -
  note t = timed_relay_in_firmware [OF manual_fw_facts(1,2) _ manual_fw_facts(4,5) manual_request(1-4)]
  have "relay_pin 1 (fold (act manual_lib) (Api open_web (relais_request 1 True 60) #
      [Blink 10000, AutoLoop 20000, Relais 68999]) manual_fw)"
    using t [of "[Blink 10000, AutoLoop 20000, Relais 68999]"]
    by (simp add: manual_request(5) hands_off_def proper_def)
  moreover have "\<not> relay_pin 1 (fold (act manual_lib) (Api open_web (relais_request 1 True 60) #
      [Blink 10000, AutoLoop 20000, Relais 68999, NotFound, Relais 69000]) manual_fw)"
    using t [of "[Blink 10000, AutoLoop 20000, Relais 68999, NotFound, Relais 69000]"]
    by (simp add: manual_request(5) hands_off_def proper_def)
  ultimately show ?thesis by simp
qed

text \<open>
  C32: A request for a channel that does not exist can switch a relay behind the back of the program.
  The pin number that \<^verbatim>\<open>setRelais\<close> then writes is indeterminate: for every relay there is a value
  with which an authorised request for a channel other than 1 and 2 (in its low eight bits) puts the
  requested level on the pin of that relay, while the reported state, the timer and the pin of the other
  relay stay as they were. When the requested state is not the reported one, the two now differ.
\<close>
theorem stray_pin_switches_relay:
  assumes "authorised J w s" and "relais_ok J json" and "channel_ok c" and "c' = 3 - c"
    and "(ucast (j_asInt J (j_get J json ''channel'')) :: int8_t) \<notin> {1, 2}"
  shows "\<exists>x. let t = web_api J (w\<lparr>stray_pin := x\<rparr>) json s in
    relay_pin c t = j_asBool J (j_get J json ''state'') \<and> relay_pin c' t = relay_pin c' s \<and>
    getState c t = getState c s \<and> getState c' t = getState c' s \<and>
    deadline c t = deadline c s \<and> deadline c' t = deadline c' s"
proof -
  let ?x = "if c = 1 then 0 else 1 :: 8 word"
  have "authorised J (w\<lparr>stray_pin := ?x\<rparr>) s"
    using assms(1) by (simp add: authorised_def needAuth_def Let_def)
  note api = relais_api [OF this assms(2)]
  have "j_asInt J (j_get J json ''channel'') \<noteq> 1" "j_asInt J (j_get J json ''channel'') \<noteq> 2"
    using assms(5) by auto
  then show ?thesis
    using assms(3-5)
    by (intro exI [of _ ?x])
      (auto simp: api getState_def deadline_def relay_pin_def setRelais_regs setRelais_pin
        setRelaisDuration_deadline pin_level_emit RELAIS_CH1_def RELAIS_CH2_def Let_def)
qed

theorem stray_pin_switches_relay_witness:
  "\<exists>x. let t = web_api manual_lib (open_web\<lparr>stray_pin := x\<rparr>) (relais_request 3 True 60) manual_fw in
     relay_pin 2 t \<and> \<not> getState 2 t"
proof -
  have "relais_ok manual_lib (relais_request 3 True 60)"
    "(ucast (j_asInt manual_lib (j_get manual_lib (relais_request 3 True 60) ''channel'')) :: int8_t) \<notin> {1, 2}"
    "j_asBool manual_lib (j_get manual_lib (relais_request 3 True 60) ''state'')"
    by (simp_all add: relais_ok_def request_type_def relais_request_def manual_lib_def jv_lib_def)
  with stray_pin_switches_relay [OF manual_fw_facts(4), of "relais_request 3 True 60" 2 1] manual_fw_facts(3) [of 2]
  show ?thesis by (auto simp: Let_def)
qed

end
