(* ===== verification/Relay_Spec.thy ===== *)
theory Relay_Spec
  imports Relay_Causes
begin

text \<open>
  What the firmware promises about its relays, without handlers, files or network: a bank of two
  channels, each on or off and perhaps with a deadline, and five operations on it. \<open>bank_of\<close> reads
  the bank from the state of the firmware, \<open>operation\<close> says which operation an action stands for
  in a state. Every action, of whichever part of the firmware, does to the bank exactly what its
  operation does; the relay pins show the bank.
\<close>

record channel =
  on :: bool
  until :: "millis_t option"

record bank =
  fill_channel :: channel
  empty_channel :: channel

datatype relay_op =
    Nothing
  | Switch bool bool "millis_t option"
  | Check millis_t
  | Steer "bool option" "bool option"
  | AllOff

text \<open>\<open>Switch b\<close> means the filling channel if \<open>b\<close>, else the emptying channel.\<close>

definition set_channel :: "bool \<Rightarrow> millis_t option \<Rightarrow> channel" where
  "set_channel b t = \<lparr>on = b, until = t\<rparr>"

definition check_channel :: "millis_t \<Rightarrow> channel \<Rightarrow> channel" where
  "check_channel now c = (case until c of None \<Rightarrow> c | Some t \<Rightarrow> if t \<le> now then set_channel False None else c)"

definition steer_channel :: "bool option \<Rightarrow> channel \<Rightarrow> channel" where
  "steer_channel d c = (case d of None \<Rightarrow> c | Some b \<Rightarrow> set_channel b None)"

fun bank_step :: "relay_op \<Rightarrow> bank \<Rightarrow> bank" where
  "bank_step Nothing b = b"
| "bank_step (Switch filling state t) b =
     (if filling then b\<lparr>fill_channel := set_channel state t\<rparr> else b\<lparr>empty_channel := set_channel state t\<rparr>)"
| "bank_step (Check now) b =
     \<lparr>fill_channel = check_channel now (fill_channel b), empty_channel = check_channel now (empty_channel b)\<rparr>"
| "bank_step (Steer f p) b =
     \<lparr>fill_channel = steer_channel f (fill_channel b), empty_channel = steer_channel p (empty_channel b)\<rparr>"
| "bank_step AllOff b = \<lparr>fill_channel = set_channel False None, empty_channel = set_channel False None\<rparr>"

subsection \<open>The firmware as a bank\<close>

definition deadline_of :: "millis_t \<Rightarrow> millis_t option" where
  "deadline_of t = (if t = - 1 then None else Some t)"

definition bank_of :: "('j, 'z) device_state_scheme \<Rightarrow> bank" where
  "bank_of s = \<lparr>fill_channel = \<lparr>on = relay1 s, until = deadline_of (ch1 s)\<rparr>,
     empty_channel = \<lparr>on = relay2 s, until = deadline_of (ch2 s)\<rparr>\<rparr>"

text \<open>The operation of a request: its channel is cut to eight bits for the relay, not for the timer.\<close>

definition request_op :: "'j json_lib \<Rightarrow> web_in \<Rightarrow> 'j \<Rightarrow> relay_op" where
  "request_op J w json =
     (let c = j_asInt J (j_get J json ''channel'');
          state = j_asBool J (j_get J json ''state'');
          t = now_duration w + j_asInt J (j_get J json ''duration'') * 1000;
          timed = j_isInt J (j_get J json ''duration'') \<and> channel_ok c
      in if (ucast c :: int8_t) = 1 then Switch True state (if timed then deadline_of t else None)
         else if (ucast c :: int8_t) = 2 then Switch False state (if timed then deadline_of t else None)
         else Nothing)"

definition fill_decision :: "('j, 'z) auto_state_scheme \<Rightarrow> bool option" where
  "fill_decision s =
     (if fl_less (getLevelCached s) (maxL s)
      then if \<not> fillM s \<and> fl_le (getLevelCached s) (fillL s) then Some True else None
      else Some False)"

definition tick_op :: "millis_t \<Rightarrow> ('j, 'z) auto_state_scheme \<Rightarrow> relay_op" where
  "tick_op now s =
     (if mode s = 0 \<or> \<not> AUTO_INTERVAL \<le> now - autoMillis s then Nothing
      else if mode s = 1 then Steer (fill_decision s) (Some (fl_less (minL s) (getLevelCached s)))
      else if mode s = 2 then Steer (fill_decision s) None
      else if fillM s \<or> pumpM s then Steer (Some False) (Some False) else Nothing)"

fun operation :: "'j json_lib \<Rightarrow> 'j action \<Rightarrow> 'j firmware \<Rightarrow> relay_op" where
  "operation J (Api w json) s = (if authorised J w s \<and> relais_ok J json then request_op J w json else Nothing)"
| "operation J (Relais now) s = Check now"
| "operation J (AutoLoop now) s = tick_op now s"
| "operation J (Reboot b) s = AllOff"
| "operation J _ s = Nothing"

fun operations :: "'j json_lib \<Rightarrow> 'j action list \<Rightarrow> 'j firmware \<Rightarrow> relay_op list" where
  "operations J [] s = []"
| "operations J (a # as) s = operation J a s # operations J as (act J a s)"

lemma bank_of_regs: "regs t = regs s \<Longrightarrow> bank_of t = bank_of s"
  by (simp add: regs_def bank_of_def)

lemma deadline_of_none [simp]: "deadline_of (- 1) = None"
  by (simp add: deadline_of_def)

lemma bank_relais:
  "bank_of (setRelais x c b s) =
    (if c = 1 then (bank_of s)\<lparr>fill_channel := set_channel b None\<rparr>
     else if c = 2 then (bank_of s)\<lparr>empty_channel := set_channel b None\<rparr> else bank_of s)"
  by (simp add: bank_of_def setRelais_regs set_channel_def)

lemma bank_handleRelais: "bank_of (handleRelais now s) = bank_step (Check now) (bank_of s)"
  by (simp add: handleRelais_def bank_relais Let_def)
    (simp add: bank_of_def check_channel_def deadline_of_def set_channel_def setRelais_regs)

lemma bank_fill: "bank_of (handleFill s) = bank_step (Steer (fill_decision s) None) (bank_of s)"
  by (simp add: handleFill_def fill_decision_def setFill_def steer_channel_def)
    (simp add: bank_of_def setRelais_regs set_channel_def PUMP_FILL_def)

lemma bank_pump:
  "bank_of (handlePump s) = bank_step (Steer None (Some (fl_less (minL s) (getLevelCached s)))) (bank_of s)"
  by (simp add: handlePump_def setPump_def steer_channel_def)
    (simp add: bank_of_def setRelais_regs set_channel_def PUMP_EMPTY_def)

lemma fill_keeps:
  "minL (handleFill s) = minL s" "getLevelCached (handleFill s) = getLevelCached s"
  by (simp_all add: handleFill_def setFill_def getLevelCached_def)

lemma bank_stamp: "bank_of (s\<lparr>autoMillis := t\<rparr>) = bank_of s" "fill_decision (s\<lparr>autoMillis := t\<rparr>) = fill_decision s"
  by (simp_all add: bank_of_def fill_decision_def getLevelCached_def)

lemma steer_twice:
  "bank_step (Steer None p) (bank_step (Steer f None) b) = bank_step (Steer f p) b"
  by (simp add: steer_channel_def)

lemma bank_auto: "bank_of (AutomationHandler_loop now s) = bank_step (tick_op now s) (bank_of s)"
proof -
  let ?s = "s\<lparr>autoMillis := now\<rparr>"
  have "bank_of (handlePump (handleFill ?s)) =
      bank_step (Steer (fill_decision s) (Some (fl_less (minL s) (getLevelCached s)))) (bank_of s)"
    by (simp only: bank_pump bank_fill steer_twice fill_keeps bank_stamp) (simp add: getLevelCached_def)
  moreover have "bank_of (handleFill ?s) = bank_step (Steer (fill_decision s) None) (bank_of s)"
    by (simp only: bank_fill bank_stamp)
  moreover have "bank_of (setFill False (setPump False ?s)) = bank_step (Steer (Some False) (Some False)) (bank_of s)"
    by (simp add: bank_of_def setFill_def setPump_def setRelais_regs steer_channel_def set_channel_def
        PUMP_FILL_def PUMP_EMPTY_def)
  ultimately show ?thesis
    by (simp add: AutomationHandler_loop_def tick_op_def bank_stamp Let_def del: bank_step.simps(4))
qed

lemma bank_request:
  assumes "authorised J w s" and "relais_ok J json" and "\<not> bad_request J json"
  shows "bank_of (web_api J w json s) = bank_step (request_op J w json) (bank_of s)"
proof -
  have "\<not> (ucast c :: int8_t) = 1 \<Longrightarrow> c \<noteq> 1" "\<not> (ucast c :: int8_t) = 2 \<Longrightarrow> c \<noteq> 2" for c :: cint by auto
  moreover have "fits_ms (j_asInt J (j_get J json ''duration''))"
    if "j_isInt J (j_get J json ''duration'')" "channel_ok (j_asInt J (j_get J json ''channel''))"
    using assms(2,3) that by (auto simp: bad_request_def Let_def)
  ultimately show ?thesis
    by (auto simp: relais_api [OF assms(1,2)] request_op_def bank_of_def setRelais_regs
        setRelaisDuration_deadline product_ms_def set_channel_def Let_def)
qed

lemma regs_boot: "regs (main_setup J b s) = regs s"
proof -
  have "regs (MQTTHandler_setup J now t) = regs t" for now and t :: "'a firmware"
    by (simp add: regs_def MQTTHandler_setup_def setLastWill_def Let_def)
  then show ?thesis
    by (simp add: main_setup_def regs.view_laws regs.view_emits regs.view_storage regs.view_load
        regs.view_setups regs.view_handlers Let_def)
qed

lemma bank_reboot: "bank_of (main_setup J b (power_on J s)) = bank_step AllOff (bank_of s)"
  using regs_boot [of J b "power_on J s"] by (simp add: regs_def bank_of_def set_channel_def power_on_def)

subsection \<open>Property\<close>

lemma bank_act:
  assumes "valid J a"
  shows "bank_of (act J a s) = bank_step (operation J a s) (bank_of s)"
proof (cases "may_switch J 1 a \<or> (\<exists>w json. a = Api w json)")
  case True
  then consider (request) w json where "a = Api w json" | (check) now where "a = Relais now"
    | (tick) now where "a = AutoLoop now" | (reboot) b where "a = Reboot b"
    by (cases a) auto
  then show ?thesis
  proof cases
    case request
    then show ?thesis
      using bank_request [of J w s json] bank_of_regs [OF regs.view_api_other [of J w s json]] assms by auto
  next
    case check
    then show ?thesis by (simp add: bank_handleRelais)
  next
    case tick
    then show ?thesis by (simp add: bank_auto)
  next
    case reboot
    then show ?thesis using bank_reboot [of J b s] by simp
  qed
next
  case False
  then have "operation J a s = Nothing" by (cases a) simp_all
  then show ?thesis using bank_of_regs [OF regs_act, of J 1 a s] False by simp
qed

lemma bank_run:
  "list_all (valid J) as \<Longrightarrow> bank_of (fold (act J) as s) = fold bank_step (operations J as s) (bank_of s)"
  by (induction as arbitrary: s) (simp_all add: bank_act)

text \<open>
  C14: The firmware refines the relay bank. From every state reachable without bad requests and for
  every sequence of actions of all activities without bad requests, restarts included, the registers and timers evolve exactly as the
  bank does under the operations the actions stand for, and the two relay pins show it.
\<close>
theorem firmware_refines_bank:
  assumes "reachable J (proper J) s" and "list_all (proper J) as"
  shows "bank_of (fold (act J) as s) = fold bank_step (operations J as s) (bank_of s) \<and>
    relay_pin 1 (fold (act J) as s) = on (fill_channel (fold bank_step (operations J as s) (bank_of s))) \<and>
    relay_pin 2 (fold (act J) as s) = on (empty_channel (fold bank_step (operations J as s) (bank_of s)))"
proof -
  have "reachable J (proper J) (fold (act J) as s)" using assms by (rule reachable_run)
  note pins = reachable_pin [OF this]
  have "list_all (valid J) as" using assms(2) by (auto simp: proper_def list_all_iff)
  from bank_run [OF this, of s, symmetric] pins show ?thesis
    by (simp add: bank_of_def getState_def)
qed

theorem firmware_refines_bank_witness:
  "operations manual_lib [Api open_web (relais_request 1 True 60), Blink 5000, Relais 68999] manual_fw =
     [Switch True True (Some 69000), Nothing, Check 68999] \<and>
   relay_pin 1 (fold (act manual_lib)
     [Api open_web (relais_request 1 True 60), Blink 5000, Relais 68999] manual_fw)"
proof -
  let ?as = "[Api open_web (relais_request 1 True 60), Blink 5000, Relais 68999]"
  have "request_op manual_lib open_web (relais_request 1 True 60) = Switch True True (Some 69000)"
    by (simp add: request_op_def manual_request deadline_of_def Let_def)
  then have ops: "operations manual_lib ?as manual_fw = [Switch True True (Some 69000), Nothing, Check 68999]"
    using manual_fw_facts(4,5) by simp
  have "list_all (proper manual_lib) ?as"
    using request_proper [of manual_lib _ 60] manual_request by (simp add: proper_def [of _ "Blink t" for t] proper_def [of _ "Relais t" for t])
  from firmware_refines_bank [OF manual_fw_facts(1) this] show ?thesis
    unfolding ops by (simp add: check_channel_def set_channel_def)
qed

end
