(* ===== verification/Settings.thy ===== *)
theory Settings
  imports Handler_Frames
begin

text \<open>
  The settings the device copies from the configuration when it boots: calibration, tank volume,
  LED, mode and limits of the automation. Nothing but a restart changes them, so that a saved
  configuration takes effect in two parts: the web server, the radio and the MQTT client read the
  configuration whenever they need it, the sensor and the automation keep their copies.
\<close>

definition settings ::
  "('j, 'z) auto_state_scheme \<Rightarrow> (bool \<times> fl \<times> fl \<times> fl) \<times> (cint \<times> fl \<times> fl \<times> fl)" where
  "settings s = ((systemLed s, maxV s, minV s, tankVolume s), (mode s, maxL s, minL s, fillL s))"

text \<open>What a boot with a configuration copies from it.\<close>

definition settings_from ::
  "'j json_lib \<Rightarrow> 'j \<Rightarrow> (bool \<times> fl \<times> fl \<times> fl) \<times> (cint \<times> fl \<times> fl \<times> fl)" where
  "settings_from J cfg =
     ((j_asBool J (j_path J cfg [''hardware'', ''led'']), j_asFloat J (j_path J cfg [''calibration'', ''max'']),
       j_asFloat J (j_path J cfg [''calibration'', ''min'']), j_asFloat J (j_path J cfg [''calibration'', ''volume''])),
      (j_asInt J (j_path J cfg [''auto'', ''mode'']), j_asFloat J (j_path J cfg [''auto'', ''max'']),
       j_asFloat J (j_path J cfg [''auto'', ''min'']), j_asFloat J (j_path J cfg [''auto'', ''fill''])))"

interpretation settings: handler_frame settings
  by unfold_locales (simp_all add: settings_def emit_def)

lemma settings_mqtt:
  "settings (MQTTHandler_setup J now s) = settings s" "settings (MQTTHandler_loop J i s) = settings s"
  by (simp_all add: settings_def MQTTHandler_loop_def MQTTHandler_setup_def setLastWill_def publish_all
      emits_def emit_def Let_def)

lemma settings_sensor:
  "settings (handleScan taskOk temp now s) = settings s" "settings (adcTaskStep k mv s) = settings s"
  by (auto simp: settings_def handleScan_def scanSensors_def adcTaskStep_def finishReading_def emit_def
      Let_def split: prod.splits nat.splits)

lemma settings_act: "\<not> is_reboot a \<Longrightarrow> settings (act J a s) = settings s"
  by (cases a) (simp_all add: settings.view_handlers settings.view_switching settings_sensor settings_mqtt)

lemma settings_run:
  "list_all (\<lambda>a. \<not> is_reboot a) as \<Longrightarrow> settings (fold (act J) as s) = settings s"
  by (induction as arbitrary: s) (simp_all add: settings_act)

lemma settings_device_setup:
  "fst (settings (DeviceHandler_setup J pin rw ok s)) = fst (settings_from J (config s))"
proof -
  have "settings (setupDisplay J ok t) = settings t" for t :: "('a, 'b) auto_state_scheme"
    by (simp add: settings_def setupDisplay_def setBrightness_def emit_def emits_def Let_def)
  then show ?thesis
    by (simp add: DeviceHandler_setup_def settings_def settings_from_def getConfig_def Let_def)
qed

lemma settings_auto_setup:
  "settings (AutomationHandler_setup J s) = (fst (settings s), snd (settings_from J (config s)))"
  by (simp add: AutomationHandler_setup_def settings_def settings_from_def getConfig_def)

lemma settings_boot: "settings (main_setup J b s) = settings_from J (config (main_setup J b s))"
proof -
  let ?s2 = "snd (loadConfig J (config_write b) (FileHandler_begin (mount b) (serial_up s)))"
  let ?s3 = "DeviceHandler_setup J (reset_pin b) (reset_write b) (display_ok b) ?s2"
  let ?s6 = "OTAHandler_setup J (WebHandler_setup
    (WiFiHandler_setup J (sta_ok b) (boot_ap b) (now_boot_wifi b) ?s3))"
  have "settings ?s6 = settings ?s3" by (simp add: settings.view_handlers)
  then have "settings (AutomationHandler_setup J ?s6) = settings_from J (config ?s2)"
    by (simp add: settings_auto_setup settings_device_setup)
  moreover have "settings (main_setup J b s) = settings (AutomationHandler_setup J ?s6)"
    by (simp add: main_setup_def settings_mqtt settings.view_emit Let_def)
  ultimately show ?thesis by (simp add: main_setup_config)
qed

lemma save_request:
  assumes "authorised J w s" and "j_isString J (j_get J json ''type'')" and "request_type J json = ''save''"
    and "j_isObject J (j_get J json ''config'')"
  shows "config (web_api J w json s) = j_get J json ''config''"
  using assms
  by (simp add: web_api_def needAuth_cases checkRequest_def handleAPICall_def request_type_def saveConfig_def
      sendOK_def sendResponse_def Let_def)

text \<open>
  C25: A saved configuration does not reach the sensor and the automation before a restart. After an
  authorised \<^verbatim>\<open>save\<close> request the configuration in memory is the new one, but calibration, tank
  volume, mode and limits stay what they were, whatever happens, until the device restarts; the
  restart copies all of them from the configuration it loads.
\<close>
theorem save_needs_restart:
  assumes "authorised J w s" and "j_isString J (j_get J json ''type'')" and "request_type J json = ''save''"
    and "j_isObject J (j_get J json ''config'')" and "list_all (\<lambda>a. \<not> is_reboot a) as"
  shows "getConfig (act J (Api w json) s) = j_get J json ''config'' \<and>
    settings (fold (act J) (Api w json # as) s) = settings s \<and>
    settings (act J (Reboot b) (fold (act J) (Api w json # as) s)) =
      settings_from J (getConfig (act J (Reboot b) (fold (act J) (Api w json # as) s)))"
proof (intro conjI)
  show "getConfig (act J (Api w json) s) = j_get J json ''config''"
    using save_request [OF assms(1-4)] by (simp add: getConfig_def)
  show "settings (fold (act J) (Api w json # as) s) = settings s"
    using assms(5) by (intro settings_run) simp
  show "settings (act J (Reboot b) (fold (act J) (Api w json # as) s)) =
      settings_from J (getConfig (act J (Reboot b) (fold (act J) (Api w json # as) s)))"
    by (simp only: act.simps settings_boot getConfig_def)
qed

definition demo_save :: jv where
  "demo_save = JObj [(''type'', JText ''save''), (''config'', JObj [(''auto'', JObj [(''mode'', JInt 2)])])]"

theorem save_needs_restart_witness:
  "getConfig (act (jv_lib ''x'' JNull) (Api demo_web demo_save) demo_ota) =
     JObj [(''auto'', JObj [(''mode'', JInt 2)])] \<and>
   mode (fold (act (jv_lib ''x'' JNull)) [Api demo_web demo_save, AutoLoop 5000, Blink 6000] demo_ota) =
     mode demo_ota"
proof -
  have "authorised (jv_lib ''x'' JNull) demo_web demo_ota"
    by (simp add: authorised_def needAuth_def jv_lib_def getConfig_def)
  from save_needs_restart [OF this, of demo_save "[AutoLoop 5000, Blink 6000]"] show ?thesis
    by (simp add: settings_def demo_save_def request_type_def jv_lib_def)
qed

end
