(* ===== verification/Voltage_Filter.thy ===== *)
theory Voltage_Filter
  imports Sensor
begin

text \<open>
  How good the voltage measurement of \<^verbatim>\<open>src/DeviceHandler.cpp\<close> is. The source computes
  \<^verbatim>\<open>latest * (1 - 0.3) + average * 0.3\<close> in \<^verbatim>\<open>double\<close> and stores a \<^verbatim>\<open>float\<close>; the specification is the
  exact recurrence \<open>ema_spec\<close> over the rationals. One reading differs from it by at most a
  rounding error, the error does not accumulate, and a constant input is reached up to two
  microvolts.
\<close>

subsection \<open>Rounding errors in the range of the sensor\<close>

lemma rnd_abs:
  assumes "\<bar>q\<bar> \<le> 7 / 2" and "emin f \<le> 1"
  shows "\<bar>rnd f q - q\<bar> \<le> 2 powi (1 - int (prec f - 1)) / 2"
proof (cases "q = 0")
  case False
  have "ilog2 (7 / 2) = 1" by (rule ilog2_unique) (simp_all add: power_int_def)
  then have "ilog2 q \<le> 1" using ilog2_mono [OF False, of "7 / 2"] assms(1) by simp
  then have "ulp_exp f q \<le> 1 - int (prec f - 1)" using assms(2) by (simp add: ulp_exp_def)
  then have "2 powi ulp_exp f q \<le> (2 :: rat) powi (1 - int (prec f - 1))" by simp
  then show ?thesis using rnd_close [OF False, of f] by linarith
qed simp

lemma rnd32_abs: "\<bar>q\<bar> \<le> 7 / 2 \<Longrightarrow> \<bar>rnd binary32 q - q\<bar> \<le> 1 / 8388608"
  using rnd_abs [of q binary32] by (simp add: binary32_def power_int_def power_divide)

lemma rnd64_abs: "\<bar>q\<bar> \<le> 7 / 2 \<Longrightarrow> \<bar>rnd binary64 q - q\<bar> \<le> 1 / 4503599627370496"
  using rnd_abs [of q binary64] by (simp add: binary64_def power_int_def power_divide)

lemma rnd32_int:
  assumes "0 \<le> n" and "n < 16777216"
  shows "rnd binary32 (of_int n) = of_int n"
proof (cases "n = 0")
  case False
  have l: "ilog2 (of_int n) \<le> 23"
  proof -
    have "ilog2 16777215 = 23" by (rule ilog2_unique) (simp_all add: power_int_def)
    moreover have "ilog2 (of_int n) \<le> ilog2 16777215"
      using assms False by (intro ilog2_mono) auto
    ultimately show ?thesis by simp
  qed
  let ?e = "ulp_exp binary32 (of_int n)"
  have "?e \<le> 0" using l by (simp add: ulp_exp_def binary32_def)
  then have "rat_of_int n = of_int (n * 2 ^ nat (0 - ?e)) * 2 powi ?e"
    using powi_grid [of ?e 0] by simp
  then show ?thesis by (rule rnd_grid)
qed simp

lemma fl_conv_val:
  assumes "fl_finite a" and "\<bar>rnd binary32 (fval a)\<bar> < fl_limit binary32"
  shows "fl_finite (fl_conv binary32 a) \<and> fval (fl_conv binary32 a) = rnd binary32 (fval a)"
  using assms b32.to_fl_fval [of "fval a"] by (cases a) (auto simp: fl_conv_def)

subsection \<open>One reading\<close>

definition ema_spec :: "rat \<Rightarrow> rat \<Rightarrow> rat" where
  "ema_spec old average = 7 / 10 * old + 3 / 10 * average"

lemma weight_errors: "\<bar>BETA - 7 / 10\<bar> \<le> 1 / 9007199254740992" "\<bar>ALPHA - 3 / 10\<bar> \<le> 1 / 9007199254740992"
  by (simp_all add: BETA_def ALPHA_def)

lemma scaled_error:
  assumes "\<bar>w - v\<bar> \<le> 1 / 9007199254740992" and "0 \<le> x" and "x \<le> (7 / 2 :: rat)"
  shows "\<bar>x * w - x * v\<bar> \<le> 1 / 2251799813685248"
proof -
  have "\<bar>x * w - x * v\<bar> = x * \<bar>w - v\<bar>" using assms(2) by (simp add: abs_mult flip: right_diff_distrib)
  also have "\<dots> \<le> 7 / 2 * (1 / 9007199254740992)" using assms by (intro mult_mono) auto
  finally show ?thesis by simp
qed

text \<open>The value of a reading, when no intermediate result overflows.\<close>

lemma ema_val:
  assumes "fl_finite old" and "fl_finite average"
  defines "b \<equiv> rnd binary64 (fval old * BETA)" and "a \<equiv> rnd binary64 (fval average * ALPHA)"
  assumes "\<bar>b\<bar> < 4" and "\<bar>a\<bar> < 4" and "\<bar>rnd binary64 (b + a)\<bar> < 4"
    and "\<bar>rnd binary32 (rnd binary64 (b + a))\<bar> < 4"
  shows "fval (ema old average) = rnd binary32 (rnd binary64 (b + a))"
proof -
  let ?B = "fl_mul binary64 old (FFin BETA)" and ?A = "fl_mul binary64 average (FFin ALPHA)"
  have "\<bar>b\<bar> < fl_limit binary64" "\<bar>a\<bar> < fl_limit binary64"
    "\<bar>rnd binary64 (b + a)\<bar> < fl_limit binary64"
    "\<bar>rnd binary32 (rnd binary64 (b + a))\<bar> < fl_limit binary32"
    using assms(5-8) limits by linarith+
  moreover from calculation have B: "fl_finite ?B \<and> fval ?B = b"
    unfolding b_def using assms(1) b64.fl_mul_val [of old "FFin BETA"] by simp
  moreover from calculation have A: "fl_finite ?A \<and> fval ?A = a"
    unfolding a_def using assms(2) b64.fl_mul_val [of average "FFin ALPHA"] by simp
  ultimately have "fl_finite (fl_add binary64 ?B ?A) \<and> fval (fl_add binary64 ?B ?A) = rnd binary64 (b + a)"
    using b64.fl_add_val [of ?B ?A] by simp
  then show ?thesis
    unfolding ema_def weights(2) unfolding weights(1)
    using fl_conv_val [of "fl_add binary64 ?B ?A"] \<open>\<bar>rnd binary32 (rnd binary64 (b + a))\<bar> < fl_limit binary32\<close>
    by simp
qed

lemma ema_error:
  assumes "fl_in 0 V_MAX old" and "fl_in 0 V_MAX average"
  shows "\<bar>fval (ema old average) - ema_spec (fval old) (fval average)\<bar> \<le> 1 / 4194304"
proof -
  let ?x = "fval old" and ?y = "fval average"
  let ?b = "rnd binary64 (?x * BETA)" and ?a = "rnd binary64 (?y * ALPHA)"
  let ?c = "rnd binary64 (?b + ?a)"
  have r: "0 \<le> ?x" "?x \<le> V_MAX" "0 \<le> ?y" "?y \<le> V_MAX" "fl_finite old" "fl_finite average"
    using assms by (simp_all add: fl_in_def)
  have v: "?x \<le> 34 / 10" "?y \<le> 34 / 10" using r by (auto simp: V_MAX_def)
  have bx: "\<bar>?x * BETA - 7 / 10 * ?x\<bar> \<le> 1 / 2251799813685248"
    using scaled_error [OF weight_errors(1), of ?x] r v by (simp add: mult.commute)
  have ay: "\<bar>?y * ALPHA - 3 / 10 * ?y\<bar> \<le> 1 / 2251799813685248"
    using scaled_error [OF weight_errors(2), of ?y] r v by (simp add: mult.commute)
  have b1: "\<bar>?x * BETA\<bar> \<le> 7 / 2" "\<bar>?y * ALPHA\<bar> \<le> 7 / 2"
    using bx ay r v by linarith+
  have eb: "\<bar>?b - ?x * BETA\<bar> \<le> 1 / 4503599627370496" using b1(1) by (rule rnd64_abs)
  have ea: "\<bar>?a - ?y * ALPHA\<bar> \<le> 1 / 4503599627370496" using b1(2) by (rule rnd64_abs)
  have sum: "\<bar>?b + ?a - ema_spec ?x ?y\<bar> \<le> 1 / 1000000000000"
    using bx ay eb ea unfolding ema_spec_def by linarith
  have spec: "0 \<le> ema_spec ?x ?y" "ema_spec ?x ?y \<le> 34 / 10"
    using r v unfolding ema_spec_def by linarith+
  have b2: "\<bar>?b + ?a\<bar> \<le> 7 / 2" using sum spec by linarith
  have ec: "\<bar>?c - (?b + ?a)\<bar> \<le> 1 / 4503599627370496" using b2 by (rule rnd64_abs)
  have b3: "\<bar>?c\<bar> \<le> 7 / 2" using ec sum spec by linarith
  have ed: "\<bar>rnd binary32 ?c - ?c\<bar> \<le> 1 / 8388608" using b3 by (rule rnd32_abs)
  have "fval (ema old average) = rnd binary32 ?c"
    using r b1 eb ea b3 ed by (intro ema_val) linarith+
  then show ?thesis using ed ec sum by linarith
qed

subsection \<open>A constant input\<close>

lemma sample_sum_const: "sample_sum n (\<lambda>_. m) = of_nat n * m"
  by (induction n) (simp_all add: algebra_simps)

lemma const_sum:
  assumes "unat m \<le> 3300"
  shows "unat (sample_sum 64 (\<lambda>_. m)) = 64 * unat m"
proof -
  have "unat (64 :: 32 word) * unat m < 2 ^ LENGTH(32)" using assms by simp
  then have "unat (64 * m) = unat (64 :: 32 word) * unat m" by (simp only: unat_mult_lem)
  then show ?thesis by (simp add: sample_sum_const)
qed

lemma average_const:
  assumes "unat m \<le> 3300"
  shows "\<bar>fval (average_of 64 (sample_sum 64 (\<lambda>_. m))) - of_nat (unat m) / 1000\<bar> \<le> 1 / 8388608"
proof -
  let ?m = "rat_of_nat (unat m)"
  let ?s = "f32 (64 * ?m)" and ?q = "fl_div binary32 (f32 (64 * ?m)) (FFin 64)"
  have m: "0 \<le> ?m" "?m \<le> 3300"
    using of_nat_mono [OF assms, where 'a = rat] by (simp_all only: of_nat_0_le_iff of_nat_numeral)
  have i: "rnd binary32 (64 * ?m) = 64 * ?m" "rnd binary32 ?m = ?m"
    using rnd32_int [of "64 * int (unat m)"] rnd32_int [of "int (unat m)"] assms
    by (simp_all del: of_nat_unat)
  have s: "fl_finite ?s \<and> fval ?s = 64 * ?m"
    using b32.to_fl_fval [of "64 * ?m"] i m limits(1) by (simp del: of_nat_unat)
  have q: "fl_finite ?q \<and> fval ?q = ?m"
    using b32.fl_div_val [of ?s "FFin 64"] s i m limits(1) by (simp del: of_nat_unat)
  have e: "\<bar>rnd binary32 (?m / 1000) - ?m / 1000\<bar> \<le> 1 / 8388608"
    using m by (intro rnd32_abs) (simp del: of_nat_unat)
  then have "\<bar>rnd binary32 (?m / 1000)\<bar> < fl_limit binary32"
    using m limits(1) by linarith
  then have "fval (fl_div binary32 ?q (FFin 1000)) = rnd binary32 (?m / 1000)"
    using b32.fl_div_val [of ?q "FFin 1000"] q by (simp del: of_nat_unat)
  moreover have "average_of 64 (sample_sum 64 (\<lambda>_. m)) = fl_div binary32 ?q (FFin 1000)"
    using const_sum [OF assms] by (simp add: average_of_def f32_consts del: of_nat_unat)
  ultimately show ?thesis using e by simp
qed

lemma contraction:
  fixes r v a c :: rat
  assumes "\<bar>r - (7 / 10 * v + 3 / 10 * a)\<bar> \<le> 1 / 4194304" and "\<bar>a - c\<bar> \<le> 1 / 8388608"
  shows "\<bar>r - c\<bar> \<le> 7 / 10 * \<bar>v - c\<bar> + 6 / 10000000"
proof -
  let ?x = "r - (7 / 10 * v + 3 / 10 * a)" and ?y = "7 / 10 * (v - c) + 3 / 10 * (a - c)"
  have "r - c = ?x + ?y" by (simp add: field_simps)
  then have "\<bar>r - c\<bar> \<le> \<bar>?x\<bar> + \<bar>?y\<bar>" using abs_triangle_ineq [of ?x ?y] by simp
  moreover have "\<bar>?y\<bar> \<le> \<bar>7 / 10 * (v - c)\<bar> + \<bar>3 / 10 * (a - c)\<bar>" by (rule abs_triangle_ineq)
  moreover have "\<bar>7 / 10 * (v - c)\<bar> = 7 / 10 * \<bar>v - c\<bar>" "\<bar>3 / 10 * (a - c)\<bar> = 3 / 10 * \<bar>a - c\<bar>"
    by (simp_all only: abs_mult abs_divide abs_numeral)
  ultimately show ?thesis using assms by linarith
qed

text \<open>\<open>n\<close> complete readings of the same voltage.\<close>

definition readings :: "32 word \<Rightarrow> nat \<Rightarrow> ('j, 'z) device_state_scheme \<Rightarrow> ('j, 'z) device_state_scheme" where
  "readings m n s = ((\<lambda>s. snd (getADCValue (\<lambda>_. m) s)) ^^ n) s"

lemma reading_voltage:
  "latestVoltage (snd (getADCValue mv s)) = ema (latestVoltage s) (average_of 64 (sample_sum 64 mv))"
  by (simp add: getADCValue_def readVoltage_def finishReading_def Let_def)

text \<open>
  C21: The filter converges. With a constant input of \<open>m\<close> millivolts the cached voltage approaches
  it by the factor 0.7 per reading, down to two microvolts: the rounding errors of the
  mixed \<^verbatim>\<open>float\<close> and \<^verbatim>\<open>double\<close> arithmetic never add up to more than that, however many readings
  are taken.
\<close>
theorem filter_converges:
  assumes "fl_in 0 V_MAX (latestVoltage s)" and "unat m \<le> 3300"
  shows "fl_in 0 V_MAX (latestVoltage (readings m n s)) \<and>
    \<bar>fval (latestVoltage (readings m n s)) - of_nat (unat m) / 1000\<bar> \<le>
      (7 / 10) ^ n * \<bar>fval (latestVoltage s) - of_nat (unat m) / 1000\<bar> + 1 / 500000"
proof (induction n)
  case 0
  then show ?case using assms(1) by (simp add: readings_def)
next
  case (Suc n)
  let ?v = "latestVoltage (readings m n s)" and ?A = "average_of 64 (sample_sum 64 (\<lambda>_. m))"
  let ?c = "of_nat (unat m) / 1000 :: rat"
  have step: "latestVoltage (readings m (Suc n) s) = ema ?v ?A"
    by (simp add: readings_def reading_voltage)
  have A: "fl_in 0 V_MAX ?A" using const_sum [OF assms(2)] assms(2) by (intro average_range) simp
  have v: "fl_in 0 V_MAX ?v" using Suc.IH by blast
  have e1: "\<bar>fval (ema ?v ?A) - ema_spec (fval ?v) (fval ?A)\<bar> \<le> 1 / 4194304"
    using v A by (rule ema_error)
  have e2: "\<bar>fval ?A - ?c\<bar> \<le> 1 / 8388608" using assms(2) by (rule average_const)
  have "\<bar>fval (ema ?v ?A) - ?c\<bar> \<le> 7 / 10 * \<bar>fval ?v - ?c\<bar> + 6 / 10000000"
    using e1 e2 unfolding ema_spec_def by (rule contraction)
  also have "\<dots> \<le> 7 / 10 * ((7 / 10) ^ n * \<bar>fval (latestVoltage s) - ?c\<bar> + 1 / 500000) + 6 / 10000000"
    using Suc.IH by (intro add_right_mono mult_left_mono) simp_all
  also have "\<dots> = (7 / 10) ^ Suc n * \<bar>fval (latestVoltage s) - ?c\<bar> + 1 / 500000"
    by (simp add: algebra_simps)
  finally show ?case using ema_range [OF v A] step by simp
qed

theorem filter_converges_witness:
  "\<bar>fval (latestVoltage (readings 2400 20 demo_device)) - 12 / 5\<bar> \<le> 1 / 1000"
proof -
  have "fl_in 0 V_MAX (latestVoltage demo_device)"
    by (simp add: demo_device_def fl_in_def V_MAX_def)
  from filter_converges [OF this, of 2400 20]
  have "\<bar>fval (latestVoltage (readings 2400 20 demo_device)) - 12 / 5\<bar> \<le> (7 / 10) ^ 20 * (9 / 10) + 1 / 500000"
    by (simp add: demo_device_def)
  also have "\<dots> \<le> 1 / 1000" by (simp add: power_divide)
  finally show ?thesis .
qed

end
