(* ===== verification/Sampling.thy ===== *)
theory Sampling
  imports Settings Voltage_Filter
begin

text \<open>
  From the scan to the voltage, with everything else going on. Once per second \<^verbatim>\<open>scanSensors\<close> starts an
  ADC task, which takes its 64 samples while the main loop, the web server and the callbacks run.
  A \<open>round\<close> is a due scan followed by any actions up to the next due scan, with at least the 65
  steps of the ADC task among them. Over rounds the cached voltage is the EMA filter folded over
  the sample averages, one task is alive at a time, and a tank that stays full is noticed.
\<close>

subsection \<open>One task\<close>

fun samples :: "'j action list \<Rightarrow> 32 word list" where
  "samples [] = []"
| "samples (AdcStep k mv # as) = (if k = 0 then mv # samples as else samples as)"
| "samples (_ # as) = samples as"

fun calm :: "millis_t \<Rightarrow> 'j action \<Rightarrow> bool" where
  "calm stamp (Scan taskOk temp now) = (\<not> SCAN_INTERVAL \<le> now - stamp)"
| "calm stamp (Reboot b) = False"
| "calm stamp _ = True"

text \<open>The task that samples and the voltage it filters into.\<close>

type_synonym sampler = "(nat \<times> 32 word) option \<times> fl"

fun sampler_step :: "32 word \<Rightarrow> sampler \<Rightarrow> sampler" where
  "sampler_step mv (Some (Suc n, acc), v) = (Some (n, acc + mv), v)"
| "sampler_step mv (Some (0, acc), v) = (None, ema v (average_of 64 acc))"
| "sampler_step mv (None, v) = (None, v)"

definition sampler_of :: "('j, 'z) device_state_scheme \<Rightarrow> sampler" where
  "sampler_of s = (case adcTasks s of [] \<Rightarrow> None | t # ts \<Rightarrow> Some t, latestVoltage s)"

definition sensing :: "('j, 'z) device_state_scheme \<Rightarrow> fl \<times> (nat \<times> 32 word) list \<times> millis_t" where
  "sensing s = (latestVoltage s, adcTasks s, scanMillis s)"

interpretation sensing: handler_frame sensing
  by unfold_locales (simp_all add: sensing_def emit_def)

lemma sensing_mqtt: "sensing (MQTTHandler_loop J i s) = sensing s"
  by (simp add: sensing_def MQTTHandler_loop_def MQTTHandler_setup_def setLastWill_def publish_all
      emits_def emit_def Let_def)

lemma sensing_act:
  "calm (scanMillis s) a \<Longrightarrow> \<forall>k mv. a \<noteq> AdcStep k mv \<Longrightarrow> sensing (act J a s) = sensing s"
  by (cases a) (simp_all add: sensing.view_handlers sensing.view_switching sensing_mqtt handleScan_def)

definition single :: "('j, 'z) device_state_scheme \<Rightarrow> bool" where
  "single s \<longleftrightarrow> length (adcTasks s) \<le> 1"

lemma adc_single:
  assumes "single s"
  shows "sampler_of (adcTaskStep k mv s) = (if k = 0 then sampler_step mv (sampler_of s) else sampler_of s)
    \<and> single (adcTaskStep k mv s) \<and> scanMillis (adcTaskStep k mv s) = scanMillis s"
proof (cases "adcTasks s")
  case Nil
  then show ?thesis using assms by (simp add: adcTaskStep_def sampler_of_def)
next
  case (Cons t ts)
  obtain n acc where t: "t = (n, acc)" by (cases t)
  have ts: "ts = []" using assms Cons by (simp add: single_def)
  show ?thesis
    using Cons t ts by (cases n; cases k) (simp_all add: adcTaskStep_def finishReading_def sampler_of_def single_def emit_def)
qed

lemma calm_step:
  assumes "single s" and "calm (scanMillis s) a"
  shows "sampler_of (act J a s) = fold sampler_step (samples [a]) (sampler_of s) \<and> single (act J a s) \<and>
    scanMillis (act J a s) = scanMillis s"
proof (cases "\<exists>k mv. a = AdcStep k mv")
  case True
  then show ?thesis using adc_single [OF assms(1)] by auto
next
  case False
  then have "sensing (act J a s) = sensing s" using sensing_act [OF assms(2)] by blast
  moreover have "samples [a] = []" using False by (cases a) auto
  ultimately show ?thesis using assms(1) by (simp add: sensing_def sampler_of_def single_def)
qed

lemma samples_Cons: "samples (a # as) = samples [a] @ samples as"
  by (cases a) simp_all

lemma calm_run:
  assumes "single s" and "list_all (calm (scanMillis s)) as"
  shows "sampler_of (fold (act J) as s) = fold sampler_step (samples as) (sampler_of s) \<and>
    single (fold (act J) as s) \<and> scanMillis (fold (act J) as s) = scanMillis s"
  using assms
proof (induction as arbitrary: s)
  case (Cons a as)
  have "calm (scanMillis s) a" using Cons.prems(2) by simp
  note step = calm_step [OF Cons.prems(1) this, of J]
  then show ?case
    using Cons.IH [of "act J a s"] Cons.prems(2) by (simp add: samples_Cons [of a as])
qed simp

lemma sampler_done: "fold sampler_step xs (None, v) = (None, v)"
  by (induction xs) simp_all

lemma sampler_run:
  "n < length xs \<Longrightarrow>
    fold sampler_step xs (Some (n, acc), v) = (None, ema v (average_of 64 (acc + sum_list (take n xs))))"
proof (induction n arbitrary: xs acc)
  case 0
  then show ?case by (cases xs) (simp_all add: sampler_done)
next
  case (Suc n)
  then obtain x ys where "xs = x # ys" "n < length ys" by (cases xs) auto
  then show ?case using Suc.IH [of ys "acc + x"] by (simp add: add.assoc)
qed

subsection \<open>Averages\<close>

lemma sum_list_bounds:
  assumes "\<forall>x \<in> set xs. l \<le> unat x \<and> unat x \<le> h" and "length xs \<le> 64" and "h \<le> 3300"
  shows "length xs * l \<le> unat (sum_list xs :: 32 word) \<and> unat (sum_list xs) \<le> length xs * h"
  using assms(1,2)
proof (induction xs)
  case (Cons x xs)
  then have ih: "length xs * l \<le> unat (sum_list xs)" "unat (sum_list xs) \<le> length xs * h" by auto
  moreover have "length xs * h \<le> 63 * 3300" using Cons.prems(2) assms(3) by (intro mult_le_mono) simp_all
  moreover have "l \<le> unat x" "unat x \<le> h" using Cons.prems(1) by auto
  moreover from calculation have "unat (x + sum_list xs) = unat x + unat (sum_list xs)"
    using assms(3) by (intro unat_add_lem [THEN iffD1]) simp
  ultimately show ?case by simp
qed simp

lemma average_val:
  assumes "unat acc \<le> 211200"
  shows "fval (average_of 64 acc) = rnd binary32 (rnd binary32 (of_nat (unat acc) / 64) / 1000)"
proof -
  let ?n = "rat_of_nat (unat acc)"
  have n: "0 \<le> ?n" "?n \<le> 211200"
    using of_nat_mono [OF assms, where 'a = rat] by (simp_all only: of_nat_0_le_iff of_nat_numeral)
  have i: "rnd binary32 ?n = ?n" using rnd32_int [of "int (unat acc)"] assms by (simp del: of_nat_unat)
  have c: "rnd binary32 3300 = 3300" "rnd binary32 (33 / 10) = V_MAX" by code_simp+
  have s: "fl_finite (f32 ?n) \<and> fval (f32 ?n) = ?n"
    using b32.to_fl_fval [of ?n] i n limits(1) by (simp del: of_nat_unat)
  have q: "0 \<le> rnd binary32 (?n / 64)" "rnd binary32 (?n / 64) \<le> 3300"
    using n c(1) rnd_nonneg [of "?n / 64" binary32] rnd_mono [of "?n / 64" 3300 binary32] by (simp_all del: of_nat_unat)
  let ?q = "fl_div binary32 (f32 ?n) (FFin 64)"
  have fq: "fl_finite ?q \<and> fval ?q = rnd binary32 (?n / 64)"
    using b32.fl_div_val [of "f32 ?n" "FFin 64"] s q limits(1) by (simp del: of_nat_unat)
  have r: "0 \<le> rnd binary32 (rnd binary32 (?n / 64) / 1000)"
    "rnd binary32 (rnd binary32 (?n / 64) / 1000) \<le> V_MAX"
    using q c(2) rnd_nonneg [of "rnd binary32 (?n / 64) / 1000" binary32]
      rnd_mono [of "rnd binary32 (?n / 64) / 1000" "33 / 10" binary32] by (simp_all del: of_nat_unat)
  then have "\<bar>rnd binary32 (rnd binary32 (?n / 64) / 1000)\<bar> < fl_limit binary32"
    using limits(1) V_MAX_less by linarith
  then show ?thesis
    using b32.fl_div_val [of ?q "FFin 1000"] fq by (simp add: average_of_def f32_consts del: of_nat_unat)
qed

lemma average_mono:
  assumes "unat a \<le> unat b" and "unat b \<le> 211200"
  shows "fval (average_of 64 a) \<le> fval (average_of 64 b)"
proof -
  have "rat_of_nat (unat a) / 64 \<le> rat_of_nat (unat b) / 64"
    using assms(1) by (intro divide_right_mono of_nat_mono) simp_all
  then have "rnd binary32 (rnd binary32 (rat_of_nat (unat a) / 64) / 1000) \<le>
      rnd binary32 (rnd binary32 (rat_of_nat (unat b) / 64) / 1000)"
    by (intro rnd_mono divide_right_mono) simp_all
  then show ?thesis using average_val [of a] average_val [of b] assms by (simp del: of_nat_unat)
qed

subsection \<open>Rounds\<close>

definition round_ok :: "('j, 'z) device_state_scheme \<Rightarrow> 'j action list \<Rightarrow> bool" where
  "round_ok s r = (case r of
     Scan taskOk temp now # as \<Rightarrow> taskOk \<and> SCAN_INTERVAL \<le> now - scanMillis s \<and>
       list_all (calm now) as \<and> 64 < length (samples as)
   | _ \<Rightarrow> False)"

fun rounds_ok :: "'j json_lib \<Rightarrow> 'j firmware \<Rightarrow> 'j action list list \<Rightarrow> bool" where
  "rounds_ok J s [] = True"
| "rounds_ok J s (r # rs) = (round_ok s r \<and> rounds_ok J (fold (act J) r s) rs)"

definition reading :: "'j action list \<Rightarrow> fl" where
  "reading r = average_of 64 (sum_list (take 64 (samples r)))"

lemma round_okE:
  assumes "round_ok s r"
  obtains temp now as where "r = Scan True temp now # as" "SCAN_INTERVAL \<le> now - scanMillis s"
    "list_all (calm now) as" "64 < length (samples as)"
  using assms by (auto simp: round_ok_def split: list.splits action.splits)

lemma scan_starts:
  assumes "SCAN_INTERVAL \<le> now - scanMillis s" and "adcTasks s = []"
  shows "sampler_of (handleScan True temp now s) = (Some (64, 0), latestVoltage s)"
    "single (handleScan True temp now s)" "scanMillis (handleScan True temp now s) = now"
  using assms by (simp_all add: handleScan_def scanSensors_def sampler_of_def single_def Let_def)

lemma round_effect:
  assumes "round_ok s r" and "adcTasks s = []"
  shows "adcTasks (fold (act J) r s) = [] \<and>
    latestVoltage (fold (act J) r s) = ema (latestVoltage s) (reading r)"
proof -
  obtain temp now as where r: "r = Scan True temp now # as" "SCAN_INTERVAL \<le> now - scanMillis s"
    "list_all (calm now) as" "64 < length (samples as)"
    using assms(1) by (rule round_okE)
  let ?s = "handleScan True temp now s"
  note start = scan_starts [OF r(2) assms(2), of temp]
  have "sampler_of (fold (act J) as ?s) = fold sampler_step (samples as) (sampler_of ?s)"
    using calm_run [OF start(2), of as J] start(3) r(3) by simp
  also have "\<dots> = (None, ema (latestVoltage s) (reading r))"
    using sampler_run [OF r(4), of 0 "latestVoltage s"] start(1) by (simp add: reading_def r(1))
  finally show ?thesis
    by (simp add: r(1) sampler_of_def split: list.splits)
qed

lemma round_prefix:
  assumes "round_ok s r" and "adcTasks s = []"
  shows "length (adcTasks (fold (act J) (take k r) s)) \<le> 1"
proof -
  obtain temp now as where r: "r = Scan True temp now # as" "SCAN_INTERVAL \<le> now - scanMillis s"
    "list_all (calm now) as" "64 < length (samples as)"
    using assms(1) by (rule round_okE)
  note start = scan_starts [OF r(2) assms(2), of temp]
  show ?thesis
  proof (cases k)
    case 0
    then show ?thesis using assms(2) by simp
  next
    case (Suc i)
    have "list_all (calm now) (take i as)" using r(3) by (auto simp: list_all_iff dest: in_set_takeD)
    then have "single (fold (act J) (take i as) (handleScan True temp now s))"
      using calm_run [OF start(2), of "take i as" J] start(3) by simp
    then show ?thesis using Suc by (simp add: r(1) single_def)
  qed
qed

lemma rounds_run:
  assumes "rounds_ok J s rs" and "adcTasks s = []"
  shows "adcTasks (fold (act J) (concat rs) s) = [] \<and>
    latestVoltage (fold (act J) (concat rs) s) = fold (\<lambda>r v. ema v (reading r)) rs (latestVoltage s)"
  using assms
proof (induction rs arbitrary: s)
  case (Cons r rs)
  then show ?case using round_effect [of s r J] Cons.IH [of "fold (act J) r s"] by simp
qed simp

lemma rounds_prefix:
  assumes "rounds_ok J s rs" and "adcTasks s = []"
  shows "length (adcTasks (fold (act J) (take k (concat rs)) s)) \<le> 1"
  using assms
proof (induction rs arbitrary: s k)
  case (Cons r rs)
  show ?case
  proof (cases "k \<le> length r")
    case True
    then show ?thesis using round_prefix [of s r J k] Cons.prems by simp
  next
    case False
    then show ?thesis
      using Cons.IH [of "fold (act J) r s" "k - length r"] round_effect [of s r J] Cons.prems by simp
  qed
qed simp

subsection \<open>Readings within bounds\<close>

text \<open>All samples of the rounds lie between \<open>l\<close> and \<open>h\<close> millivolts.\<close>

definition samples_in :: "32 word \<Rightarrow> 32 word \<Rightarrow> 'j action list list \<Rightarrow> bool" where
  "samples_in l h rs \<longleftrightarrow> (\<forall>r \<in> set rs. \<forall>x \<in> set (samples r). unat l \<le> unat x \<and> unat x \<le> unat h)"

lemma reading_bounds:
  fixes l h :: "32 word"
  assumes "\<forall>x \<in> set (samples r). unat l \<le> unat x \<and> unat x \<le> unat h" and "64 < length (samples r)"
    and "unat h \<le> 3300"
  shows "fl_in 0 V_MAX (reading r)" and "of_nat (unat l) / 1000 - 1 / 8388608 \<le> fval (reading r)"
    and "fval (reading r) \<le> of_nat (unat h) / 1000 + 1 / 8388608"
proof -
  let ?sum = "sum_list (take 64 (samples r))" and ?c = "\<lambda>m. sample_sum 64 (\<lambda>_. m)"
  have s: "64 * unat l \<le> unat ?sum" "unat ?sum \<le> 64 * unat h"
    using sum_list_bounds [of "take 64 (samples r)" "unat l" "unat h"] assms by (auto dest: in_set_takeD)
  then have top: "unat ?sum \<le> 211200" and l: "unat l \<le> 3300" using assms(3) by linarith+
  show "fl_in 0 V_MAX (reading r)" unfolding reading_def by (rule average_range [OF top])
  have "fval (average_of 64 (?c l)) \<le> fval (reading r)" "fval (reading r) \<le> fval (average_of 64 (?c h))"
    unfolding reading_def using const_sum [OF l] const_sum [OF assms(3)] s top assms(3)
    by (intro average_mono; simp)+
  then show "of_nat (unat l) / 1000 - 1 / 8388608 \<le> fval (reading r)"
    "fval (reading r) \<le> of_nat (unat h) / 1000 + 1 / 8388608"
    using average_const [OF l] average_const [OF assms(3)] by linarith+
qed

lemma rounds_length: "rounds_ok J s rs \<Longrightarrow> r \<in> set rs \<Longrightarrow> 64 < length (samples r)"
  by (induction rs arbitrary: s) (auto elim: round_okE)

text \<open>
  One filter step towards a voltage \<open>c\<close>, seen from one side: \<open>e\<close> is 1 for what is missing to \<open>c\<close>, and
  -1 for what exceeds it.
\<close>

lemma side_step:
  assumes "e = 1 \<or> e = - 1" and "fl_in 0 V_MAX v" and "fl_in 0 V_MAX a"
    and "e * (c - fval a) \<le> 1 / 8388608" and "e * (c - fval v) \<le> d"
  shows "e * (c - fval (ema v a)) \<le> 7 / 10 * d + 6 / 10000000"
  using assms(1)
proof
  assume e: "e = 1"
  show ?thesis using ema_error [OF assms(2,3)] assms(4,5) unfolding ema_spec_def e mult_1 mult_minus1 by linarith
next
  assume e: "e = - 1"
  show ?thesis using ema_error [OF assms(2,3)] assms(4,5) unfolding ema_spec_def e mult_1 mult_minus1 by linarith
qed

lemma rounds_voltage:
  assumes "rounds_ok J s rs" and "adcTasks s = []" and "fl_in 0 V_MAX (latestVoltage s)"
    and "e = 1 \<or> e = - 1"
    and "\<forall>r \<in> set rs. fl_in 0 V_MAX (reading r) \<and> e * (c - fval (reading r)) \<le> 1 / 8388608"
    and "e * (c - fval (latestVoltage s)) \<le> d"
  defines "t \<equiv> fold (act J) (concat rs) s"
  shows "fl_in 0 V_MAX (latestVoltage t) \<and>
    e * (c - fval (latestVoltage t)) \<le> (7 / 10) ^ length rs * d + (1 - (7 / 10) ^ length rs) / 500000"
  unfolding t_def using assms(1-3,5,6)
proof (induction rs arbitrary: s d)
  case Nil
  then show ?case by simp
next
  case (Cons r rs)
  let ?s = "fold (act J) r s"
  have r: "round_ok s r" "fl_in 0 V_MAX (reading r)" "e * (c - fval (reading r)) \<le> 1 / 8388608"
    using Cons.prems(1,4) by simp_all
  note eff = round_effect [OF r(1) Cons.prems(2), of J]
  have v: "fl_in 0 V_MAX (latestVoltage ?s)"
    using eff ema_range [OF Cons.prems(3) r(2)] by simp
  have "e * (c - fval (latestVoltage ?s)) \<le> 7 / 10 * d + 6 / 10000000"
    using side_step [OF assms(4) Cons.prems(3) r(2,3) Cons.prems(5)] eff by simp
  then have "fl_in 0 V_MAX (latestVoltage (fold (act J) (concat rs) ?s)) \<and>
      e * (c - fval (latestVoltage (fold (act J) (concat rs) ?s))) \<le>
        (7 / 10) ^ length rs * (7 / 10 * d + 6 / 10000000) + (1 - (7 / 10) ^ length rs) / 500000"
    using Cons.IH [of ?s] Cons.prems(1,4) eff v by simp
  moreover have "p * (7 / 10 * d + 6 / 10000000) + (1 - p) / 500000 = (7 / 10 * p) * d + (1 - 7 / 10 * p) / 500000"
    for p :: rat by (simp add: field_simps)
  ultimately show ?case by (simp only: list.size(4) add_0_right plus_1_eq_Suc add.commute [of _ "Suc 0"]
        One_nat_def power_Suc concat.simps fold_append comp_apply) simp
qed

text \<open>What is left of a deviation of at most 3.3 V after \<open>n\<close> rounds.\<close>

definition memory :: "nat \<Rightarrow> rat" where
  "memory n = (7 / 10) ^ n * (33 / 10) + 1 / 500000"

lemma rounds_settle:
  fixes l h :: "32 word"
  assumes "rounds_ok J s rs" and "adcTasks s = []" and "fl_in 0 V_MAX (latestVoltage s)"
    and "samples_in l h rs" and "unat l \<le> unat h" and "unat h \<le> 3300" and "t = fold (act J) (concat rs) s"
  shows "fl_in 0 V_MAX (latestVoltage t)"
    and "of_nat (unat l) / 1000 - memory (length rs) \<le> fval (latestVoltage t)"
    and "fval (latestVoltage t) \<le> of_nat (unat h) / 1000 + memory (length rs)"
proof -
  have rd: "fl_in 0 V_MAX (reading r)" "1 * (of_nat (unat l) / 1000 - fval (reading r)) \<le> 1 / 8388608"
      "- 1 * (of_nat (unat h) / 1000 - fval (reading r)) \<le> 1 / 8388608" if "r \<in> set rs" for r
    using reading_bounds [of r l h] rounds_length [OF assms(1) that] assms(4,6) that
    by (simp_all add: samples_in_def algebra_simps del: of_nat_unat)
  have l: "0 \<le> rat_of_nat (unat l)" "rat_of_nat (unat l) \<le> 3300" "0 \<le> rat_of_nat (unat h)"
    using assms(5,6) of_nat_mono [of "unat l" 3300, where 'a = rat] by (simp_all del: of_nat_unat)
  have v: "0 \<le> fval (latestVoltage s)" "fval (latestVoltage s) \<le> V_MAX"
    using assms(3) by (simp_all add: fl_in_def)
  have mem: "(7 / 10) ^ n * (33 / 10) + (1 - (7 / 10) ^ n) / 500000 \<le> memory n" for n
    by (simp add: memory_def field_simps)
  note run = rounds_voltage [OF assms(1-3), where d = "33 / 10", folded assms(7)]
  have low: "1 * (of_nat (unat l) / 1000 - fval (latestVoltage s)) \<le> 33 / 10"
    and high: "- 1 * (of_nat (unat h) / 1000 - fval (latestVoltage s)) \<le> 33 / 10"
    using l v by (simp_all add: V_MAX_def del: of_nat_unat)
  from run [of 1 "of_nat (unat l) / 1000"] rd low
  show "fl_in 0 V_MAX (latestVoltage t)" "of_nat (unat l) / 1000 - memory (length rs) \<le> fval (latestVoltage t)"
    using mem [of "length rs"] by force+
  from run [of "- 1" "of_nat (unat h) / 1000"] rd high
  show "fval (latestVoltage t) \<le> of_nat (unat h) / 1000 + memory (length rs)"
    using mem [of "length rs"] by force
qed

subsection \<open>Properties\<close>

text \<open>
  C15: The voltage pipeline. Over any number of rounds, with every other activity of the firmware in
  between, exactly the readings of the ADC tasks reach the cached voltage: it is the EMA filter
  folded over the averages of the first 64 samples of each round. At no point of the run is more
  than one ADC task alive, and none is left at the end of a round.
\<close>
theorem voltage_pipeline:
  assumes "rounds_ok J s rs" and "adcTasks s = []"
  shows "latestVoltage (fold (act J) (concat rs) s) = fold (\<lambda>r v. ema v (reading r)) rs (latestVoltage s) \<and>
    adcTasks (fold (act J) (concat rs) s) = [] \<and>
    length (adcTasks (fold (act J) (take k (concat rs)) s)) \<le> 1"
  using rounds_run [OF assms] rounds_prefix [OF assms] by simp

lemma calm_no_reboot: "calm t a \<Longrightarrow> \<not> is_reboot a"
  by (cases a) simp_all

lemma rounds_no_reboot: "rounds_ok J s rs \<Longrightarrow> list_all (\<lambda>a. \<not> is_reboot a) (concat rs)"
proof (induction rs arbitrary: s)
  case (Cons r rs)
  have "list_all (\<lambda>a. \<not> is_reboot a) r"
    using Cons.prems calm_no_reboot by (fastforce simp: list_all_iff elim!: round_okE)
  then show ?case using Cons.IH [of "fold (act J) r s"] Cons.prems by simp
qed simp

text \<open>A pass of the main loop that finds the voltage at or below the calibrated minimum.\<close>

lemma empty_level:
  assumes "calibrated s" and "fl_in (- 1000000) 1000000 (latestVoltage s)"
    and "fl_le (latestVoltage s) (minV s)"
  shows "\<exists>z. getLevel s = fl_zero z"
proof -
  let ?N = "fl_sub binary32 (latestVoltage s) (minV s)" and ?D = "fl_sub binary32 (maxV s) (minV s)"
  have D: "fl_finite ?D" "0 < fval ?D" using span_positive [OF assms(1)] .
  have N: "fl_finite ?N" "fval ?N = rnd binary32 (fval (latestVoltage s) - fval (minV s))"
    using numerator [OF assms(1,2)] by simp_all
  have "fval (latestVoltage s) \<le> fval (minV s)"
    using assms by (simp add: calibrated_def fl_in_def fl_le_finite)
  then have "fval ?N \<le> fval (FFin 0)" using N rnd_mono [of "fval (latestVoltage s) - fval (minV s)" 0 binary32] by simp
  then have "fl_le (fl_div binary32 ?N ?D) (fl_div binary32 (FFin 0) ?D)"
    using N D by (intro b32.fl_div_pos_mono) simp_all
  moreover have "fl_div binary32 (FFin 0) ?D = FFin 0"
    using D by (cases ?D) (simp_all add: fl_div_def fl_zero_def)
  ultimately have "fl_le (percent_of s) (fl_mul binary32 (FFin 0) (FFin 100))"
    unfolding percent_of_def by (intro b32.fl_mul_pos_mono) simp_all
  then have "fl_le (percent_of s) (FFin 0)" by (simp add: fl_mul_def fl_zero_def)
  then have "fl_le (getLevel s) (FFin 0)"
    using clamp_percent_mono [of "percent_of s" "FFin 0"] by (simp add: getLevel_clamp clamp_percent_def)
  then show ?thesis
    using getLevel_in [of s] by (cases "getLevel s") (auto simp: fl_le_def fl_in_def fl_zero_def)
qed

lemma empty_pass:
  assumes "mode s = 1" and "fl_le (FFin 0) (minL s)" and "calibrated s"
    and "fl_in (- 1000000) 1000000 (latestVoltage s)" and "fl_le (latestVoltage s) (minV s)"
    and "SCAN_INTERVAL \<le> now_scan (dev i) - scanMillis s" and "AUTO_INTERVAL \<le> now_auto i - autoMillis s"
  shows "\<not> getState 2 (main_loop J i s) \<and> \<not> relay_pin 2 (main_loop J i s)"
proof -
  obtain t where t: "main_loop J i s = AutomationHandler_loop (now_auto i) t"
    and set: "auto_settings t = auto_settings s"
    and level: "scanWaterLevel t = roundToTwoDecimals (getLevel s)"
    using pass_level [OF assms(6)] .
  obtain z where "scanWaterLevel t = fl_zero z"
    using level empty_level [OF assms(3-5)] round2_zero by auto
  moreover have m: "mode t = 1" "auto_due (now_auto i) t" "minL t = minL s"
    using set assms(1,7) by (auto simp: auto_settings_def auto_due_def)
  ultimately have "\<not> fl_less (minL t) (scanWaterLevel t)"
    using assms(2) by (cases "minL s") (auto simp: fl_le_def fl_zero_def)
  then show ?thesis
    by (simp add: t loop_mode1 [OF m(2,1)] handlePump_relay getState_def)
qed

text \<open>The settings are the same after the rounds.\<close>

lemma rounds_settings: "rounds_ok J s rs \<Longrightarrow> settings (fold (act J) (concat rs) s) = settings s"
  by (rule settings_run [OF rounds_no_reboot])

text \<open>
  C2: From the tank to the pump. If the sensor delivers at least \<open>m\<close> millivolts for some rounds, and
  \<open>m\<close> exceeds the calibrated maximum by the part of the filter's memory that is left after these
  rounds (3.3 V times 0.7 per round, and two microvolts), then the next pass of the main loop with
  scan and automation due switches the filling relay off, register and pin, for every maximum
  level up to 100 percent, whatever noise is on the samples and whatever the other activities
  did during the rounds.
\<close>
theorem full_tank_detected:
  assumes "mode s = 1 \<or> mode s = 2" and "fl_le (maxL s) (FFin 100)" and "calibrated s"
    and "fl_in 0 V_MAX (latestVoltage s)" and "adcTasks s = []"
    and "rounds_ok J s rs" and "samples_in m 3300 rs" and "unat m \<le> 3300"
    and "fval (maxV s) + memory (length rs) \<le> of_nat (unat m) / 1000"
    and "t = fold (act J) (concat rs) s"
    and "SCAN_INTERVAL \<le> now_scan (dev i) - scanMillis t" and "AUTO_INTERVAL \<le> now_auto i - autoMillis t"
  shows "\<not> getState 1 (main_loop J i t) \<and> \<not> relay_pin 1 (main_loop J i t)"
proof (rule full_pass [OF _ _ _ _ _ assms(11,12)])
  have set: "settings t = settings s" using rounds_settings [OF assms(6)] assms(10) by simp
  then show "mode t = 1 \<or> mode t = 2" "fl_le (maxL t) (FFin 100)" "calibrated t"
    using assms(1-3) by (simp_all add: settings_def calibrated_def)
  note v = rounds_settle [OF assms(6,5,4,7) _ _ assms(10)]
  then show "fl_in (- 1000000) 1000000 (latestVoltage t)" using assms(8) by (simp add: fl_in_def V_MAX_def)
  show "fl_le (maxV t) (latestVoltage t)"
    using v set assms(3,8,9) by (simp add: fl_le_finite fl_in_def calibrated_def settings_def)
qed

text \<open>
  C3: The same for an empty tank. If the sensor delivers at most \<open>m\<close> millivolts for some rounds, and
  \<open>m\<close> lies below the calibrated minimum by the rest of the filter's memory, then the next
  pass with scan and automation due switches the emptying pump off in mode 1, register and pin, for
  every minimum level that is not negative, whatever the other activities did.
\<close>
theorem empty_tank_detected:
  assumes "mode s = 1" and "fl_le (FFin 0) (minL s)" and "calibrated s"
    and "fl_in 0 V_MAX (latestVoltage s)" and "adcTasks s = []"
    and "rounds_ok J s rs" and "samples_in 0 m rs" and "unat m \<le> 3300"
    and "of_nat (unat m) / 1000 + memory (length rs) \<le> fval (minV s)"
    and "t = fold (act J) (concat rs) s"
    and "SCAN_INTERVAL \<le> now_scan (dev i) - scanMillis t" and "AUTO_INTERVAL \<le> now_auto i - autoMillis t"
  shows "\<not> getState 2 (main_loop J i t) \<and> \<not> relay_pin 2 (main_loop J i t)"
proof (rule empty_pass [OF _ _ _ _ _ assms(11,12)])
  have set: "settings t = settings s" using rounds_settings [OF assms(6)] assms(10) by simp
  then show "mode t = 1" "fl_le (FFin 0) (minL t)" "calibrated t"
    using assms(1-3) by (simp_all add: settings_def calibrated_def)
  note v = rounds_settle [OF assms(6,5,4,7) _ assms(8,10)]
  then show "fl_in (- 1000000) 1000000 (latestVoltage t)" by (simp add: fl_in_def V_MAX_def)
  show "fl_le (latestVoltage t) (minV t)"
    using v set assms(3,9) by (simp add: fl_le_finite fl_in_def calibrated_def settings_def)
qed

subsection \<open>Concrete rounds\<close>

definition demo_round :: "32 word \<Rightarrow> millis_t \<Rightarrow> 'j action list" where
  "demo_round m now = Scan True (FFin 40) now # replicate 65 (AdcStep 0 m)"

fun due_chain :: "millis_t \<Rightarrow> millis_t list \<Rightarrow> bool" where
  "due_chain stamp [] = True"
| "due_chain stamp (now # nows) = (SCAN_INTERVAL \<le> now - stamp \<and> due_chain now nows)"

lemma demo_samples: "samples (replicate n (AdcStep 0 m)) = replicate n m"
  "list_all (calm now) (replicate n (AdcStep 0 m))"
  by (induction n) simp_all

lemma demo_round_ok: "round_ok s (demo_round m now) \<longleftrightarrow> SCAN_INTERVAL \<le> now - scanMillis s"
  by (simp add: round_ok_def demo_round_def demo_samples)

lemma demo_round_stamps:
  assumes "SCAN_INTERVAL \<le> now - scanMillis s" and "adcTasks s = []"
  shows "scanMillis (fold (act J) (demo_round m now) s) = now"
    "autoMillis (fold (act J) (demo_round m now) s) = autoMillis s"
proof -
  show "scanMillis (fold (act J) (demo_round m now) s) = now"
    using calm_run [OF scan_starts(2) [OF assms], of "FFin 40" "replicate 65 (AdcStep 0 m)" J]
    by (simp add: scan_starts(3) [OF assms] demo_samples(2) demo_round_def del: fold_replicate)
  have "autoMillis (adcTaskStep k mv s') = autoMillis s'" for k mv and s' :: "'a firmware"
    by (auto simp: adcTaskStep_def finishReading_def emit_def split: prod.splits nat.splits)
  then have "autoMillis (fold (act J) (replicate n (AdcStep 0 m)) s') = autoMillis s'" for n and s' :: "'a firmware"
    by (induction n arbitrary: s') simp_all
  then show "autoMillis (fold (act J) (demo_round m now) s) = autoMillis s"
    by (simp add: demo_round_def handleScan_def scanSensors_def emit_def Let_def)
qed

lemma demo_rounds:
  assumes "due_chain (scanMillis s) nows" and "adcTasks s = []"
    and t_def: "t = fold (act J) (concat (map (demo_round m) nows)) s"
  shows "rounds_ok J s (map (demo_round m) nows)"
    and "scanMillis t = last (scanMillis s # nows)" and "autoMillis t = autoMillis s"
proof -
  have "rounds_ok J s (map (demo_round m) nows) \<and> scanMillis t = last (scanMillis s # nows) \<and>
      autoMillis t = autoMillis s"
    unfolding t_def using assms(1,2)
  proof (induction nows arbitrary: s)
    case (Cons now nows)
    let ?s = "fold (act J) (demo_round m now) s"
    have due: "SCAN_INTERVAL \<le> now - scanMillis s" using Cons.prems(1) by simp
    note st = demo_round_stamps [OF due Cons.prems(2), of J m]
    have "adcTasks ?s = []" using round_effect [of s "demo_round m now" J] due Cons.prems(2) demo_round_ok by blast
    then show ?case using Cons.IH [of ?s] Cons.prems st due by (simp add: demo_round_ok)
  qed simp
  then show "rounds_ok J s (map (demo_round m) nows)"
    and "scanMillis t = last (scanMillis s # nows)" and "autoMillis t = autoMillis s" by simp_all
qed

definition demo_tank :: "jv firmware" where
  "demo_tank = demo_ota\<lparr>relay1 := True\<rparr>"

lemma demo_tank_simps:
  "mode demo_tank = 1" "maxL demo_tank = FFin 90" "scanMillis demo_tank = 0" "autoMillis demo_tank = 0"
  "latestVoltage demo_tank = FFin (3 / 2)" "maxV demo_tank = maxV demo_device" "minV demo_tank = minV demo_device"
  "adcTasks demo_tank = []"
  by (simp_all add: demo_tank_def demo_ota_def demo_mqtt_def demo_wifi_def mqtt_state.defs
      wifi_state.defs auto_state.defs device_state.defs demo_auto_def demo_device_def)

definition demo_pass :: loop_in where
  "demo_pass = \<lparr>dev = \<lparr>now_blink = 5000, now_relais = 5000, now_scan = 5000, now_display = 5000,
       task_ok = True, cpu_temp = FFin 40, wifi_up = True\<rparr>,
     wifi_up1 = True, wifi_up2 = True, loop_ap = demo_ap, now_wifi = 5000,
     mqtt = demo_mqtt_in, loop_wan = True, now_auto = 5000\<rparr>"

definition demo_seconds :: "millis_t list" where
  "demo_seconds = [1000, 2000, 3000, 4000]"

lemma demo_chain: "due_chain (scanMillis demo_tank) demo_seconds"
  by (simp add: demo_tank_simps demo_seconds_def SCAN_INTERVAL_def)

theorem voltage_pipeline_witness:
  "latestVoltage (fold (act (jv_lib ''x'' JNull)) (concat (map (demo_round 3300) demo_seconds)) demo_tank) =
     fold (\<lambda>r v. ema v (reading r)) (map (demo_round 3300) demo_seconds :: jv action list list)
       (latestVoltage demo_tank) \<and>
   adcTasks (fold (act (jv_lib ''x'' JNull)) (concat (map (demo_round 3300) demo_seconds)) demo_tank) = [] \<and>
   length (adcTasks (fold (act (jv_lib ''x'' JNull))
     (take 100 (concat (map (demo_round 3300) demo_seconds))) demo_tank)) \<le> 1"
  by (rule voltage_pipeline) (rule demo_rounds(1) [OF demo_chain _ refl], simp_all add: demo_tank_simps)

theorem full_tank_detected_witness:
  "\<not> getState 1 (main_loop (jv_lib ''x'' JNull) demo_pass
     (fold (act (jv_lib ''x'' JNull)) (concat (map (demo_round 3300) demo_seconds)) demo_tank)) \<and>
   \<not> relay_pin 1 (main_loop (jv_lib ''x'' JNull) demo_pass
     (fold (act (jv_lib ''x'' JNull)) (concat (map (demo_round 3300) demo_seconds)) demo_tank))"
proof -
  let ?rs = "map (demo_round 3300) demo_seconds :: jv action list list"
  note rounds = demo_rounds [OF demo_chain demo_tank_simps(8) refl, where J = "jv_lib ''x'' JNull" and m = 3300]
  have stamps: "scanMillis (fold (act (jv_lib ''x'' JNull)) (concat ?rs) demo_tank) = 4000"
    "autoMillis (fold (act (jv_lib ''x'' JNull)) (concat ?rs) demo_tank) = 0"
    unfolding rounds(2,3) by (simp_all add: demo_seconds_def demo_tank_simps)
  show ?thesis
  proof (rule full_tank_detected [OF _ _ _ _ _ rounds(1), where m = 3300])
    show "calibrated demo_tank"
      using demo_calibrated by (simp add: calibrated_def demo_tank_simps)
    show "samples_in 3300 3300 ?rs"
      by (simp add: samples_in_def demo_seconds_def demo_round_def demo_samples)
    show "fval (maxV demo_tank) + memory (length ?rs) \<le> of_nat (unat (3300 :: 32 word)) / 1000"
      by (simp add: memory_def demo_tank_simps demo_device_def demo_maxV demo_seconds_def power_divide)
  qed (simp_all add: stamps demo_tank_simps demo_pass_def SCAN_INTERVAL_def AUTO_INTERVAL_def fl_le_def fl_in_def V_MAX_def)
qed

text \<open>A sensor of which 4 mA, the voltage of an empty tank, are calibrated as 1 V.\<close>

definition demo_empty :: "jv firmware" where
  "demo_empty = demo_tank\<lparr>minV := FFin 1, relay2 := True\<rparr>"

lemma demo_empty_simps:
  "mode demo_empty = 1" "minL demo_empty = FFin 10" "scanMillis demo_empty = 0" "autoMillis demo_empty = 0"
  "latestVoltage demo_empty = FFin (3 / 2)" "maxV demo_empty = maxV demo_device" "minV demo_empty = FFin 1"
  "adcTasks demo_empty = []"
  by (simp_all add: demo_empty_def demo_tank_def demo_ota_def demo_mqtt_def demo_wifi_def mqtt_state.defs
      wifi_state.defs auto_state.defs device_state.defs demo_auto_def demo_device_def)

lemma demo_empty_calibrated: "calibrated demo_empty"
  using demo_calibrated rnd_consts(5) limits(1)
  by (simp add: calibrated_def demo_empty_simps demo_device_def demo_maxV is_float_def fl_in_def)

theorem empty_tank_detected_witness:
  "\<not> getState 2 (main_loop (jv_lib ''x'' JNull) demo_pass
     (fold (act (jv_lib ''x'' JNull)) (concat (map (demo_round 0) demo_seconds)) demo_empty)) \<and>
   \<not> relay_pin 2 (main_loop (jv_lib ''x'' JNull) demo_pass
     (fold (act (jv_lib ''x'' JNull)) (concat (map (demo_round 0) demo_seconds)) demo_empty))"
proof -
  let ?rs = "map (demo_round 0) demo_seconds :: jv action list list"
  have chain: "due_chain (scanMillis demo_empty) demo_seconds"
    by (simp add: demo_empty_simps demo_seconds_def SCAN_INTERVAL_def)
  note rounds = demo_rounds [OF chain demo_empty_simps(8) refl, where J = "jv_lib ''x'' JNull" and m = 0]
  have stamps: "scanMillis (fold (act (jv_lib ''x'' JNull)) (concat ?rs) demo_empty) = 4000"
    "autoMillis (fold (act (jv_lib ''x'' JNull)) (concat ?rs) demo_empty) = 0"
    unfolding rounds(2,3) by (simp_all add: demo_seconds_def demo_empty_simps)
  show ?thesis
  proof (rule empty_tank_detected [OF _ _ demo_empty_calibrated _ _ rounds(1), where m = 0])
    show "samples_in 0 0 ?rs"
      by (simp add: samples_in_def demo_seconds_def demo_round_def demo_samples)
    show "of_nat (unat (0 :: 32 word)) / 1000 + memory (length ?rs) \<le> fval (minV demo_empty)"
      by (simp add: memory_def demo_empty_simps demo_seconds_def power_divide)
  qed (simp_all add: stamps demo_empty_simps demo_pass_def SCAN_INTERVAL_def AUTO_INTERVAL_def fl_le_def fl_in_def V_MAX_def)
qed

end
