(* ===== verification/Login_Protection.thy ===== *)
theory Login_Protection
  imports Handler_Frames
begin

text \<open>
  What the administrator login protects. \<open>unwinding\<close> is the usual argument for noninterference: if a
  denied action leaves the observed part of the state alone, and every other action takes equal
  observations to equal observations, then a run is observed as if the denied actions had
  never happened. It is interpreted on the firmware: denied are the requests whose credentials
  the server rejects and those for unknown pages, observed is the whole state with every event
  but the two replies such requests get.
\<close>

subsection \<open>Noninterference\<close>

text \<open>The actions of a run that are not denied in the state they arrive in.\<close>

primrec purge :: "('a \<Rightarrow> 's \<Rightarrow> 's) \<Rightarrow> ('s \<Rightarrow> 'a \<Rightarrow> bool) \<Rightarrow> 's \<Rightarrow> 'a list \<Rightarrow> 'a list" where
  "purge stp denied s [] = []"
| "purge stp denied s (a # as) =
     (if denied s a then purge stp denied (stp a s) as else a # purge stp denied (stp a s) as)"

locale unwinding =
  fixes stp :: "'a \<Rightarrow> 's \<Rightarrow> 's" and denied :: "'s \<Rightarrow> 'a \<Rightarrow> bool" and low :: "'s \<Rightarrow> 'o"
  assumes low_denied: "denied s a \<Longrightarrow> low (stp a s) = low s"
    and low_step: "\<not> denied s a \<Longrightarrow> low s = low t \<Longrightarrow> low (stp a s) = low (stp a t)"
begin

lemma purge_run: "low s = low t \<Longrightarrow> low (fold stp as s) = low (fold stp (purge stp denied s as) t)"
proof (induction as arbitrary: s t)
  case (Cons a as)
  show ?case
  proof (cases "denied s a")
    case True
    then have "low (stp a s) = low t" using low_denied Cons.prems by simp
    from Cons.IH [OF this] True show ?thesis by simp
  next
    case False
    from Cons.IH [OF low_step [OF False Cons.prems]] False show ?thesis by simp
  qed
qed simp

end

subsection \<open>Requests that are turned away\<close>

definition login_rejected :: "'j json_lib \<Rightarrow> web_in \<Rightarrow> ('j, 'z) ota_state_scheme \<Rightarrow> bool" where
  "login_rejected J w s \<longleftrightarrow> j_asBool J (j_path J (config s) [''admin'', ''state'']) \<and>
     \<not> authenticate w (j_asCStr J (j_path J (config s) [''admin'', ''user'']))
         (j_asCStr J (j_path J (config s) [''admin'', ''password'']))"

fun turned_away :: "'j json_lib \<Rightarrow> 'j firmware \<Rightarrow> 'j action \<Rightarrow> bool" where
  "turned_away J s (Api w json) = login_rejected J w s"
| "turned_away J s (RootPage w) = login_rejected J w s"
| "turned_away J s NotFound = True"
| "turned_away J s _ = False"

text \<open>Everything there is to see of the device but the replies to such requests.\<close>

definition turn_away :: "event \<Rightarrow> bool" where
  "turn_away e \<longleftrightarrow> e = Http RequestAuthentication \<or> e = Http (Send 404 ''text/plain'' ''Page not found'')"

definition observed :: "'z hw_scheme \<Rightarrow> 'z hw_scheme" where
  "observed s = s\<lparr>evlog := filter (\<lambda>e. \<not> turn_away e) (evlog s)\<rparr>"

lemma observed_fields:
  "mounted (observed f) = mounted f" "fs (observed f) = fs f" "config (observed f) = config f"
  "previousMillis (observed d) = previousMillis d" "scanMillis (observed d) = scanMillis d"
  "displayMillis (observed d) = displayMillis d" "ch1 (observed d) = ch1 d"
  "ch2 (observed d) = ch2 d" "relay1 (observed d) = relay1 d" "relay2 (observed d) = relay2 d"
  "ledState (observed d) = ledState d" "latestVoltage (observed d) = latestVoltage d"
  "systemLed (observed d) = systemLed d" "maxV (observed d) = maxV d" "minV (observed d) = minV d"
  "tankVolume (observed d) = tankVolume d" "scanCurrent (observed d) = scanCurrent d"
  "scanTemperature (observed d) = scanTemperature d"
  "scanWaterLevel (observed d) = scanWaterLevel d"
  "scanWaterVolume (observed d) = scanWaterVolume d"
  "displayEnabled (observed d) = displayEnabled d" "adcTasks (observed d) = adcTasks d"
  "mode (observed a) = mode a" "maxL (observed a) = maxL a" "minL (observed a) = minL a"
  "fillL (observed a) = fillL a" "fillM (observed a) = fillM a" "pumpM (observed a) = pumpM a"
  "autoMillis (observed a) = autoMillis a"
  "connectionStartTime (observed w) = connectionStartTime w"
  "lastReconnectAttempt (observed w) = lastReconnectAttempt w"
  "apStarted (observed w) = apStarted w" "isEnabled (observed m) = isEnabled m"
  "previousMillisMQTT (observed m) = previousMillisMQTT m"
  "reconnectMQTT (observed m) = reconnectMQTT m" "otaEnabled (observed s) = otaEnabled s"
  by (simp_all add: observed_def)

lemma observed_updates:
  "(observed f)\<lparr>mounted := x0\<rparr> = observed (f\<lparr>mounted := x0\<rparr>)"
  "(observed f)\<lparr>fs := x1\<rparr> = observed (f\<lparr>fs := x1\<rparr>)"
  "(observed f)\<lparr>config := x2\<rparr> = observed (f\<lparr>config := x2\<rparr>)"
  "(observed d)\<lparr>previousMillis := x3\<rparr> = observed (d\<lparr>previousMillis := x3\<rparr>)"
  "(observed d)\<lparr>scanMillis := x4\<rparr> = observed (d\<lparr>scanMillis := x4\<rparr>)"
  "(observed d)\<lparr>displayMillis := x5\<rparr> = observed (d\<lparr>displayMillis := x5\<rparr>)"
  "(observed d)\<lparr>ch1 := x6\<rparr> = observed (d\<lparr>ch1 := x6\<rparr>)"
  "(observed d)\<lparr>ch2 := x7\<rparr> = observed (d\<lparr>ch2 := x7\<rparr>)"
  "(observed d)\<lparr>relay1 := x8\<rparr> = observed (d\<lparr>relay1 := x8\<rparr>)"
  "(observed d)\<lparr>relay2 := x9\<rparr> = observed (d\<lparr>relay2 := x9\<rparr>)"
  "(observed d)\<lparr>ledState := x10\<rparr> = observed (d\<lparr>ledState := x10\<rparr>)"
  "(observed d)\<lparr>latestVoltage := x11\<rparr> = observed (d\<lparr>latestVoltage := x11\<rparr>)"
  "(observed d)\<lparr>systemLed := x12\<rparr> = observed (d\<lparr>systemLed := x12\<rparr>)"
  "(observed d)\<lparr>maxV := x13\<rparr> = observed (d\<lparr>maxV := x13\<rparr>)"
  "(observed d)\<lparr>minV := x14\<rparr> = observed (d\<lparr>minV := x14\<rparr>)"
  "(observed d)\<lparr>tankVolume := x15\<rparr> = observed (d\<lparr>tankVolume := x15\<rparr>)"
  "(observed d)\<lparr>scanCurrent := x16\<rparr> = observed (d\<lparr>scanCurrent := x16\<rparr>)"
  "(observed d)\<lparr>scanTemperature := x17\<rparr> = observed (d\<lparr>scanTemperature := x17\<rparr>)"
  "(observed d)\<lparr>scanWaterLevel := x18\<rparr> = observed (d\<lparr>scanWaterLevel := x18\<rparr>)"
  "(observed d)\<lparr>scanWaterVolume := x19\<rparr> = observed (d\<lparr>scanWaterVolume := x19\<rparr>)"
  "(observed d)\<lparr>displayEnabled := x20\<rparr> = observed (d\<lparr>displayEnabled := x20\<rparr>)"
  "(observed d)\<lparr>adcTasks := x21\<rparr> = observed (d\<lparr>adcTasks := x21\<rparr>)"
  "(observed a)\<lparr>mode := x22\<rparr> = observed (a\<lparr>mode := x22\<rparr>)"
  "(observed a)\<lparr>maxL := x23\<rparr> = observed (a\<lparr>maxL := x23\<rparr>)"
  "(observed a)\<lparr>minL := x24\<rparr> = observed (a\<lparr>minL := x24\<rparr>)"
  "(observed a)\<lparr>fillL := x25\<rparr> = observed (a\<lparr>fillL := x25\<rparr>)"
  "(observed a)\<lparr>fillM := x26\<rparr> = observed (a\<lparr>fillM := x26\<rparr>)"
  "(observed a)\<lparr>pumpM := x27\<rparr> = observed (a\<lparr>pumpM := x27\<rparr>)"
  "(observed a)\<lparr>autoMillis := x28\<rparr> = observed (a\<lparr>autoMillis := x28\<rparr>)"
  "(observed w)\<lparr>connectionStartTime := x29\<rparr> = observed (w\<lparr>connectionStartTime := x29\<rparr>)"
  "(observed w)\<lparr>lastReconnectAttempt := x30\<rparr> = observed (w\<lparr>lastReconnectAttempt := x30\<rparr>)"
  "(observed w)\<lparr>apStarted := x31\<rparr> = observed (w\<lparr>apStarted := x31\<rparr>)"
  "(observed m)\<lparr>isEnabled := x32\<rparr> = observed (m\<lparr>isEnabled := x32\<rparr>)"
  "(observed m)\<lparr>previousMillisMQTT := x33\<rparr> = observed (m\<lparr>previousMillisMQTT := x33\<rparr>)"
  "(observed m)\<lparr>reconnectMQTT := x34\<rparr> = observed (m\<lparr>reconnectMQTT := x34\<rparr>)"
  "(observed s)\<lparr>otaEnabled := x35\<rparr> = observed (s\<lparr>otaEnabled := x35\<rparr>)"
  by (simp_all add: observed_def)

lemma observed_if: "observed (if b then s else t) = (if b then observed s else observed t)"
  by simp

lemma observed_emit: "\<not> turn_away e \<Longrightarrow> emit e (observed s) = observed (emit e s)"
  by (simp add: observed_def emit_def)

lemma observed_emits: "list_all (\<lambda>e. \<not> turn_away e) es \<Longrightarrow> emits es (observed s) = observed (emits es s)"
  by (simp add: observed_def emits_def list_all_iff)

lemmas observed_laws = observed_fields observed_updates observed_if observed_emit observed_emits turn_away_def

subsection \<open>Every other handler is blind to such replies\<close>

lemma observed_storage:
  "saveFile r p str (observed s) = observed (saveFile r p str s)"
  "saveConfig j (observed s) = observed (saveConfig j s)"
  "FileHandler_begin b (observed s) = observed (FileHandler_begin b s)"
  "readFile p (observed s) = map_prod id observed (readFile p s)"
  "fs_exists (observed s) p = fs_exists s p" "getConfig (observed s) = getConfig s"
  by (auto simp: saveFile_def saveConfig_def FileHandler_begin_def readFile_def fs_open_def fs_exists_def
      getConfig_def observed_laws split: option.splits)

lemma observed_copy: "copyFile r p q (observed s) = map_prod id observed (copyFile r p q s)"
  by (simp add: copyFile_def observed_laws observed_storage case_prod_unfold Let_def)

lemma observed_reset: "FileHandler_reset r (observed s) = observed (FileHandler_reset r s)"
  by (simp add: FileHandler_reset_def observed_copy)

lemma observed_load: "snd (loadConfig J r (observed s)) = observed (snd (loadConfig J r s))"
  by (simp add: loadConfig_def observed_laws observed_storage observed_copy case_prod_unfold Let_def)

lemma observed_relais:
  "setRelais x c b (observed s) = observed (setRelais x c b s)"
  "setRelaisDuration v ch d now (observed s) = observed (setRelaisDuration v ch d now s)"
  by (simp_all add: setRelais_def setRelaisDuration_def observed_laws Let_def)

lemma observed_getters:
  "getState i (observed s) = getState i s" "getDuration i m n (observed s) = getDuration i m n s"
  "getLevelCached (observed s) = getLevelCached s" "getADCValueCached (observed s) = getADCValueCached s"
  "getVolumeCached (observed s) = getVolumeCached s" "getCurrentCached (observed s) = getCurrentCached s"
  "getCPUTemperatureCached (observed s) = getCPUTemperatureCached s"
  "getLevel (observed s) = getLevel s" "getVolume (observed s) = getVolume s"
  "fst (getCurrent False mv (observed s)) = fst (getCurrent False mv s)"
  by (simp_all add: getState_def getDuration_def getLevelCached_def getADCValueCached_def getVolumeCached_def
      getCurrentCached_def getCPUTemperatureCached_def getLevel_def getVolume_def getCurrent_def observed_fields)

lemma observed_display:
  "updateDisplay up (observed s) = observed (updateDisplay up s)"
  "setupDisplay J ok (observed s) = observed (setupDisplay J ok s)"
  by (simp_all add: updateDisplay_def setupDisplay_def setBrightness_def observed_laws observed_getters
      observed_storage Let_def)

lemma observed_device:
  "handleBlink now (observed s) = observed (handleBlink now s)"
  "handleRelais now (observed s) = observed (handleRelais now s)"
  "handleScan ok temp now (observed s) = observed (handleScan ok temp now s)"
  "handleDisplay up now (observed s) = observed (handleDisplay up now s)"
  by (simp_all add: handleBlink_def handleRelais_def handleScan_def scanSensors_def handleDisplay_def
      observed_laws observed_relais observed_getters observed_display Let_def)

lemma observed_adc: "adcTaskStep k mv (observed s) = observed (adcTaskStep k mv s)"
  by (auto simp: adcTaskStep_def finishReading_def observed_laws split: prod.splits nat.splits)

lemma observed_automation: "AutomationHandler_loop now (observed s) = observed (AutomationHandler_loop now s)"
  by (simp add: AutomationHandler_loop_def handleFill_def handlePump_def setFill_def setPump_def
      observed_laws observed_relais observed_getters Let_def)

lemma observed_wifi:
  "WiFiHandler_setup J ok ip now (observed s) = observed (WiFiHandler_setup J ok ip now s)"
  "WiFiHandler_loop J u1 u2 ip now (observed s) = observed (WiFiHandler_loop J u1 u2 ip now s)"
  by (simp_all add: WiFiHandler_setup_def WiFiHandler_loop_def checkConnection_def startAP_def stopAP_def
      isWiFiClientUsable_def observed_laws observed_storage Let_def)

lemma observed_publish:
  "fold (\<lambda>(topic, payload). publish topic payload) ps (observed s) =
     observed (fold (\<lambda>(topic, payload). publish topic payload) ps s)"
  by (induction ps arbitrary: s) (auto simp: publish_def observed_laws)

lemma observed_mqtt_setup: "MQTTHandler_setup J now (observed s) = observed (MQTTHandler_setup J now s)"
  by (simp add: MQTTHandler_setup_def setLastWill_def observed_laws observed_storage Let_def)

lemma observed_telemetry: "telemetry i (observed s) = telemetry i s"
  by (simp add: telemetry_def observed_getters isFilling_def isPumping_def getMode_def observed_fields)

lemma observed_mqtt:
  "MQTTHandler_loop J i (observed s) = observed (MQTTHandler_loop J i s)"
  "mqtt_onConnect b (observed s) = observed (mqtt_onConnect b s)"
  "mqtt_onDisconnect r (observed s) = observed (mqtt_onDisconnect r s)"
  by (simp_all add: MQTTHandler_loop_def mqtt_onConnect_def mqtt_onDisconnect_def publish_def observed_laws
      observed_telemetry observed_publish observed_mqtt_setup Let_def del: fold_simps)

lemma observed_ota:
  "OTAHandler_setup J (observed s) = observed (OTAHandler_setup J s)"
  "OTAHandler_loop up (observed s) = observed (OTAHandler_loop up s)"
  "ota_onProgress p n (observed s) = observed (ota_onProgress p n s)"
  "ota_onStart (observed s) = observed (ota_onStart s)" "ota_onEnd (observed s) = observed (ota_onEnd s)"
  by (simp_all add: OTAHandler_setup_def OTAHandler_loop_def ota_onProgress_def ota_onStart_def ota_onEnd_def
      observed_laws observed_storage Let_def)

lemma authorised_login: "authorised J w s = (\<not> login_rejected J w s)"
  by (simp add: authorised_def needAuth_def login_rejected_def getConfig_def Let_def)

lemma observed_authorised: "authorised J w (observed s) = authorised J w s"
  by (simp add: authorised_login login_rejected_def observed_fields)

lemma observed_docs:
  "status_doc J w (observed s) = status_doc J w s" "info_doc J u (observed s) = info_doc J u s"
  by (simp_all only: status_doc_def info_doc_def observed_getters observed_storage)

lemma observed_answers:
  "sendResponse i str (observed s) = observed (sendResponse i str s)"
  "sendOK (observed s) = observed (sendOK s)" "sendInvalid (observed s) = observed (sendInvalid s)"
  "hasUpdate up chk (observed s) = map_prod id observed (hasUpdate up chk s)"
  "OTAHandler_update (observed s) = observed (OTAHandler_update s)"
  by (simp_all add: sendOK_def sendInvalid_def sendResponse_def hasUpdate_def OTAHandler_update_def observed_laws)

lemma observed_call: "handleAPICall J w json (observed s) = observed (handleAPICall J w json s)"
  by (simp add: handleAPICall_def observed_answers observed_if [symmetric] observed_emit observed_emits turn_away_def
      observed_relais observed_docs observed_storage observed_reset case_prod_unfold Let_def cong: if_cong split del: if_split)

lemma observed_web:
  "authorised J w s \<Longrightarrow> web_api J w json (observed s) = observed (web_api J w json s)"
  "authorised J w s \<Longrightarrow> web_root J w (observed s) = observed (web_root J w s)"
  by (simp_all add: web_api_def web_root_def needAuth_cases observed_authorised checkRequest_def sendResponse_def
      observed_call observed_laws observed_storage Let_def)

lemma observed_setups:
  "DeviceHandler_setup J pin rw ok (observed d) = observed (DeviceHandler_setup J pin rw ok d)"
  "AutomationHandler_setup J (observed a) = observed (AutomationHandler_setup J a)"
  "WebHandler_setup (observed s) = observed (WebHandler_setup s)"
  by (simp_all add: DeviceHandler_setup_def AutomationHandler_setup_def WebHandler_setup_def observed_laws
      observed_storage observed_reset observed_display Let_def)

lemma observed_boot:
  "main_setup J b (observed s) = observed (main_setup J b s)"
  "power_on J (observed s) = observed (power_on J s)"
  by (simp add: main_setup_def observed_laws observed_storage observed_load observed_setups observed_wifi
      observed_ota observed_mqtt_setup Let_def)
    (simp add: power_on_def observed_def turn_away_def)

lemma observed_act: "\<not> turned_away J s a \<Longrightarrow> act J a (observed s) = observed (act J a s)"
  by (cases a) (simp_all add: observed_device observed_adc observed_automation observed_wifi observed_mqtt
      observed_ota observed_web authorised_login observed_boot)

lemma turned_away_observed: "turned_away J (observed s) a = turned_away J s a"
  by (cases a) (simp_all add: login_rejected_def observed_fields)

lemma turned_away_silent: "turned_away J s a \<Longrightarrow> observed (act J a s) = observed s"
  by (cases a) (simp_all add: web_api_def web_root_def web_notFound_def needAuth_cases authorised_login
      observed_def emit_def turn_away_def)

interpretation login: unwinding "act J" "turned_away J" observed
proof
  fix s t :: "'a firmware" and a
  assume "\<not> turned_away J s a" and eq: "observed s = observed t"
  moreover from this have "\<not> turned_away J t a" using turned_away_observed [of J _ a] by metis
  ultimately show "observed (act J a s) = observed (act J a t)" using observed_act [of J _ a] by metis
qed (rule turned_away_silent)

lemma pin_observed: "pin_level p (observed s) = pin_level p s"
proof -
  have "pin_after p b (filter (\<lambda>e. \<not> turn_away e) es) = pin_after p b es" for b es
    by (induction p b es rule: pin_after.induct) (simp_all add: turn_away_def)
  then show ?thesis by (simp add: pin_level_def observed_def)
qed

text \<open>
  C9: Requests without valid credentials do not matter. Over every sequence of actions (requests,
  handler calls, callbacks, ADC samples and restarts in any order) the device ends in the same
  state, with the same files, the same relay levels and the same events but for the
  replies to the requests that were turned away, as it does in the sequence without those requests.
\<close>
theorem login_noninterference:
  "observed (fold (act J) as s) = observed (fold (act J) (purge (act J) (turned_away J) s as) s) \<and>
   pin_level p (fold (act J) as s) = pin_level p (fold (act J) (purge (act J) (turned_away J) s as) s)"
  using login.purge_run [of s s J as] pin_observed [of p] by metis

end
