(* ===== verification/Config_Safety.thy ===== *)
theory Config_Safety
  imports Login_Protection Settings
begin

text \<open>
  The configuration file over the life of the device: which actions can write it, what a boot
  finds after a factory reset, and what a boot does when the storage has nothing to offer.
\<close>

subsection \<open>Files across a restart\<close>

lemma setup_fs [simp]:
  "fs (WebHandler_setup t) = fs t" "fs (OTAHandler_setup J t) = fs t"
  "fs (AutomationHandler_setup J u) = fs u" "fs (MQTTHandler_setup J now v) = fs v"
  "fs (WiFiHandler_setup J ok ip now w) = fs w"
  by (simp_all add: WebHandler_setup_def OTAHandler_setup_def AutomationHandler_setup_def
      MQTTHandler_setup_def setLastWill_def WiFiHandler_setup_def startAP_def Let_def)

lemma device_setup_fs [simp]:
  "fs (DeviceHandler_setup J pin rw ok s) = (if pin \<and> mounted s \<and> rw \<noteq> OpenFails
     then (fs s)(''/config.json'' \<mapsto> written rw (fst (readFile ''/config.json.bak'' s) @ crlf)) else fs s)"
  by (simp add: DeviceHandler_setup_def setupDisplay_def setBrightness_def FileHandler_reset_def
      copyFile_def saveFile_def readFile_def fs_open_def Let_def case_prod_unfold split: option.splits)

lemma loadConfig_fs:
  "p \<noteq> ''/config.json'' \<Longrightarrow> fs (snd (loadConfig J r s)) p = fs s p"
  "mounted (snd (loadConfig J r s)) = mounted s"
  by (simp_all add: loadConfig_def copyFile_def saveFile_def Let_def case_prod_unfold)

lemma reset_boot_fs:
  assumes "mount_ok b" and "reset_pin b" and "reset_write b = WriteAll" and "fs s ''/config.json.bak'' = Some backup"
  shows "fs (main_setup J b s) ''/config.json'' = Some (backup @ crlf)"
  using assms
  by (simp add: main_setup_def readFile_def fs_open_def loadConfig_fs Let_def)

lemma reboot_config:
  assumes "mount_ok b" and "fs s ''/config.json'' = Some str"
  shows "config (main_setup J b (power_on J s)) = snd (j_parse J str)"
  using assms by (simp add: main_setup_config loadConfig_existing)

subsection \<open>Who writes the configuration\<close>

fun may_write :: "'j json_lib \<Rightarrow> 'j firmware \<Rightarrow> 'j action \<Rightarrow> bool" where
  "may_write J s (Reboot b) = True"
| "may_write J s (Api w json) =
     (authorised J w s \<and> j_isString J (j_get J json ''type'') \<and>
      (request_type J json = ''save'' \<and> j_isObject J (j_get J json ''config'') \<or>
       request_type J json = ''reset''))"
| "may_write J s _ = False"

definition storage_of :: "('j, 'z) file_state_scheme \<Rightarrow> bool \<times> (string \<rightharpoonup> string) \<times> 'j" where
  "storage_of s = (mounted s, fs s, config s)"

lemma stored_emit: "storage_of (emit e s) = storage_of s" "storage_of (emits es s) = storage_of s"
  by (simp_all add: storage_of_def emits_def)

lemma stored_relais:
  "storage_of (setRelais x c b s) = storage_of s" "storage_of (setRelaisDuration v ch d now s) = storage_of s"
  by (simp_all add: storage_of_def setRelaisDuration_def Let_def)

lemma stored_device:
  "storage_of (handleBlink now s) = storage_of s" "storage_of (handleRelais now s) = storage_of s"
  "storage_of (handleScan ok temp now s) = storage_of s" "storage_of (handleDisplay up now s) = storage_of s"
  "storage_of (adcTaskStep k mv s) = storage_of s" "storage_of (AutomationHandler_loop now u) = storage_of u"
proof -
  show "storage_of (adcTaskStep k mv s) = storage_of s"
    by (auto simp: adcTaskStep_def finishReading_def storage_of_def split: prod.splits nat.splits)
qed (simp_all add: handleBlink_def handleRelais_def handleScan_def scanSensors_def handleDisplay_def
    updateDisplay_def AutomationHandler_loop_def handleFill_def handlePump_def setFill_def setPump_def
    storage_of_def Let_def)

lemma stored_network:
  "storage_of (WiFiHandler_loop J u1 u2 ip now t) = storage_of t" "storage_of (MQTTHandler_loop J i m) = storage_of m"
  "storage_of (mqtt_onConnect c m) = storage_of m" "storage_of (mqtt_onDisconnect r m) = storage_of m"
  "storage_of (OTAHandler_loop up s) = storage_of s" "storage_of (ota_onProgress p n s) = storage_of s"
  "storage_of (ota_onStart s) = storage_of s" "storage_of (ota_onEnd s) = storage_of s"
  "storage_of (web_root J w s) = storage_of s" "storage_of (web_notFound s) = storage_of s"
proof -
  show "storage_of (MQTTHandler_loop J i m) = storage_of m"
    by (simp add: MQTTHandler_loop_def MQTTHandler_setup_def setLastWill_def publish_all storage_of_def Let_def)
qed (simp_all add: WiFiHandler_loop_def checkConnection_def startAP_def stopAP_def mqtt_onConnect_def
    mqtt_onDisconnect_def publish_def OTAHandler_loop_def ota_onProgress_def ota_onStart_def ota_onEnd_def
    web_root_def needAuth_cases web_notFound_def storage_of_def Let_def)

lemma stored_api:
  "\<not> may_write J s (Api w json) \<Longrightarrow> storage_of (web_api J w json s) = storage_of s"
  by (auto simp: web_api_def needAuth_cases checkRequest_def request_type_def api_defs stored_emit
      stored_relais case_prod_unfold Let_def)

lemma stored_act: "\<not> may_write J s a \<Longrightarrow> storage_of (act J a s) = storage_of s"
  by (cases a) (simp_all add: stored_device stored_network stored_api del: may_write.simps(2))

lemma api_other_files:
  "p \<noteq> ''/config.json'' \<Longrightarrow> fs (web_api J w json s) p = fs s p"
  by (simp add: web_api_def needAuth_cases checkRequest_def api_defs saveFile_def saveConfig_def
      FileHandler_reset_def copyFile_def setRelaisDuration_def case_prod_unfold Let_def)

lemma boot_other_files:
  "p \<noteq> ''/config.json'' \<Longrightarrow>
    fs (main_setup J b (power_on J s)) p = (if mount b = Formatted then None else fs s p)"
  by (simp add: main_setup_def loadConfig_fs FileHandler_begin_def power_on_def Let_def)

lemma act_other_files:
  assumes "p \<noteq> ''/config.json''"
  shows "fs (act J a s) p = fs s p \<or> fs (act J a s) p = None"
proof (cases "may_write J s a")
  case True
  then show ?thesis using assms by (cases a) (simp_all add: api_other_files boot_other_files)
next
  case False
  then show ?thesis using stored_act [of J s a] by (simp add: storage_of_def)
qed

lemma run_other_files:
  assumes "p \<noteq> ''/config.json''"
  shows "fs (fold (act J) as s) p = fs s p \<or> fs (fold (act J) as s) p = None"
proof (induction as arbitrary: s)
  case (Cons a as)
  show ?case using Cons [of "act J a s"] act_other_files [OF assms, of J a s] by auto
qed simp

text \<open>The actions that write depend on nothing but what is stored.\<close>

lemma stored_cong:
  assumes "storage_of s = storage_of t"
  shows "storage_of (saveFile r p str s) = storage_of (saveFile r p str t)" "storage_of (saveConfig j s) = storage_of (saveConfig j t)"
    "fst (readFile p s) = fst (readFile p t)" "storage_of (snd (readFile p s)) = storage_of (snd (readFile p t))"
    "storage_of (FileHandler_begin m s) = storage_of (FileHandler_begin m t)"
  using assms by (auto simp: storage_of_def saveFile_def saveConfig_def readFile_def fs_open_def FileHandler_begin_def
      split: option.splits)

lemma stored_copy_cong:
  "storage_of s = storage_of t \<Longrightarrow> storage_of (snd (copyFile r p q s)) = storage_of (snd (copyFile r p q t))"
  by (simp add: copyFile_def case_prod_unfold Let_def stored_emit) (metis stored_cong(1,3,4))

lemma stored_config: "storage_of (s\<lparr>config := j\<rparr>) = (fst (storage_of s), fst (snd (storage_of s)), j)"
  by (simp add: storage_of_def)

lemma stored_load_cong:
  assumes "storage_of s = storage_of t"
  shows "storage_of (snd (loadConfig J r s)) = storage_of (snd (loadConfig J r t))"
proof -
  let ?copy = "\<lambda>s. if \<not> fs_exists s ''/config.json''
    then snd (copyFile r ''/config.json.bak'' ''/config.json'' s) else s"
  have "fs_exists s ''/config.json'' = fs_exists t ''/config.json''"
    using assms by (simp add: fs_exists_def storage_of_def)
  then have eq: "storage_of (?copy s) = storage_of (?copy t)"
    using assms stored_copy_cong [OF assms] by simp
  show ?thesis
    using stored_cong(3,4) [OF eq, of "''/config.json''"]
    by (simp only: loadConfig_def case_prod_unfold Let_def snd_conv stored_config)
qed

lemma mounted_setups [simp]:
  "mounted (DeviceHandler_setup J pin rw ok d) = mounted d" "mounted (AutomationHandler_setup J a) = mounted a"
  "mounted (WiFiHandler_setup J sta ip now t) = mounted t" "mounted (MQTTHandler_setup J now m) = mounted m"
  "mounted (OTAHandler_setup J s) = mounted s" "mounted (WebHandler_setup s) = mounted s"
  by (simp_all add: DeviceHandler_setup_def setupDisplay_def setBrightness_def FileHandler_reset_def
      AutomationHandler_setup_def WiFiHandler_setup_def startAP_def MQTTHandler_setup_def setLastWill_def
      OTAHandler_setup_def WebHandler_setup_def Let_def)

lemma stored_device_setup_cong:
  assumes "storage_of s = storage_of t"
  shows "storage_of (DeviceHandler_setup J pin rw ok s) = storage_of (DeviceHandler_setup J pin rw ok t)"
proof -
  have "storage_of (DeviceHandler_setup J pin rw ok u) = (mounted u, (if pin \<and> mounted u \<and> rw \<noteq> OpenFails
     then (fs u)(''/config.json'' \<mapsto> written rw (fst (readFile ''/config.json.bak'' u) @ crlf)) else fs u), config u)"
    for u :: "('a, 'b) device_state_scheme" by (simp only: storage_of_def device_setup_fs mounted_setups device_setup_config)
  then show ?thesis using assms stored_cong(3) [OF assms, of "''/config.json.bak''"] by (simp add: storage_of_def)
qed

lemma stored_boot_cong:
  assumes "fs s = fs t"
  shows "storage_of (main_setup J b (power_on J s)) = storage_of (main_setup J b (power_on J t))"
proof -
  let ?load = "\<lambda>s. snd (loadConfig J (config_write b) (FileHandler_begin (mount b) (serial_up (power_on J s))))"
  have "storage_of (serial_up (power_on J s)) = storage_of (serial_up (power_on J t))"
    using assms by (simp add: storage_of_def power_on_def)
  then have eq: "storage_of (?load s) = storage_of (?load t)" by (intro stored_load_cong stored_cong(5))
  have boot: "storage_of (main_setup J b (power_on J u)) = storage_of (DeviceHandler_setup J (reset_pin b) (reset_write b) (display_ok b) (?load u))"
    for u by (simp add: main_setup_def storage_of_def Let_def)
  show ?thesis unfolding boot by (rule stored_device_setup_cong [OF eq])
qed

text \<open>The two requests that write, as their calls.\<close>

lemma api_save:
  assumes "authorised J w s" and "j_isString J (j_get J json ''type'')" and "request_type J json = ''save''"
    and "j_isObject J (j_get J json ''config'')"
  shows "web_api J w json s = sendOK (saveConfig (j_get J json ''config'')
    (saveFile (file_write w) ''/config.json'' (j_print J (j_get J json ''config''))
      (emit (SerialOut [Text ''API Call: '', Text ''save'']) s)))"
  using assms
  by (simp add: web_api_def needAuth_cases checkRequest_def handleAPICall_def request_type_def Let_def)

lemma api_reset:
  assumes "authorised J w s" and "j_isString J (j_get J json ''type'')" and "request_type J json = ''reset''"
  shows "web_api J w json s = emits [DelayMs 1000, Restart]
    (FileHandler_reset (file_write w) (sendOK (emit (SerialOut [Text ''API Call: '', Text ''reset'']) s)))"
  using assms
  by (simp add: web_api_def needAuth_cases checkRequest_def handleAPICall_def request_type_def Let_def)

lemma stored_api_cong:
  assumes "storage_of s = storage_of t" and "may_write J s (Api w json)"
  shows "storage_of (web_api J w json s) = storage_of (web_api J w json t)"
proof -
  have ok: "authorised J w s" "authorised J w t" "j_isString J (j_get J json ''type'')"
    using assms by (auto simp: authorised_login login_rejected_def storage_of_def)
  have "storage_of (emit e s) = storage_of (emit e t)" "storage_of (sendOK (emit e s)) = storage_of (sendOK (emit e t))" for e
    using assms(1) by (simp_all add: stored_emit sendOK_def sendResponse_def)
  note same = this
  show ?thesis
  proof (cases "request_type J json = ''reset''")
    case True
    then show ?thesis using stored_copy_cong [OF same(2)]
      by (simp add: api_reset ok stored_emit FileHandler_reset_def)
  next
    case False
    with assms(2) have "request_type J json = ''save''" "j_isObject J (j_get J json ''config'')" by auto
    then show ?thesis using stored_cong(2) [OF stored_cong(1) [OF same(1)]]
      by (simp add: api_save ok sendOK_def sendResponse_def stored_emit)
  qed
qed

lemma stored_write_cong:
  "may_write J s a \<Longrightarrow> storage_of s = storage_of t \<Longrightarrow> storage_of (act J a s) = storage_of (act J a t)"
  by (cases a) (auto simp: stored_api_cong storage_of_def [of s] storage_of_def [of t] intro: stored_boot_cong)

interpretation storage: unwinding "act J" "\<lambda>s a. \<not> may_write J s a" storage_of
  by unfold_locales (auto intro: stored_act stored_write_cong)

text \<open>
  C8: Integrity of the storage. Over every sequence of actions, in any order, the files and the
  configuration in memory end up as if only the authorised \<^verbatim>\<open>save\<close> and \<^verbatim>\<open>reset\<close> requests and the
  restarts of the sequence had taken place, and no file but \<^verbatim>\<open>/config.json\<close> is ever created or
  altered: the backup and the web page are as they were, or gone with everything else after a
  boot that formatted the storage.
\<close>
theorem storage_integrity:
  "storage_of (fold (act J) as s) =
     storage_of (fold (act J) (purge (act J) (\<lambda>s a. \<not> may_write J s a) s as) s) \<and>
   map_le ((fs (fold (act J) as s))(''/config.json'' := None)) (fs s)"
  using storage.purge_run [of s s J as] run_other_files [of _ J as s] by (fastforce simp: map_le_def dom_def)

subsection \<open>A boot without a configuration\<close>

lemma null_config_open:
  assumes "json_null_reads J" and "config s = j_null J"
  shows "authorised J w s" "j_asInt J (j_path J (config s) ks) = 0"
proof -
  have "j_path J (j_null J) ks = j_null J" for ks
    using assms(1) by (induction ks) (simp_all add: json_null_reads_def)
  then show "authorised J w s" "j_asInt J (j_path J (config s) ks) = 0"
    using assms by (simp_all add: authorised_login login_rejected_def json_null_reads_def)
qed

text \<open>A storage that offers no configuration when it is loaded.\<close>

definition blank :: "('j, 'z) file_state_scheme \<Rightarrow> bool" where
  "blank s \<longleftrightarrow> \<not> mounted s \<or> (\<exists>n. fs s ''/config.json'' = Some (take n crlf)) \<or>
     fs s ''/config.json'' = None \<and> fs s ''/config.json.bak'' = None"

lemma load_blank:
  "json_blank J \<Longrightarrow> blank s \<Longrightarrow> config (snd (loadConfig J r s)) = j_null J"
  "blank s \<Longrightarrow> mounted s \<Longrightarrow> r \<noteq> OpenFails \<Longrightarrow> \<exists>n. fs (snd (loadConfig J r s)) ''/config.json'' = Some (take n crlf)"
proof -
  have w: "\<exists>n. written r crlf = take n crlf" by (cases r) (auto intro: exI [of _ 2] simp: crlf_def)
  have p: "snd (j_parse J (take n crlf)) = j_null J" if "json_blank J" for n
    using that unfolding json_blank_def by (metis snd_conv)
  have p0: "snd (j_parse J []) = j_null J" if "json_blank J" using p [OF that, of 0] by simp
  show "json_blank J \<Longrightarrow> blank s \<Longrightarrow> config (snd (loadConfig J r s)) = j_null J"
    using w p p0 by (auto simp: blank_def loadConfig_def copyFile_def saveFile_def readFile_def fs_open_def fs_exists_def
      case_prod_unfold Let_def)
  show "blank s \<Longrightarrow> mounted s \<Longrightarrow> r \<noteq> OpenFails \<Longrightarrow> \<exists>n. fs (snd (loadConfig J r s)) ''/config.json'' = Some (take n crlf)"
    using w by (auto simp: blank_def loadConfig_def copyFile_def saveFile_def readFile_def fs_open_def fs_exists_def
      case_prod_unfold Let_def)
qed

lemma boot_blank:
  assumes "json_blank J" and "blank (FileHandler_begin (mount b) (serial_up (power_on J s)))"
  shows "config (main_setup J b (power_on J s)) = j_null J"
  using load_blank(1) [OF assms] by (simp add: main_setup_config)

lemma boot_lost:
  assumes "\<not> mount_ok b \<or> fs s ''/config.json'' = None \<and> fs s ''/config.json.bak'' = None"
  shows "blank (FileHandler_begin (mount b) (serial_up (power_on J s)))"
  using assms by (cases "mount b") (auto simp: blank_def)

lemma boot_lost_file:
  assumes "mount b \<noteq> MountFailed" and "config_write b \<noteq> OpenFails"
    and "\<not> mount_ok b \<or> fs s ''/config.json'' = None \<and> fs s ''/config.json.bak'' = None"
  shows "\<exists>n. fs (main_setup J b (power_on J s)) ''/config.json'' = Some (take n crlf)"
proof -
  let ?s = "FileHandler_begin (mount b) (serial_up (power_on J s))"
  have m: "mounted ?s" using assms(1) by simp
  have "fs ?s ''/config.json.bak'' = None" using assms by (cases "mount b") auto
  then have "fst (readFile ''/config.json.bak'' (snd (loadConfig J (config_write b) ?s))) = []"
    by (simp add: readFile_def fs_open_def loadConfig_fs)
  moreover have "\<exists>n. written (reset_write b) crlf = take n crlf"
    by (cases "reset_write b") (auto intro: exI [of _ 2] simp: crlf_def)
  ultimately show ?thesis
    using load_blank(2) [OF boot_lost [OF assms(3)] m assms(2), of J] by (simp add: main_setup_def Let_def)
qed

text \<open>
  A save that does not reach the storage is acknowledged like any other. When \<^verbatim>\<open>/config.json\<close> cannot be
  opened for writing, the answer is the success message and the new configuration is in memory,
  while the files are those of before: the next boot brings the old configuration back. With a short
  write the file is cut.
\<close>
lemma failed_save_acknowledged:
  assumes "authorised J w s" and "j_isString J (j_get J json ''type'')" and "request_type J json = ''save''"
    and "j_isObject J (j_get J json ''config'')" and "mounted s"
  shows "responses (web_api J w json s) = responses (sendOK s)"
    and "config (web_api J w json s) = j_get J json ''config''"
    and "file_write w = OpenFails \<Longrightarrow> fs (web_api J w json s) = fs s"
    and "file_write w = WriteShort n \<Longrightarrow> fs (web_api J w json s) ''/config.json'' =
      Some (take n (j_print J (j_get J json ''config'') @ crlf))"
  using assms(5)
  by (simp_all add: api_save [OF assms(1-4)] saveConfig_def saveFile_def sendOK_def sendResponse_def responses_def)

text \<open>
  C26: A device that finds no configuration starts unprotected. When the storage cannot be mounted or
  has just been formatted, whatever login was configured before, or when it has neither
  configuration nor backup, the device boots with the null document: every request is authorised,
  and the automation is off. Unless the mount or the opening of the new file has failed, the boot has stored
  a file with nothing but a line end or a part of it, so that a backup that arrives later is ignored by the following boot.
\<close>
theorem lost_storage_opens_device:
  assumes "json_blank J" and "json_null_reads J"
    and "\<not> mount_ok b \<or> fs s ''/config.json'' = None \<and> fs s ''/config.json.bak'' = None"
    and "t = act J (Reboot b) s"
  shows "getConfig t = j_null J \<and> authorised J w t \<and> mode t = 0 \<and>
    (mount b \<noteq> MountFailed \<and> config_write b \<noteq> OpenFails \<longrightarrow> getConfig (act J (Reboot b') (t\<lparr>fs := (fs t)(''/config.json.bak'' \<mapsto> backup)\<rparr>)) = j_null J)"
proof -
  have null: "config t = j_null J" using boot_blank [OF assms(1) boot_lost [OF assms(3)]] assms(4) by simp
  have "mode t = j_asInt J (j_path J (config t) [''auto'', ''mode''])"
    using assms(4) main_setup_auto(1) [of J b] by simp
  then have "mode t = 0" by (simp only: null_config_open(2) [OF assms(2) null])
  moreover have "config (act J (Reboot b') (t\<lparr>fs := (fs t)(''/config.json.bak'' \<mapsto> backup)\<rparr>)) = j_null J"
    if "mount b \<noteq> MountFailed" "config_write b \<noteq> OpenFails"
  proof -
    have "\<exists>n. fs t ''/config.json'' = Some (take n crlf)" using boot_lost_file [OF that assms(3)] assms(4) by simp
    then have "blank (FileHandler_begin (mount b') (serial_up
        (power_on J (t\<lparr>fs := (fs t)(''/config.json.bak'' \<mapsto> backup)\<rparr>))))"
      by (cases "mount b'") (auto simp: blank_def)
    then show ?thesis using boot_blank [OF assms(1)] by simp
  qed
  ultimately show ?thesis using null null_config_open(1) [OF assms(2) null] by (simp add: getConfig_def)
qed

theorem lost_storage_opens_device_witness:
  "\<not> authorised (jv_lib ''{}'' demo_backup) demo_web demo_secured \<and>
   authorised (jv_lib ''{}'' demo_backup) demo_web
     (act (jv_lib ''{}'' demo_backup) (Reboot (demo_boot\<lparr>mount := Formatted\<rparr>)) demo_secured)"
proof -
  let ?J = "jv_lib ''{}'' demo_backup"
  have "json_blank ?J" "json_null_reads ?J"
    by (auto simp: json_blank_def json_null_reads_def jv_lib_def crlf_def take_Cons split: nat.splits)
  then have "authorised ?J demo_web (act ?J (Reboot (demo_boot\<lparr>mount := Formatted\<rparr>)) demo_secured)"
    using lost_storage_opens_device [OF _ _ _ refl, of ?J "demo_boot\<lparr>mount := Formatted\<rparr>" demo_secured] by simp
  moreover have "\<not> authorised ?J demo_web demo_secured"
    by (simp add: authorised_login login_rejected_def jv_lib_def demo_secured_def demo_web_def)
  ultimately show ?thesis by simp
qed

end
