(* ===== verification/Access_Point.thy ===== *)
theory Access_Point
  imports Handler_Frames
begin

text \<open>
  The fallback access point over the life of the device. \<^verbatim>\<open>startAP\<close> ignores the result of
  \<^verbatim>\<open>WiFi.softAP\<close> and sets \<^verbatim>\<open>apStarted\<close> in any case. Only \<^verbatim>\<open>WiFiHandler::loop\<close> and a restart touch the
  radio, and the loop asks for the access point only while that flag is false: a failed call is not
  repeated before the station is back.
\<close>

definition access_point :: "('j, 'z) wifi_state_scheme \<Rightarrow> bool \<times> ap_state" where
  "access_point s = (apStarted s, ap_after ApDown (evlog s))"

lemma ap_quietly: "quietly s t \<Longrightarrow> access_point t = access_point s"
  using quietly_inv(3) [of s t] by (simp add: access_point_def quietly_def)

lemma ap_relais: "access_point (setRelais x c b s) = access_point s"
  by (simp add: access_point_def setRelais_log) (simp add: setRelais_def)

lemma ap_fields:
  "access_point (s\<lparr>fillM := b\<rparr>) = access_point s" "access_point (s\<lparr>pumpM := b\<rparr>) = access_point s"
  "access_point (s\<lparr>autoMillis := t\<rparr>) = access_point s" "access_point (s\<lparr>scanMillis := t\<rparr>) = access_point s"
  by (simp_all add: access_point_def)

lemma ap_switching:
  "access_point (handleRelais now s) = access_point s"
  "access_point (AutomationHandler_loop now s) = access_point s"
  by (simp_all add: handleRelais_def AutomationHandler_loop_def handleFill_def handlePump_def setFill_def
      setPump_def ap_relais ap_fields Let_def)

lemma ap_sensor:
  "access_point (handleScan ok temp now s) = access_point s"
  "access_point (adcTaskStep k mv s) = access_point s"
proof -
  show "access_point (handleScan ok temp now s) = access_point s"
    by (simp add: handleScan_def access_point_def)
  show "access_point (adcTaskStep k mv s) = access_point s"
    using adc_frame(1) [of k mv s] by (auto simp: access_point_def adc_apStarted ap.watch_quiet)
qed

lemma ap_mqtt: "access_point (MQTTHandler_loop J i s) = access_point s"
proof -
  have "access_point (emits (pub_events xs) (s\<lparr>previousMillisMQTT := now\<rparr>)) = access_point s" for xs now
    by (simp add: access_point_def ap.watch_quiet)
  then show ?thesis by (simp add: MQTTHandler_loop_def publish_all access_point_def)
qed

lemmas ap_quiet = quietly_send [THEN ap_quietly] ap_quietly [OF quietly_reset] quietly_files(1,2) [THEN ap_quietly]
  ap_quietly [OF quietly_duration] ap_quietly [OF quietly_emit] ap_quietly [OF quietly_emits]

lemma ap_api: "access_point (web_api J w json s) = access_point s"
  by (simp add: web_api_def needAuth_cases checkRequest_def handleAPICall_def ap_quiet ap_relais
      case_prod_unfold Let_def cong: if_cong)

fun station_back :: "'j action \<Rightarrow> bool" where
  "station_back (WifiLoop up1 up2 ap now) = up1"
| "station_back _ = False"

lemma ap_act:
  assumes "apStarted s" and "\<not> is_reboot a" and "\<not> station_back a"
  shows "access_point (act J a s) = access_point s"
proof -
  have "access_point (WiFiHandler_loop J False up2 ap now s) = access_point s" for up2 ap now
    using assms(1)
    by (simp add: WiFiHandler_loop_def checkConnection_def WiFiHandler_isConnected_def access_point_def Let_def)
  then show ?thesis
    using assms(2,3)
    by (cases a) (simp_all add: ap_switching ap_sensor ap_mqtt ap_api ap_quietly [OF quietly_blink]
        ap_quietly [OF quietly_display] ap_quietly [OF quietly_ota] ap_quietly [OF quietly_root]
        quietly_callbacks [THEN ap_quietly])
qed

lemma ap_run:
  assumes "apStarted s" and "list_all (\<lambda>a. \<not> is_reboot a \<and> \<not> station_back a) as"
  shows "access_point (fold (act J) as s) = access_point s"
  using assms
proof (induction as arbitrary: s)
  case (Cons a as)
  then have step: "access_point (act J a s) = access_point s" by (intro ap_act) simp_all
  with Cons show ?case by (simp add: access_point_def)
qed simp

text \<open>A boot that does not reach the station and whose call of \<^verbatim>\<open>softAP\<close> fails.\<close>

lemma wifi_setup_failed:
  "\<not> soft_ok ap \<Longrightarrow> access_point (WiFiHandler_setup J False ap now s) = (True, ApFailed)"
  by (simp add: access_point_def WiFiHandler_setup_def Let_def)

lemma mqtt_setup_ap: "access_point (MQTTHandler_setup J now s) = access_point s"
  by (simp add: access_point_def)

lemma boot_ap_failed:
  assumes "\<not> sta_ok b" and "\<not> soft_ok (boot_ap b)"
  shows "access_point (main_setup J b (power_on J s)) = (True, ApFailed)"
proof -
  let ?s3 = "DeviceHandler_setup J (reset_pin b) (reset_write b) (display_ok b)
    (snd (loadConfig J (config_write b) (FileHandler_begin (mount b) (serial_up (power_on J s)))))"
  let ?s4 = "WiFiHandler_setup J False (boot_ap b) (now_boot_wifi b) ?s3"
  let ?s7 = "AutomationHandler_setup J (OTAHandler_setup J (WebHandler_setup ?s4))"
  have "quietly ?s4 ?s7" by (meson quietly_trans quietly_late_setup)
  then have "access_point ?s7 = access_point ?s4" by (rule ap_quietly)
  also have "\<dots> = (True, ApFailed)" using assms(2) by (rule wifi_setup_failed)
  finally show ?thesis
    using assms(1) mqtt_setup_ap [of J "now_boot_mqtt b" ?s7]
    by (simp only: main_setup_def Let_def if_False if_cancel ap_quietly [OF quietly_emit] neutral.simps
        simp_thms split: if_split)
qed

subsection \<open>Property\<close>

text \<open>
  C33: A failed access point is never retried. Once a call of \<^verbatim>\<open>softAP\<close> has failed, the program takes
  the access point for started, and whatever the firmware does from then on, however long the station
  is gone and whatever further calls of \<^verbatim>\<open>softAP\<close> would return, there is no access point until the
  station is connected again or the device restarts.
\<close>
theorem failed_ap_never_retried:
  assumes "reachable J sane s" and "ap_after ApDown (evlog s) = ApFailed"
    and "list_all (\<lambda>a. \<not> is_reboot a \<and> \<not> station_back a) as"
  shows "apStarted (fold (act J) as s) \<and> ap_after ApDown (evlog (fold (act J) as s)) = ApFailed"
proof -
  have "apStarted s"
    using firmware_inv_reachable [OF assms(1)] assms(2) by (simp add: firmware_inv_def wifi_ok_def)
  with ap_run [OF this assms(3), of J] assms(2) show ?thesis by (simp add: access_point_def)
qed

definition weak_password :: boot_in where
  "weak_password = demo_boot\<lparr>boot_ap := \<lparr>soft_ok = False, soft_ip = ''0.0.0.0''\<rparr>\<rparr>"

theorem failed_ap_never_retried_witness:
  "ap_after ApDown (evlog (fold (act (jv_lib ''x'' JNull))
     [WifiLoop False False demo_ap 40000, Blink 40500, WifiLoop False False demo_ap 4294967295]
     (main_setup (jv_lib ''x'' JNull) weak_password (power_on (jv_lib ''x'' JNull) demo_ota)))) = ApFailed"
proof -
  let ?J = "jv_lib ''x'' JNull"
  let ?s = "main_setup ?J weak_password (power_on ?J demo_ota)"
  have "reachable ?J sane ?s" by (rule reachable.boot) simp
  moreover have "ap_after ApDown (evlog ?s) = ApFailed"
    using boot_ap_failed [of weak_password ?J demo_ota]
    by (simp add: access_point_def weak_password_def demo_boot_def)
  ultimately show ?thesis
    using failed_ap_never_retried [of ?J ?s "[WifiLoop False False demo_ap 40000, Blink 40500,
        WifiLoop False False demo_ap 4294967295]"] by simp
qed

end
