(* ===== verification/Spec2Isabelle.thy ===== *)
theory Spec2Isabelle
  imports Relay_Race Matter_Handler Float_Types Relay_Spec Sampling Config_Safety Access_Point
begin

text \<open>
  Verification of the ByteWaterlevel firmware: a controller on an ESP32-C3 that measures the
  level of a tank with a 4-20 mA sensor, switches two relays (filling and emptying) by hand, by
  timer or automatically, and talks to a web page, a JSON API, an MQTT broker and two update
  services. The sources are the C++ files under \<^verbatim>\<open>src/src/\<close> and \<^verbatim>\<open>src/disabled/\<close>; every function
  in them is modelled.

  \<^bold>\<open>The parts and their theories.\<close> The globals of a source file are the fields of one record,
  and each record extends the one before it, so that the last one, \<open>'j ota_state\<close> (\<open>'j firmware\<close>),
  is the state of the whole program. Functions keep their source names; where two files use
  the same name the file is put in front (\<open>FileHandler_reset\<close>, \<open>WiFiHandler_loop\<close>).

  \<^item> \<open>Prelude\<close>: machine integers, the wrapping millisecond counter.
  \<^item> \<open>Ieee_Float\<close>: \<^verbatim>\<open>float\<close> and \<^verbatim>\<open>double\<close> with rounding to nearest even, NaN, infinities and signed
    zero, as rational numbers; facts on rounding; the locale \<open>fl_format\<close>, interpreted for
    binary32 and binary64.
  \<^item> \<open>Platform\<close>: \<^verbatim>\<open>InternalConfig.h\<close>, and the log of events: every call whose effect leaves the
    program, with its arguments. \<open>pin_level\<close> reads the level of a pin from the log.
  \<^item> \<open>Json_Lib\<close>: the operations of ArduinoJson the sources use, as a record of functions that is
    an argument of every definition touching JSON, and what the library documents of them.
  \<^item> \<open>Periodic\<close>: the contract of the handlers that run at most once per interval (locales
    \<open>stamped\<close> and \<open>periodic\<close>), interpreted six times below.
  \<^item> \<open>File_Handler\<close> (\<^verbatim>\<open>FileHandler.cpp\<close>): the configuration file and document, factory reset, merge;
    locale \<open>text_store\<close>.
  \<^item> \<open>Device_Handler\<close> (\<^verbatim>\<open>DeviceHandler.cpp\<close>): relays, timers, LED, sensor, display; locale
    \<open>relay_bank\<close>. \<open>Sensor\<close> has the properties of the measurements, \<open>Voltage_Filter\<close> the accuracy
    and the convergence of the EMA filter, \<open>Relay_Timer\<close> the switch-off timers. \<open>Relay_Race\<close> takes
    \<^verbatim>\<open>setRelais\<close> and \<^verbatim>\<open>handleRelais\<close> apart into single memory and pin accesses of several tasks.
  \<^item> \<open>Automation_Handler\<close>, \<open>WiFi_Handler\<close>, \<open>MQTT_Handler\<close>, \<open>OTA_Handler\<close>, \<open>Web_Handler\<close>: the source
    files of the same names.
  \<^item> \<open>Firmware\<close> (\<^verbatim>\<open>main.cpp\<close>): set-up and loop, restarts, the actions of all activities, the
    reachable states and their invariant; locale \<open>monitor\<close> for what is read from the log.
  \<^item> \<open>Handler_Frames\<close>: what each handler leaves alone, proved once for any view of the state
    (locales \<open>core_frame\<close>, \<open>handler_frame\<close>, \<open>sensor_frame\<close> and \<open>full_frame\<close>), interpreted on the MQTT
    client there and on other parts of the state in the next four theories and in this one.
  \<^item> \<open>Float_Types\<close>: the types of the \<^verbatim>\<open>float\<close> globals. \<open>Settings\<close>: what is copied from the configuration
    at boot and when it changes. \<open>Relay_Causes\<close>: what can switch a relay; timed relays in manual
    mode; what an invalid channel can do. \<open>Sampling\<close>: the ADC tasks in rounds, from the samples to the two pumps.
    \<open>Access_Point\<close>: what becomes of a failed start of the access point.
  \<^item> \<open>Login_Protection\<close>: noninterference of rejected requests (locale \<open>unwinding\<close>). \<open>Config_Safety\<close>: what
    writes the storage (\<open>unwinding\<close> again), writes that fail, and boots without a configuration.
  \<^item> \<open>Relay_Spec\<close>: the abstract specification of the relays, a bank of two timed channels, and
    the refinement of it by the whole firmware.
  \<^item> \<open>Matter_Handler\<close> (\<^verbatim>\<open>disabled/MatterHandler.cpp\<close>): the relays as Matter devices. The sources keep
    this handler but do not compile it, so it is not one of the actions of \<open>Firmware\<close>. The calls that the
    library makes back into the listeners from \<^verbatim>\<open>updateAccessory\<close> are arguments.
  \<^item> this theory: the properties that span components.

  \<^bold>\<open>How calls out of the program appear.\<close> A value that the platform or a library returns is an
  argument of the handler that asks for it, one per call in the source (two readings of the
  clock in one function are two arguments), collected in records such as \<open>dev_in\<close>, \<open>web_in\<close>
  or \<open>loop_in\<close>. An effect is an event. Points where C++ leaves the behaviour undefined
  (an uninitialised pin number, signed overflow, division by zero) are events too, \<open>Undefined\<close>,
  so that theorems can say that a run never gets there, or exactly when it does. What the machine
  then does is an argument: the pin that \<^verbatim>\<open>setRelais\<close> writes for a channel other than 1 and 2
  (\<open>stray_pin\<close>), the product that overflows in \<^verbatim>\<open>setRelaisDuration\<close> (\<open>overflowed\<close>). Such a write can hit
  a relay pin, so that facts about the relay pins are stated for \<open>proper\<close> actions, which make no such
  request; \<open>stray_pin_switches_relay\<close> shows what happens otherwise. Results that the source ignores are
  arguments as well: whether \<^verbatim>\<open>softAP\<close> succeeds (\<open>ap_in\<close>) and how much of a file is written
  (\<open>write_result\<close>). Serial output is kept as events; formatting numbers is left to the Arduino core.

  \<^bold>\<open>Concurrency.\<close> The main loop, the web server, the ADC task and the library callbacks run side
  by side. \<open>reachable\<close> interleaves whole handler calls of all of them in any order, together
  with single samples of any number of ADC tasks and restarts at any moment. Below that
  level, \<open>Relay_Race\<close> interleaves the single accesses of relay calls made by any number of tasks:
  the invariants of \<open>reachable\<close> survive there as long as one task owns a channel, and the
  theorems show what is lost otherwise, since the sources take no lock. For the other handlers
  interleavings inside a call are not modelled. A request of type \<^verbatim>\<open>restart\<close> or \<^verbatim>\<open>reset\<close> ends in the
  event \<open>Restart\<close>; that nothing but a reboot follows it is not imposed, which only adds
  reachable states.

  \<^bold>\<open>What is shown.\<close>
  \<^item> Whole firmware: without bad requests the reported relay states are the pin levels, the voltage and the level stay
    in range, the radio flag says what has been asked of the radio, what is published is true, connections follow the last will, valid requests never
    lead to undefined behaviour, a saved configuration survives a restart, resets restore the
    backup, a restart switches everything off, a tank that stays full stops the filling and one that
    stays empty stops the emptying after a computed number of seconds, settings change only at a restart, the relays evolve as their
    specification says under every interleaving, the answer to a status request is true, a relay comes on only for a request or a tick of the
    automation, a timed relay goes off at its deadline under every interleaving, the \<^verbatim>\<open>float\<close> globals hold \<^verbatim>\<open>float\<close> values, and a device that
    boots without network never uses MQTT.
  \<^item> Measurements: ranges, monotonicity and stability of rounding, in IEEE arithmetic, the
    convergence of the filter with a bound on all rounding errors, the equality of the
    sampled ADC task with one undisturbed call, and the voltage as a fold over rounds of samples.
  \<^item> Timers: exact within a turn of the counter, early across it; the remaining time.
  \<^item> Tasks without locks: the accesses of a call run alone are the call; one task per channel
    keeps register and pin together, if the tasks name no other channel; two tasks can separate them or lose a command.
  \<^item> Automation: overfill and dry-run protection, refinement of the two-point controller
    \<open>fill_spec\<close>, and what happens after somebody else switched the relay.
  \<^item> Network: fall-back and recovery of the access point, a failed start of it that is not repeated, rates of reconnects and telemetry,
    what is published, one answer per request. Rejected requests interfere with nothing: every run
    is observed as the run without them.
  \<^item> Storage: termination and effect of the merge, copies, factory reset; only authorised requests and
    restarts write it; a failed write is acknowledged like any other; a device that loses its storage starts without a login.

  \<^bold>\<open>Bounds and fuel.\<close> \<open>mergeJsonObjects\<close> takes its recursion depth as fuel; \<open>merge_terminates\<close>
  shows that any number above the nesting depth of the backup document is enough. \<open>sane\<close> bounds
  an ADC sample by 3300 mV, the supply of the sensor input; the facts on \<open>level_monotone\<close> assume
  voltages below a million volts, so that no difference overflows a \<^verbatim>\<open>float\<close>. The timer facts
  state within which part of the counter's range they hold. A round of \<open>Sampling\<close> has at least 65
  steps of the ADC task, 64 samples of 10 ms and the end, which fit into the second between scans.

  \<^bold>\<open>What is not modelled.\<close> The libraries themselves; the web page; the text form of numbers; memory exhaustion;
  updates of the file system by the update services; damage to the storage between a write and the next boot.

  Interleavings inside the web handlers are left out as well (\<^verbatim>\<open>getConfig\<close> copies the shared document
  while a \<^verbatim>\<open>save\<close> request replaces it): what such a copy holds depends on the memory layout of the JSON library.
  \<^verbatim>\<open>mergeConfigFromBackup\<close> is modelled, but no other function of the sources calls it, so it is not an action.
\<close>

text \<open>A device that has booted, for concrete inputs.\<close>

definition demo_fw :: "jv firmware" where
  "demo_fw = act demo_lib (Api demo_web (relais_request 1 True 60))
     (main_setup demo_lib demo_boot (power_on demo_lib demo_ota))"

definition demo_flash :: "jv firmware" where
  "demo_flash = demo_ota\<lparr>fs := [''/config.json'' \<mapsto> ''x'', ''/config.json.bak'' \<mapsto> ''{}'']\<rparr>"

lemma demo_fw_reachable: "reachable demo_lib sane demo_fw"
  unfolding demo_fw_def by (intro reachable.step reachable.boot) simp_all

lemma demo_fw_proper: "reachable demo_lib (proper demo_lib) demo_fw"
  unfolding demo_fw_def
  by (intro reachable.step reachable.boot)
    (simp_all add: proper_def bad_request_def relais_ok_def relais_request_def demo_lib_def jv_lib_def
      fits_ms_def Let_def)

lemma demo_fw_valid: "reachable demo_lib (valid demo_lib) demo_fw"
  using demo_fw_proper by (rule reachable_mono) (simp add: proper_def)

lemma demo_authorised [simp]: "authorised demo_lib w demo_flash" "authorised demo_lib w demo_ota"
  by (simp_all add: authorised_def needAuth_def demo_lib_def jv_lib_def getConfig_def demo_flash_def)

lemma demo_mounted [simp]: "mounted demo_flash" "mounted demo_ota"
  by (simp_all add: demo_flash_def demo_ota_def demo_mqtt_def demo_wifi_def mqtt_state.defs
      wifi_state.defs auto_state.defs device_state.defs demo_auto_def demo_device_def)

section \<open>Properties of the whole firmware\<close>

text \<open>
  C1: In every reachable state, over all interleavings of loop handlers, requests, callbacks,
  ADC steps and restarts in which no request names a channel other than 1 and 2 or an overflowing
  duration, the relay states the firmware reports are the levels of the relay pins.
\<close>
theorem relays_match_pins:
  assumes "reachable J (proper J) s"
  shows "getState 1 s = pin_level RELAIS_CH1 s \<and> getState 2 s = pin_level RELAIS_CH2 s"
  using proper_reachable(3) [OF assms] by (simp add: relay_sync_def)

theorem relays_match_pins_witness:
  "getState 1 demo_fw = pin_level RELAIS_CH1 demo_fw \<and> getState 2 demo_fw = pin_level RELAIS_CH2 demo_fw"
  by (rule relays_match_pins [OF demo_fw_proper])

text \<open>
  C10: With an ADC driver that reports at most 3300 mV the filtered voltage lies between 0 V and
  3.3 V in every reachable state, however many ADC tasks run at once and whatever is
  interleaved with their samples.
\<close>
theorem voltage_in_range:
  assumes "reachable J sane s"
  shows "fl_in 0 V_MAX (getADCValueCached s)"
  using firmware_inv_reachable [OF assms]
  by (simp add: firmware_inv_def core_inv_def voltage_ok_def getADCValueCached_def)

theorem voltage_in_range_witness: "fl_in 0 V_MAX (getADCValueCached demo_fw)"
  by (rule voltage_in_range [OF demo_fw_reachable])

text \<open>
  C11: The level that the display, the web page, MQTT and the automation see is a percentage
  between 0 and 100, or NaN, in every reachable state and for every configuration.
\<close>
theorem level_in_range:
  assumes "reachable J sane s"
  shows "getLevelCached s = FNaN \<or> fl_in 0 100 (getLevelCached s)"
  using firmware_inv_reachable [OF assms] by (simp add: firmware_inv_def core_inv_def level_ok_def)

theorem level_in_range_witness: "getLevelCached demo_fw = FNaN \<or> fl_in 0 100 (getLevelCached demo_fw)"
  by (rule level_in_range [OF demo_fw_reachable])

text \<open>
  C24: In every reachable state the flag \<^verbatim>\<open>apStarted\<close> says whether the access point has been asked
  for, and the radio is in station mode exactly if it has not. The flag does not say that the access
  point is up: it is up or, since the result of \<^verbatim>\<open>softAP\<close> is ignored, its start has failed.
\<close>
theorem radio_consistent:
  assumes "reachable J sane s"
  shows "apStarted s = (ap_after ApDown (evlog s) \<in> {ApUp, ApFailed}) \<and>
    (radio_after None (evlog s) = Some WIFI_MODE_STA) = (\<not> apStarted s) \<and>
    radio_after None (evlog s) \<noteq> None"
  using firmware_inv_reachable [OF assms]
  by (cases "ap_after ApDown (evlog s)")
    (auto simp: firmware_inv_def wifi_ok_def split: option.splits wifi_mode.splits)

theorem radio_consistent_witness:
  "apStarted demo_fw = (ap_after ApDown (evlog demo_fw) \<in> {ApUp, ApFailed}) \<and>
   (radio_after None (evlog demo_fw) = Some WIFI_MODE_STA) = (\<not> apStarted demo_fw) \<and>
   radio_after None (evlog demo_fw) \<noteq> None"
  by (rule radio_consistent [OF demo_fw_reachable])

text \<open>
  C6: No run reaches undefined behaviour as long as no \<^verbatim>\<open>relais\<close> request names a channel other
  than 1 and 2 (in its low eight bits) or a duration whose milliseconds overflow an \<^verbatim>\<open>int\<close>, and
  no local update is smaller than 100 bytes.
\<close>
theorem no_undefined_behaviour:
  assumes "reachable J (valid J) s"
  shows "undefined_free (evlog s)"
  by (rule defined_reachable [OF assms])

theorem no_undefined_behaviour_witness: "undefined_free (evlog demo_fw)"
  by (rule no_undefined_behaviour [OF demo_fw_valid])

text \<open>
  C31: Every other request is harmless, and only an authorised one can do harm: a request adds
  undefined behaviour to the log exactly if it is authorised and bad in the sense above.
\<close>
theorem request_undefined_iff:
  assumes "undefined_free (evlog s)"
  shows "undefined_free (evlog (web_api J w json s)) = (\<not> (authorised J w s \<and> bad_request J json))"
  using assms by (simp add: defined_api)

theorem request_undefined_iff_witness:
  "\<not> undefined_free (evlog (web_api demo_lib demo_web (relais_request 3 True 1) demo_ota)) \<and>
   undefined_free (evlog (web_api demo_lib demo_web (relais_request 3 True 1) demo_secured))"
proof -
  have "bad_request demo_lib (relais_request 3 True 1)"
    by (simp add: bad_request_def relais_ok_def request_type_def relais_request_def demo_lib_def
        jv_lib_def Let_def)
  moreover have "\<not> authorised demo_lib demo_web demo_secured"
    by (simp add: authorised_def needAuth_def demo_lib_def jv_lib_def getConfig_def demo_secured_def
        demo_web_def)
  ultimately show ?thesis
    using request_undefined_iff [of demo_ota demo_lib demo_web "relais_request 3 True 1"]
      request_undefined_iff [of demo_secured demo_lib demo_web "relais_request 3 True 1"]
    by (simp add: demo_secured_def)
qed

text \<open>
  C7: A configuration saved through the API is in force after the next restart: an authorised
  \<^verbatim>\<open>save\<close> request whose file is written in full, followed by a reboot, gives back exactly that
  configuration, and the automation runs with its mode and its maximum.
\<close>
theorem saved_config_survives_reboot:
  assumes "mounted s" and "authorised J w s" and "j_isString J (j_get J json ''type'')"
    and "request_type J json = ''save''" and "j_get J json ''config'' = v" and "j_isObject J v"
    and "json_reads_back J v" and "file_write w = WriteAll" and "mount_ok b"
  shows "config (act J (Reboot b) (act J (Api w json) s)) = v \<and>
    mode (act J (Reboot b) (act J (Api w json) s)) = j_asInt J (j_path J v [''auto'', ''mode'']) \<and>
    maxL (act J (Reboot b) (act J (Api w json) s)) = j_asFloat J (j_path J v [''auto'', ''max''])"
proof -
  have "fs (web_api J w json s) ''/config.json'' = Some (j_print J v @ crlf)"
    using api_save [of J w s json] assms(1-6,8) by (simp add: saveConfig_def saveFile_fs sendOK_def sendResponse_def)
  then have "config (act J (Reboot b) (act J (Api w json) s)) = v"
    using assms(7,9) reboot_config [of b "web_api J w json s" "j_print J v @ crlf" J]
    by (simp add: json_reads_back_def)
  then show ?thesis using main_setup_auto [of J b] by simp
qed

theorem saved_config_survives_reboot_witness:
  "config (act demo_lib (Reboot demo_boot) (act demo_lib
     (Api demo_web (JObj [(''type'', JText ''save''), (''config'', demo_backup)])) demo_ota)) = demo_backup"
proof -
  let ?json = "JObj [(''type'', JText ''save''), (''config'', demo_backup)]"
  have "j_isString demo_lib (j_get demo_lib ?json ''type'')"
    "request_type demo_lib ?json = ''save''" "j_get demo_lib ?json ''config'' = demo_backup"
    "j_isObject demo_lib demo_backup" "json_reads_back demo_lib demo_backup" "file_write demo_web = WriteAll"
    "mount_ok demo_boot"
    by (simp_all add: demo_web_def request_type_def json_reads_back_def demo_boot_def demo_defs jv_lib_def)
  from saved_config_survives_reboot [OF demo_mounted(2) demo_authorised(2) this] show ?thesis by simp
qed

text \<open>
  Factory reset through the API: after an authorised \<^verbatim>\<open>reset\<close> request and the restart it
  triggers, the device runs with the configuration of the backup file, whatever was saved
  before.
\<close>
lemma api_reset_restores_backup:
  assumes "mounted s" and "authorised J w s" and "j_isString J (j_get J json ''type'')"
    and "request_type J json = ''reset''" and "fs s ''/config.json.bak'' = Some backup"
    and "file_write w = WriteAll" and "mount_ok b"
  shows "config (act J (Reboot b) (act J (Api w json) s)) = snd (j_parse J (backup @ crlf)) \<and>
    last (evlog (act J (Api w json) s)) = Restart"
proof
  note api = api_reset [OF assms(2-4)]
  then have "fs (web_api J w json s) ''/config.json'' = Some (backup @ crlf)"
    using assms(1,5,6) by (simp add: FileHandler_reset_def copyFile_fs readFile_def fs_open_def)
  then show "config (act J (Reboot b) (act J (Api w json) s)) = snd (j_parse J (backup @ crlf))"
    using assms(7) reboot_config [of b] by simp
  show "last (evlog (act J (Api w json) s)) = Restart" using api by simp
qed

text \<open>
  C27: Manual reset as its manual describes it: a boot with the reset pin high still runs with
  the stored configuration and, if its write succeeds, the boot after it runs with the backup.
\<close>
theorem manual_reset_second_boot:
  assumes "mount_ok b1" and "reset_pin b1" and "reset_write b1 = WriteAll" and "mount_ok b2"
    and "fs s ''/config.json'' = Some stored" and "fs s ''/config.json.bak'' = Some backup"
  shows "config (act J (Reboot b1) s) = snd (j_parse J stored) \<and>
    config (act J (Reboot b2) (act J (Reboot b1) s)) = snd (j_parse J (backup @ crlf))"
proof
  show "config (act J (Reboot b1) s) = snd (j_parse J stored)"
    using assms(1,5) reboot_config [of b1] by simp
  have "fs (act J (Reboot b1) s) ''/config.json'' = Some (backup @ crlf)"
    using assms(1-3,6) by (simp add: reset_boot_fs)
  then show "config (act J (Reboot b2) (act J (Reboot b1) s)) = snd (j_parse J (backup @ crlf))"
    using assms(4) reboot_config [of b2] by simp
qed

theorem manual_reset_second_boot_witness:
  "config (act demo_lib (Reboot (demo_boot\<lparr>reset_pin := True\<rparr>)) demo_flash) = JNull \<and>
   config (act demo_lib (Reboot demo_boot)
     (act demo_lib (Reboot (demo_boot\<lparr>reset_pin := True\<rparr>)) demo_flash)) = demo_backup"
proof -
  have "mount_ok (demo_boot\<lparr>reset_pin := True\<rparr>)" "reset_pin (demo_boot\<lparr>reset_pin := True\<rparr>)"
    "reset_write (demo_boot\<lparr>reset_pin := True\<rparr>) = WriteAll"
    "mount_ok demo_boot" "fs demo_flash ''/config.json'' = Some ''x''"
    "fs demo_flash ''/config.json.bak'' = Some ''{}''"
    by (simp_all add: demo_boot_def demo_flash_def)
  from manual_reset_second_boot [OF this, of demo_lib] show ?thesis
    by (simp add: demo_lib_def jv_lib_def crlf_def)
qed

text \<open>
  A restart is safe: whatever the device was doing, after a reboot both relays are off,
  in the registers and on the pins.
\<close>
lemma restart_switches_off:
  assumes "reachable J (proper J) s"
  shows "\<not> getState 1 (act J (Reboot b) s) \<and> \<not> getState 2 (act J (Reboot b) s) \<and>
    \<not> pin_level RELAIS_CH1 (act J (Reboot b) s) \<and> \<not> pin_level RELAIS_CH2 (act J (Reboot b) s)"
proof -
  have "reachable J (proper J) (act J (Reboot b) s)"
    using assms by (rule reachable.step) (simp add: proper_def)
  then have "relay_sync (act J (Reboot b) s)" by (rule proper_reachable(3))
  moreover have "\<not> getState 1 (act J (Reboot b) s)" "\<not> getState 2 (act J (Reboot b) s)"
    by (simp_all add: getState_def main_setup_relays)
  ultimately show ?thesis by (auto simp: relay_sync_def)
qed










text \<open>
  In every reachable run, every attempt to connect to the broker comes after the last will
  \<^verbatim>\<open>waterlevel/status = offline\<close> has been set since the last restart.
\<close>
lemma connect_has_will:
  assumes "reachable J sane s"
  shows "will_before_connect False (evlog s)"
  using firmware_inv_reachable [OF assms] by (rule firmware_inv_will)

text \<open>
  C18: The \<^verbatim>\<open>status\<close> request tells the truth: in every state reachable without bad requests its answer is one document
  whose channel states are the levels of the relay pins, whose voltage is between 0 V and 3.3 V
  and whose level is a percentage (or NaN), and answering it changes nothing but the log.
\<close>
theorem status_truthful:
  assumes "json_tree J" and "json_grows J" and "reachable J (proper J) s" and "authorised J w s"
    and "j_isString J (j_get J json ''type'')" and "request_type J json = ''status''"
  shows "\<exists>doc volts level.
    responses (web_api J w json s) = responses s @ [Http (Send 200 ''application/json'' (j_print J doc))] \<and>
    j_get J doc ''channels'' =
      j_ofList J [j_ofBool J (pin_level RELAIS_CH1 s), j_ofBool J (pin_level RELAIS_CH2 s)] \<and>
    j_get J doc ''adc'' = j_ofFloat J volts \<and> fl_in 0 V_MAX volts \<and>
    j_get J doc ''level'' = j_ofFloat J level \<and> (level = FNaN \<or> fl_in 0 100 level) \<and>
    web_api J w json s = s\<lparr>evlog := evlog (web_api J w json s)\<rparr>"
proof -
  let ?call = "emit (SerialOut [Text ''API Call: '', Text ''status'']) s"
  let ?doc = "status_doc J w ?call"
  have inv: "relay_sync s" "voltage_ok s" "level_ok s"
    using proper_reachable(3) [OF assms(3)] firmware_inv_reachable [OF proper_reachable(1) [OF assms(3)]]
    by (simp_all add: firmware_inv_def core_inv_def)
  have api: "web_api J w json s = sendResponse 200 (j_print J ?doc) ?call"
    using assms(4-6)
    by (simp add: web_api_def needAuth_cases checkRequest_def handleAPICall_def request_type_def Let_def)
  have "j_get J ?doc ''channels'' = j_ofList J [j_ofBool J (getState 1 s), j_ofBool J (getState 2 s)]"
    "j_get J ?doc ''adc'' = j_ofFloat J (getADCValueCached s)"
    "j_get J ?doc ''level'' = j_ofFloat J (getLevelCached s)"
    unfolding status_doc_def j_members_def [symmetric]
    by (rule j_members_null [OF assms(1,2)];
        simp add: getState_def getADCValueCached_def getLevelCached_def)+
  then show ?thesis
    using inv api
    by (intro exI [of _ ?doc] exI [of _ "getADCValueCached s"] exI [of _ "getLevelCached s"])
      (simp add: sendResponse_def relay_sync_def voltage_ok_def level_ok_def getADCValueCached_def emit_def
        responses_def)
qed

theorem status_truthful_witness:
  "\<exists>doc volts level.
    responses (web_api demo_lib (demo_web\<lparr>authenticate := \<lambda>_ _. True\<rparr>) (JObj [(''type'', JText ''status'')]) demo_fw) =
      responses demo_fw @ [Http (Send 200 ''application/json'' (j_print demo_lib doc))] \<and>
    j_get demo_lib doc ''channels'' = j_ofList demo_lib
      [j_ofBool demo_lib (pin_level RELAIS_CH1 demo_fw), j_ofBool demo_lib (pin_level RELAIS_CH2 demo_fw)] \<and>
    j_get demo_lib doc ''adc'' = j_ofFloat demo_lib volts \<and> fl_in 0 V_MAX volts"
proof -
  let ?w = "demo_web\<lparr>authenticate := \<lambda>_ _. True\<rparr>" and ?json = "JObj [(''type'', JText ''status'')]"
  have lib: "json_tree demo_lib" "json_grows demo_lib"
    by (simp_all add: demo_lib_def json_tree_jv json_grows_jv)
  have req: "authorised demo_lib ?w demo_fw" "j_isString demo_lib (j_get demo_lib ?json ''type'')"
    "request_type demo_lib ?json = ''status''"
    by (simp_all add: authorised_def needAuth_def request_type_def demo_lib_def jv_lib_def Let_def)
  from status_truthful [OF lib demo_fw_proper req] show ?thesis by blast
qed

end
